(* ===== verification/Prelude.thy ===== *)
theory Prelude
  imports Main "HOL-Library.Finite_Map" "HOL-Library.Word" "HOL-Library.Char_ord"
    "HOL-Library.List_Lexorder" "HOL-Library.Sublist"
begin

text \<open>
  Shared vocabulary of the development: Go's nil-able slices and maps, the functions of the Go
  standard library that the operator calls on strings (\<open>strings.Split\<close>, \<open>strings.Repeat\<close>,
  \<open>strings.HasPrefix\<close>, \<open>strconv.Itoa\<close>, \<open>strconv.FormatBool\<close>, \<open>sort.Strings\<close>), and the lemmas
  about them that the component theories share.

  A Go string is a sequence of bytes: \<open>string\<close>, a list of 8-bit characters. A slice is
  \<open>None\<close> when it is nil and \<open>Some xs\<close> otherwise, because \<open>reflect.DeepEqual\<close> tells a nil slice
  from an empty one; a map is \<open>None\<close> when it is nil (reading it gives the zero value, writing it
  panics) and \<open>Some f\<close> for a finite map \<open>f\<close> otherwise. With these types
  \<open>reflect.DeepEqual\<close> on the operator's values is equality.
\<close>

named_theorems go_string \<open>unfolding rules of the Go string functions\<close>
named_theorems go_map \<open>reading and writing Go maps\<close>

subsection \<open>Slices and maps\<close>

type_synonym 'a slice = "'a list option"

type_synonym ('k, 'v) gomap = "('k, 'v) fmap option"

fun elems :: "'a slice \<Rightarrow> 'a list" where
  "elems None = []"
| "elems (Some xs) = xs"

definition append_slice :: "'a slice \<Rightarrow> 'a \<Rightarrow> 'a slice" where
  "append_slice s x = Some (elems s @ [x])"

text \<open>\<open>m[k]\<close> on a \<open>map[string]string\<close>: the empty string when the key is missing.\<close>

definition mget :: "('k, string) gomap \<Rightarrow> 'k \<Rightarrow> string" where
  "mget m k = (case m of None \<Rightarrow> [] | Some f \<Rightarrow> (case fmlookup f k of None \<Rightarrow> [] | Some v \<Rightarrow> v))"

text \<open>\<open>m[k] = v\<close>: \<open>None\<close> is the run-time panic "assignment to entry in nil map".\<close>

definition mset_at :: "('k, 'v) gomap \<Rightarrow> 'k \<Rightarrow> 'v \<Rightarrow> ('k, 'v) gomap option" where
  "mset_at m k v = (case m of None \<Rightarrow> None | Some f \<Rightarrow> Some (Some (fmupd k v f)))"

text \<open>A map literal \<open>map[K]V{k1: v1, ...}\<close>; the keys of the literals in the code are distinct.\<close>

abbreviation maplit :: "('k \<times> 'v) list \<Rightarrow> ('k, 'v) gomap" where
  "maplit kvs \<equiv> Some (fmap_of_list kvs)"

lemma elems_append_slice [simp]: "elems (append_slice s x) = elems s @ [x]"
  by (simp add: append_slice_def)

lemma mget_nil [simp, go_map]: "mget None k = []"
  by (simp add: mget_def)

lemma mget_upd [simp, go_map]: "mget (Some (fmupd k v f)) k' = (if k = k' then v else mget (Some f) k')"
  by (simp add: mget_def)

lemma mset_at_nil_iff [simp, go_map]: "mset_at m k v = None \<longleftrightarrow> m = None"
  by (simp add: mset_at_def split: option.splits)

lemma mset_at_Some [simp, go_map]: "mset_at (Some f) k v = Some (Some (fmupd k v f))"
  by (simp add: mset_at_def)

lemma mset_at_SomeD: "mset_at m k v = Some m' \<Longrightarrow> \<exists>f. m = Some f \<and> m' = Some (fmupd k v f)"
  by (auto simp: mset_at_def split: option.splits)

lemma mget_mset_at: "mset_at m k v = Some m' \<Longrightarrow> mget m' k' = (if k = k' then v else mget m k')"
  by (auto dest: mset_at_SomeD)

subsection \<open>Strings\<close>

definition nl :: char where
  "nl = CHR 0x0A"

abbreviation newline :: string where
  "newline \<equiv> [nl]"

text \<open>\<open>strings.Repeat(s, n)\<close> for a count the code never makes negative.\<close>

definition Repeat :: "string \<Rightarrow> nat \<Rightarrow> string" where
  "Repeat s n = concat (replicate n s)"

text \<open>\<open>strings.HasPrefix(s, p)\<close>.\<close>

definition HasPrefix :: "string \<Rightarrow> string \<Rightarrow> bool" where
  "HasPrefix s p \<longleftrightarrow> take (length p) s = p"

lemma HasPrefix_iff [simp]: "HasPrefix s p \<longleftrightarrow> prefix p s"
  by (metis HasPrefix_def append_eq_conv_conj append_take_drop_id prefix_def)

text \<open>The leftmost occurrence of a string: what is before it and what is after it.\<close>

fun cut :: "string \<Rightarrow> string \<Rightarrow> (string \<times> string) option" where
  "cut sep s =
     (if take (length sep) s = sep then Some ([], drop (length sep) s)
      else case s of [] \<Rightarrow> None
           | c # cs \<Rightarrow> (case cut sep cs of None \<Rightarrow> None | Some (a, b) \<Rightarrow> Some (c # a, b)))"

declare cut.simps [simp del]

text \<open>\<open>strings.Contains(s, sub)\<close>.\<close>

definition contains :: "string \<Rightarrow> string \<Rightarrow> bool" where
  "contains s sub \<longleftrightarrow> cut sub s \<noteq> None"

lemma not_contains: "\<not> contains s sub \<longleftrightarrow> cut sub s = None"
  unfolding contains_def by (rule not_not)

lemma cut_SomeD:
  "cut sep s = Some (a, b) \<Longrightarrow> s = a @ sep @ b"
proof (induction sep s arbitrary: a rule: cut.induct)
  case (1 sep s)
  show ?case
  proof (cases "take (length sep) s = sep")
    case True
    with "1.prems" show ?thesis
      by (subst (asm) cut.simps) (metis Pair_inject append_Nil append_take_drop_id option.inject)
  next
    case False
    with "1.prems" obtain c cs a' where "s = c # cs" "cut sep cs = Some (a', b)" "a = c # a'"
      by (subst (asm) cut.simps) (auto split: list.splits option.splits)
    with "1.IH"[OF False] show ?thesis by auto
  qed
qed

lemma cut_None_iff: "cut sep s = None \<longleftrightarrow> (\<nexists>a b. s = a @ sep @ b)"
proof (induction s)
  case Nil
  then show ?case by (subst cut.simps) auto
next
  case (Cons c s)
  show ?case
  proof (cases "take (length sep) (c # s) = sep")
    case True
    then have "cut sep (c # s) \<noteq> None" by (subst cut.simps) simp
    moreover from True have "c # s = [] @ sep @ drop (length sep) (c # s)"
      by (metis append_Nil append_take_drop_id)
    ultimately show ?thesis by blast
  next
    case False
    then have "cut sep (c # s) = None \<longleftrightarrow> cut sep s = None"
      by (subst cut.simps) (auto split: option.splits)
    moreover from False have "(\<exists>a b. c # s = a @ sep @ b) \<longleftrightarrow> (\<exists>a b. s = a @ sep @ b)"
      by (metis append_Cons append_Nil append_eq_conv_conj list.exhaust list.sel(3) self_append_conv2)
    ultimately show ?thesis using Cons.IH by simp
  qed
qed

lemma cut_here: "take (length sep) s = sep \<Longrightarrow> cut sep s = Some ([], drop (length sep) s)"
  by (subst cut.simps) simp

lemma cut_Nil: "sep \<noteq> [] \<Longrightarrow> cut sep [] = None"
  by (subst cut.simps) simp

lemma contains_iff: "contains s sub \<longleftrightarrow> (\<exists>a b. s = a @ sub @ b)"
  using cut_None_iff[of sub s] by (auto simp: contains_def)

lemma contains_iff_sublist: "contains s sub \<longleftrightarrow> sublist sub s"
  by (auto simp: contains_iff sublist_def)

text \<open>\<open>cut\<close> finds the leftmost occurrence.\<close>

lemma cut_leftmost: "cut sep s = Some (a, b) \<Longrightarrow> s = p @ sep @ q \<Longrightarrow> length a \<le> length p"
proof (induction s arbitrary: a p)
  case Nil
  then show ?case by (auto dest: cut_SomeD)
next
  case (Cons c s)
  show ?case
  proof (cases "take (length sep) (c # s) = sep")
    case True
    with Cons.prems(1) cut_here show ?thesis by force
  next
    case False
    with Cons.prems(1) obtain a' where "cut sep s = Some (a', b)" "a = c # a'"
      by (subst (asm) cut.simps) (auto split: option.splits)
    moreover from False Cons.prems(2) obtain p' where "p = c # p'" "s = p' @ sep @ q"
      by (cases p) auto
    ultimately show ?thesis using Cons.IH by simp
  qed
qed

text \<open>
  \<open>strings.Split(s, sep)\<close>: with a non-empty separator the pieces between its non-overlapping
  occurrences from the left, always at least one. (The code never passes an empty separator; the
  first equation explodes the string into its characters, as Go does.)
\<close>

function Split :: "string \<Rightarrow> string \<Rightarrow> string list" where
  "Split s sep =
     (if sep = [] then map (\<lambda>c. [c]) s
      else case cut sep s of None \<Rightarrow> [s] | Some (a, b) \<Rightarrow> a # Split b sep)"
  by pat_completeness auto
termination
  by (relation "measure (\<lambda>(s, sep). length s)") (auto dest: cut_SomeD)

declare Split.simps [simp del]

fun Join :: "string list \<Rightarrow> string \<Rightarrow> string" where
  "Join [] sep = []"
| "Join [x] sep = x"
| "Join (x # y # ys) sep = x @ sep @ Join (y # ys) sep"

lemma Split_nonempty: "sep \<noteq> [] \<Longrightarrow> Split s sep \<noteq> []"
  by (subst Split.simps) (auto split: option.splits)

lemma Join_Cons: "xs \<noteq> [] \<Longrightarrow> Join (x # xs) sep = x @ sep @ Join xs sep"
  by (cases xs) auto

lemma Join_Split: "sep \<noteq> [] \<Longrightarrow> Join (Split s sep) sep = s"
proof (induction s sep rule: Split.induct)
  case (1 s sep)
  then show ?case
    by (subst Split.simps) (auto split: option.splits simp: Join_Cons Split_nonempty dest: cut_SomeD)
qed

lemma Split_no_sep: "sep \<noteq> [] \<Longrightarrow> \<not> contains s sep \<Longrightarrow> Split s sep = [s]"
  by (subst Split.simps) (cases "cut sep s"; simp add: contains_def)

subsection \<open>Lines\<close>

abbreviation split_lines :: "string \<Rightarrow> string list" where
  "split_lines s \<equiv> Split s newline"

abbreviation join_lines :: "string list \<Rightarrow> string" where
  "join_lines ls \<equiv> Join ls newline"

lemma cut_char_Cons:
  "cut [x] (c # s) = (if c = x then Some ([], s) else map_option (\<lambda>(a, b). (c # a, b)) (cut [x] s))"
  by (subst cut.simps) (auto split: option.splits)

lemma cut_char_append: "x \<notin> set l \<Longrightarrow> cut [x] (l @ x # s) = Some (l, s)"
  by (induction l) (auto simp: cut_char_Cons)

lemma cut_char_None [simp]: "cut [x] s = None \<longleftrightarrow> x \<notin> set s"
  by (induction s) (auto simp: cut_char_Cons cut_Nil)

lemma cut_char_SomeD: "cut [x] s = Some (a, b) \<Longrightarrow> x \<notin> set a \<and> s = a @ x # b"
  by (induction s arbitrary: a) (auto simp: cut_char_Cons cut_Nil split: if_splits)

lemma Split_char_single: "x \<notin> set l \<Longrightarrow> Split l [x] = [l]"
  by (rule Split_no_sep) (simp_all add: contains_def)

lemma Split_char_Cons: "x \<notin> set l \<Longrightarrow> Split (l @ x # s) [x] = l # Split s [x]"
  by (subst Split.simps) (simp add: cut_char_append)

lemma takeWhile_until: "x \<notin> set a \<Longrightarrow> takeWhile (\<lambda>c. c \<noteq> x) (a @ x # b) = a"
  by (induction a) auto

lemma dropWhile_until: "x \<notin> set a \<Longrightarrow> dropWhile (\<lambda>c. c \<noteq> x) (a @ x # b) = x # b"
  by (induction a) auto

lemma takeWhile_absent: "x \<notin> set a \<Longrightarrow> takeWhile (\<lambda>c. c \<noteq> x) a = a"
  by (induction a) auto

lemma dropWhile_absent: "x \<notin> set a \<Longrightarrow> dropWhile (\<lambda>c. c \<noteq> x) a = []"
  by (induction a) auto

lemma hd_Split_char: "hd (Split s [x]) = takeWhile (\<lambda>c. c \<noteq> x) s"
proof (cases "x \<in> set s")
  case True
  then obtain a b where s: "s = a @ x # b" "x \<notin> set a" by (meson split_list_first)
  then show ?thesis by (simp add: Split_char_Cons takeWhile_until)
next
  case False
  then show ?thesis by (simp add: Split_char_single takeWhile_absent)
qed

lemma Split_nth_1:
  assumes "x \<notin> set w"
  shows "Split (w @ x # b) [x] ! 1 = takeWhile (\<lambda>c. c \<noteq> x) b" "length (Split (w @ x # b) [x]) > 1"
  using assms Split_nonempty[of "[x]" b] hd_Split_char[of b x]
  by (simp_all add: Split_char_Cons hd_conv_nth)

lemmas split_lines_single = Split_char_single[of nl]
lemmas split_lines_Cons = Split_char_Cons[of nl]

lemma split_lines_join:
  "ls \<noteq> [] \<Longrightarrow> \<forall>l \<in> set ls. nl \<notin> set l \<Longrightarrow> split_lines (join_lines ls) = ls"
  by (induction ls newline rule: Join.induct) (auto simp: split_lines_single split_lines_Cons)

text \<open>A string is either one line or a first line, a line break and the rest.\<close>

lemma lines_induct [case_names Line Break]:
  assumes "\<And>l. nl \<notin> set l \<Longrightarrow> P l"
    and "\<And>l s. nl \<notin> set l \<Longrightarrow> P s \<Longrightarrow> P (l @ nl # s)"
  shows "P s"
proof (induction s rule: measure_induct_rule[where f = length])
  case (less s)
  show ?case
  proof (cases "cut newline s")
    case None
    then show ?thesis using assms(1) by simp
  next
    case (Some p)
    then obtain a b where "nl \<notin> set a" "s = a @ nl # b"
      by (cases p) (auto dest: cut_char_SomeD)
    then show ?thesis using assms(2) less by simp
  qed
qed

lemma split_lines_no_nl: "l \<in> set (split_lines s) \<Longrightarrow> nl \<notin> set l"
  by (induction s rule: lines_induct) (auto simp: split_lines_single split_lines_Cons)

subsection \<open>Numbers and truth values as strings\<close>

definition digit_char :: "nat \<Rightarrow> char" where
  "digit_char d = ''0123456789'' ! d"

fun utoa :: "nat \<Rightarrow> string" where
  "utoa n = (if n < 10 then [digit_char n] else utoa (n div 10) @ [digit_char (n mod 10)])"

declare utoa.simps [simp del]

text \<open>\<open>strconv.Itoa(i)\<close>.\<close>

definition Itoa :: "int \<Rightarrow> string" where
  "Itoa i = (if i < 0 then CHR ''-'' # utoa (nat (- i)) else utoa (nat i))"

text \<open>\<open>strconv.FormatBool(b)\<close>.\<close>

fun FormatBool :: "bool \<Rightarrow> string" where
  "FormatBool True = ''true''"
| "FormatBool False = ''false''"

text \<open>\<open>sort.Strings(xs)\<close>: ascending in the order of bytes.\<close>

definition sort_strings :: "string list \<Rightarrow> string list" where
  "sort_strings xs = sort xs"

definition digits :: "char set" where
  "digits = set ''0123456789''"

lemma digit_char_digits: "d < 10 \<Longrightarrow> digit_char d \<in> digits"
  unfolding digit_char_def digits_def by (rule nth_mem) simp

lemma set_utoa: "set (utoa n) \<subseteq> digits"
proof (induction n rule: utoa.induct)
  case (1 n)
  show ?case
  proof (cases "n < 10")
    case True
    then show ?thesis using digit_char_digits by (subst utoa.simps) simp
  next
    case False
    with "1.IH" show ?thesis using digit_char_digits by (subst utoa.simps) simp
  qed
qed

lemma set_Itoa: "set (Itoa i) \<subseteq> insert (CHR ''-'') digits"
  using set_utoa[of "nat (- i)"] set_utoa[of "nat i"] by (auto simp: Itoa_def)

text \<open>No number and no truth value contains a blank, a line break or a dollar sign.\<close>

lemma Itoa_plain: "c \<in> set (Itoa i) \<Longrightarrow> c \<noteq> CHR '' '' \<and> c \<noteq> nl \<and> c \<noteq> CHR ''$''"
proof -
  assume "c \<in> set (Itoa i)"
  then have "c \<in> insert (CHR ''-'') digits" using set_Itoa by blast
  then show ?thesis by (auto simp: digits_def nl_def)
qed

lemma FormatBool_plain: "c \<in> set (FormatBool b) \<Longrightarrow> c \<noteq> CHR '' '' \<and> c \<noteq> nl \<and> c \<noteq> CHR ''$''"
  by (cases b) (auto simp: nl_def)

end
