(* ===== verification/Regexp.thy ===== *)
theory Regexp
  imports Prelude
begin

text \<open>
  The part of Go's \<open>regexp\<close> package that the operator uses: leftmost-first matching of
  concatenations of literals, greedy repetitions of one-character classes and capture groups
  (\<open>FindStringSubmatch\<close>), and \<open>ReplaceAllString\<close>, which expands \<open>$name\<close> references in the
  replacement. The second half specialises them to the expressions \<open>key.*\<close> with which the
  operator reads and rewrites one setting of a fluentd configuration file, and shows that such a
  replacement works line by line.
\<close>

subsection \<open>Expressions and their matches\<close>

datatype re =
    Lit string
  | Many "char \<Rightarrow> bool"   \<comment> \<open>\<open>[class]*\<close>, greedy\<close>
  | Many1 "char \<Rightarrow> bool"  \<comment> \<open>\<open>[class]+\<close>, greedy\<close>
  | Cat re re
  | Group re             \<comment> \<open>\<open>(re)\<close>\<close>

text \<open>
  All ways in which an expression matches a prefix of a string, in the order of preference of
  a backtracking search (longest repetition first); each with the captured groups and the rest.
\<close>

fun alts :: "re \<Rightarrow> string \<Rightarrow> (string list \<times> string) list" where
  "alts (Lit l) s = (if take (length l) s = l then [([], drop (length l) s)] else [])"
| "alts (Many p) [] = [([], [])]"
| "alts (Many p) (c # cs) = (if p c then alts (Many p) cs @ [([], c # cs)] else [([], c # cs)])"
| "alts (Many1 p) [] = []"
| "alts (Many1 p) (c # cs) = (if p c then alts (Many p) cs else [])"
| "alts (Cat a b) s =
     concat (map (\<lambda>(g, r). map (\<lambda>(h, r'). (g @ h, r')) (alts b r)) (alts a s))"
| "alts (Group a) s = map (\<lambda>(g, r). (take (length s - length r) s # g, r)) (alts a s)"

definition match_here :: "re \<Rightarrow> string \<Rightarrow> (string \<times> string list \<times> string) option" where
  "match_here r s = (case alts r s of [] \<Rightarrow> None
     | (g, rest) # _ \<Rightarrow> Some (take (length s - length rest) s, g, rest))"

text \<open>The leftmost match: the text before it, the match, its groups, and the text after it.\<close>

fun find_match :: "re \<Rightarrow> string \<Rightarrow> (string \<times> string \<times> string list \<times> string) option" where
  "find_match r s =
     (case match_here r s of
        Some (m, g, rest) \<Rightarrow> Some ([], m, g, rest)
      | None \<Rightarrow>
          (case s of [] \<Rightarrow> None
           | c # cs \<Rightarrow> (case find_match r cs of None \<Rightarrow> None
                        | Some (pre, m, g, rest) \<Rightarrow> Some (c # pre, m, g, rest))))"

declare find_match.simps [simp del]

text \<open>\<open>FindStringSubmatch\<close>: the match and its groups; the empty list stands for nil.\<close>

definition FindStringSubmatch :: "re \<Rightarrow> string \<Rightarrow> string list" where
  "FindStringSubmatch r s = (case find_match r s of None \<Rightarrow> [] | Some (_, m, g, _) \<Rightarrow> m # g)"

lemma alts_suffix: "(g, rest) \<in> set (alts r s) \<Longrightarrow> suffix rest s"
proof (induction r s arbitrary: g rest rule: alts.induct)
  case (1 l s)
  then show ?case by (auto simp: suffix_drop split: if_splits)
next
  case (6 a b s)
  then show ?case by (fastforce intro: suffix_order.trans)
qed (auto split: if_splits simp: suffix_ConsI)

lemma match_here_SomeD: "match_here r s = Some (m, g, rest) \<Longrightarrow> s = m @ rest"
proof -
  assume h: "match_here r s = Some (m, g, rest)"
  then have "(g, rest) \<in> set (alts r s)" and m: "m = take (length s - length rest) s"
    by (auto simp: match_here_def split: list.splits prod.splits)
  then have "suffix rest s" by (blast dest: alts_suffix)
  then show ?thesis unfolding m by (auto simp: suffix_def)
qed

lemma find_match_SomeD: "find_match r s = Some (pre, m, g, rest) \<Longrightarrow> s = pre @ m @ rest"
proof (induction r s arbitrary: pre rule: find_match.induct)
  case (1 r s)
  show ?case
  proof (cases "match_here r s")
    case None
    with "1.prems" obtain c cs pre' where "s = c # cs" "find_match r cs = Some (pre', m, g, rest)"
      "pre = c # pre'"
      by (subst (asm) find_match.simps) (auto split: list.splits option.splits)
    with "1.IH"[OF None] show ?thesis by simp
  next
    case (Some x)
    with "1.prems" show ?thesis
      by (subst (asm) find_match.simps) (auto dest: match_here_SomeD split: prod.splits)
  qed
qed

subsection \<open>Replacement\<close>

definition word_char :: "char \<Rightarrow> bool" where
  "word_char c \<longleftrightarrow>
     c \<in> set ''_0123456789abcdefghijklmnopqrstuvwxyzABCDEFGHIJKLMNOPQRSTUVWXYZ''"

definition digit :: "char \<Rightarrow> bool" where
  "digit c \<longleftrightarrow> CHR ''0'' \<le> c \<and> c \<le> CHR ''9''"

text \<open>
  The variable after a dollar sign: \<open>name\<close> as long as possible, or \<open>{name}\<close>. (Go also accepts
  letters beyond ASCII in a name; here they end it.)
\<close>

definition extract_var :: "string \<Rightarrow> (string \<times> string) option" where
  "extract_var s =
     (let brace = (s \<noteq> [] \<and> hd s = CHR ''{'');
          s' = (if brace then tl s else s);
          name = takeWhile word_char s';
          rest = dropWhile word_char s'
      in if name = [] then None
         else if brace then (if rest \<noteq> [] \<and> hd rest = CHR ''}'' then Some (name, tl rest) else None)
         else Some (name, rest))"

definition read_index :: "string \<Rightarrow> nat option" where
  "read_index name =
     (if list_all digit name \<and> (length name = 1 \<or> (name \<noteq> [] \<and> hd name \<noteq> CHR ''0''))
      then Some (foldl (\<lambda>n c. 10 * n + (of_char c - 48)) 0 name) else None)"

text \<open>The value of a variable: the match is number 0; no group of the operator has a name.\<close>

definition submatch :: "string \<Rightarrow> string list \<Rightarrow> string \<Rightarrow> string" where
  "submatch m g name =
     (case read_index name of None \<Rightarrow> []
      | Some n \<Rightarrow> if n < Suc (length g) then (m # g) ! n else [])"

lemma extract_var_length: "extract_var s = Some (name, rest) \<Longrightarrow> length rest < length s"
proof -
  assume h: "extract_var s = Some (name, rest)"
  have shorter: "length (dropWhile word_char x) < length x" if "takeWhile word_char x \<noteq> []" for x
    using that by (metis add_less_cancel_right length_append length_greater_0_conv
        takeWhile_dropWhile_id add.commute less_add_same_cancel1)
  show ?thesis
    using h shorter[of s] shorter[of "tl s"]
    by (auto simp: extract_var_def Let_def split: if_splits) 
qed

function expand :: "string \<Rightarrow> string list \<Rightarrow> string \<Rightarrow> string" where
  "expand m g [] = []"
| "expand m g (c # cs) =
     (if c \<noteq> CHR ''$'' then c # expand m g cs
      else if cs \<noteq> [] \<and> hd cs = CHR ''$'' then CHR ''$'' # expand m g (tl cs)
      else case extract_var cs of None \<Rightarrow> CHR ''$'' # expand m g cs
           | Some (name, rest) \<Rightarrow> submatch m g name @ expand m g rest)"
  by pat_completeness auto
termination
  by (relation "measure (\<lambda>(m, g, t). length t)") (auto dest: extract_var_length)

lemma expand_plain: "CHR ''$'' \<notin> set t \<Longrightarrow> expand m g t = t"
  by (induction t) auto

text \<open>
  \<open>ReplaceAllString(s, t)\<close>. None of the operator's expressions matches the empty string; at an
  empty match this function stops, where Go would step over one character.
\<close>

function ReplaceAllString :: "re \<Rightarrow> string \<Rightarrow> string \<Rightarrow> string" where
  "ReplaceAllString r s t =
     (case find_match r s of None \<Rightarrow> s
      | Some (pre, m, g, rest) \<Rightarrow>
          if m = [] then s else pre @ expand m g t @ ReplaceAllString r rest t)"
  by pat_completeness auto
termination
  by (relation "measure (\<lambda>(r, s, t). length s)") (auto dest: find_match_SomeD)

declare ReplaceAllString.simps [simp del]

subsection \<open>Expressions \<open>key.*\<close>\<close>

text \<open>\<open>regexp.MustCompile(key + `.*`)\<close> for a key without special characters.\<close>

definition key_re :: "string \<Rightarrow> re" where
  "key_re k = Cat (Lit k) (Many (\<lambda>c. c \<noteq> nl))"

lemma alts_Many: "\<exists>xs. alts (Many p) s = ([], dropWhile p s) # xs"
proof (induction s)
  case (Cons c s)
  then obtain xs where "alts (Many p) s = ([], dropWhile p s) # xs" by blast
  then show ?case by simp
qed simp

lemma match_here_key:
  "match_here (key_re k) s =
     (if take (length k) s = k
      then Some (k @ takeWhile (\<lambda>c. c \<noteq> nl) (drop (length k) s), [],
                 dropWhile (\<lambda>c. c \<noteq> nl) (drop (length k) s)) else None)"
proof (cases "take (length k) s = k")
  case True
  define d where "d = drop (length k) s"
  have s: "s = k @ d" using True by (metis append_take_drop_id d_def)
  obtain xs where "alts (Many (\<lambda>c. c \<noteq> nl)) d = ([], dropWhile (\<lambda>c. c \<noteq> nl) d) # xs"
    using alts_Many by blast
  then have "match_here (key_re k) s =
      Some (take (length s - length (dropWhile (\<lambda>c. c \<noteq> nl) d)) s, [], dropWhile (\<lambda>c. c \<noteq> nl) d)"
    using True by (simp add: match_here_def key_re_def d_def[symmetric])
  moreover have "take (length s - length (dropWhile (\<lambda>c. c \<noteq> nl) d)) s = k @ takeWhile (\<lambda>c. c \<noteq> nl) d"
  proof -
    have "s = (k @ takeWhile (\<lambda>c. c \<noteq> nl) d) @ dropWhile (\<lambda>c. c \<noteq> nl) d" by (simp add: s)
    then show ?thesis by (metis append_eq_conv_conj diff_add_inverse2 length_append)
  qed
  ultimately show ?thesis using True by (simp add: d_def)
next
  case False
  then show ?thesis by (simp add: match_here_def key_re_def)
qed

lemma find_match_key:
  "find_match (key_re k) s =
     (case cut k s of None \<Rightarrow> None
      | Some (a, b) \<Rightarrow> Some (a, k @ takeWhile (\<lambda>c. c \<noteq> nl) b, [], dropWhile (\<lambda>c. c \<noteq> nl) b))"
proof (induction s)
  case Nil
  then show ?case
    by (subst find_match.simps, subst cut.simps) (simp add: match_here_key)
next
  case (Cons c s)
  show ?case
  proof (cases "take (length k) (c # s) = k")
    case True
    then show ?thesis
      by (subst find_match.simps, subst cut.simps) (simp only: match_here_key if_True option.case prod.case)
  next
    case False
    then show ?thesis
      by (subst find_match.simps, subst cut.simps)
         (simp only: match_here_key if_False option.case list.case Cons.IH, simp split: option.splits)
  qed
qed

text \<open>A key that holds no line break is found inside one line.\<close>

lemma cut_line_break:
  assumes "nl \<notin> set k" "nl \<notin> set l" "k \<noteq> []"
  shows "cut k (l @ nl # s) =
    (case cut k l of Some (a, b) \<Rightarrow> Some (a, b @ nl # s)
     | None \<Rightarrow> (case cut k s of None \<Rightarrow> None | Some (a, b) \<Rightarrow> Some (l @ nl # a, b)))"
  using assms(2)
proof (induction l)
  case Nil
  have "take (length k) (nl # s) \<noteq> k"
    using assms(1,3) by (cases k) auto
  moreover have "cut k [] = None" using assms(3) by (subst cut.simps) simp
  ultimately show ?case
    by (subst cut.simps) (simp split: option.splits)
next
  case (Cons c l)
  have iff: "take (length k) ((c # l) @ nl # s) = k \<longleftrightarrow> take (length k) (c # l) = k"
  proof (cases "length k \<le> length (c # l)")
    case True
    then have "take (length k) ((c # l) @ nl # s) = take (length k) (c # l)"
      by (simp only: take_append) simp
    then show ?thesis by simp
  next
    case False
    then have "nl \<in> set (take (length k) ((c # l) @ nl # s))"
      using assms(3) by (auto simp add: take_Cons' take_append)
    moreover have "take (length k) (c # l) = c # l" using False by simp
    ultimately show ?thesis using assms(1) False by (metis le_refl take_all)
  qed
  show ?case
  proof (cases "take (length k) (c # l) = k")
    case True
    then have len: "length k \<le> length (c # l)" by (metis length_take min.absorb_iff1 min.commute)
    from True iff have "take (length k) ((c # l) @ nl # s) = k" by blast
    then have "cut k ((c # l) @ nl # s) = Some ([], drop (length k) ((c # l) @ nl # s))"
      by (rule cut_here)
    moreover have "drop (length k) ((c # l) @ nl # s) = drop (length k) (c # l) @ nl # s"
      using len by (simp only: drop_append) simp
    ultimately show ?thesis using cut_here[OF True] by simp
  next
    case False
    with iff have "take (length k) ((c # l) @ nl # s) \<noteq> k" by blast
    then have "cut k ((c # l) @ nl # s) =
        (case cut k (l @ nl # s) of None \<Rightarrow> None | Some (a, b) \<Rightarrow> Some (c # a, b))"
      by (subst cut.simps) simp
    moreover have "cut k (c # l) = (case cut k l of None \<Rightarrow> None | Some (a, b) \<Rightarrow> Some (c # a, b))"
      using False by (subst cut.simps) simp
    ultimately show ?thesis using Cons by (simp split: option.splits)
  qed
qed

lemma key_in_line:
  assumes "cut k l = Some (a, b)" "nl \<notin> set l"
  shows "nl \<notin> set k" "nl \<notin> set a" "nl \<notin> set b"
  using assms by (auto dest: cut_SomeD)

text \<open>What one replacement \<open>key.*\<close> does to a line, and to a text of several lines.\<close>

definition set_line :: "string \<Rightarrow> string \<Rightarrow> string \<Rightarrow> string" where
  "set_line k t l = (case cut k l of None \<Rightarrow> l | Some (a, b) \<Rightarrow> a @ t)"

definition get_line :: "string \<Rightarrow> string \<Rightarrow> string option" where
  "get_line k l = map_option snd (cut k l)"

fun first_field :: "string \<Rightarrow> string list \<Rightarrow> string option" where
  "first_field k [] = None"
| "first_field k (l # ls) = (case get_line k l of None \<Rightarrow> first_field k ls | Some v \<Rightarrow> Some v)"

lemma cut_nl_Cons:
  "nl \<notin> set k \<Longrightarrow> k \<noteq> [] \<Longrightarrow>
     cut k (nl # s) = (case cut k s of None \<Rightarrow> None | Some (a, b) \<Rightarrow> Some (nl # a, b))"
  using cut_line_break[of k "[]" s] by (simp add: cut_Nil split: option.splits)

lemma replace_key_nl:
  assumes "nl \<notin> set k" "k \<noteq> []"
  shows "ReplaceAllString (key_re k) (nl # s) t = nl # ReplaceAllString (key_re k) s t"
  using assms
  by (subst ReplaceAllString.simps, subst (2) ReplaceAllString.simps)
     (simp add: find_match_key cut_nl_Cons split: option.splits)

lemma replace_key_single:
  assumes "nl \<notin> set k" "k \<noteq> []" "CHR ''$'' \<notin> set t" "nl \<notin> set l"
  shows "ReplaceAllString (key_re k) l t = set_line k t l"
proof -
  have "ReplaceAllString (key_re k) [] t = []"
    using assms(2) by (subst ReplaceAllString.simps) (simp add: find_match_key cut_Nil)
  then show ?thesis
    using assms key_in_line[of k l]
    by (subst ReplaceAllString.simps)
       (auto simp: find_match_key set_line_def expand_plain dropWhile_absent split: option.splits)
qed

lemma replace_key_break:
  assumes "nl \<notin> set k" "k \<noteq> []" "CHR ''$'' \<notin> set t" "nl \<notin> set l"
  shows "ReplaceAllString (key_re k) (l @ nl # s) t =
     set_line k t l @ nl # ReplaceAllString (key_re k) s t"
proof (cases "cut k l")
  case None
  then show ?thesis
    using assms by (subst ReplaceAllString.simps, subst (2) ReplaceAllString.simps)
      (simp add: find_match_key cut_line_break set_line_def split: option.splits)
next
  case (Some p)
  obtain a b where p: "p = (a, b)" by (cases p)
  with Some assms key_in_line[of k l a b] show ?thesis
    by (subst ReplaceAllString.simps)
       (simp add: find_match_key cut_line_break set_line_def expand_plain dropWhile_until replace_key_nl)
qed

text \<open>The replacement with a plain text is the line-by-line one.\<close>

lemma replace_key_lines:
  assumes "nl \<notin> set k" "k \<noteq> []" "CHR ''$'' \<notin> set t"
  shows "ReplaceAllString (key_re k) s t = join_lines (map (set_line k t) (split_lines s))"
proof (induction s rule: lines_induct)
  case (Line l)
  then show ?case using assms by (simp add: replace_key_single split_lines_single)
next
  case (Break l s)
  then show ?case
    using assms by (simp add: replace_key_break split_lines_Cons Join_Cons Split_nonempty)
qed

lemma find_key_single:
  assumes "nl \<notin> set l"
  shows "FindStringSubmatch (key_re k) l = (case get_line k l of None \<Rightarrow> [] | Some b \<Rightarrow> [k @ b])"
  using assms key_in_line[of k l]
  by (auto simp: FindStringSubmatch_def find_match_key get_line_def takeWhile_absent split: option.splits)

lemma find_key_break:
  assumes "nl \<notin> set k" "k \<noteq> []" "nl \<notin> set l"
  shows "FindStringSubmatch (key_re k) (l @ nl # s) =
     (case get_line k l of None \<Rightarrow> FindStringSubmatch (key_re k) s | Some b \<Rightarrow> [k @ b])"
  using assms key_in_line[of k l]
  by (auto simp: FindStringSubmatch_def find_match_key get_line_def cut_line_break takeWhile_until
      split: option.splits)

lemma find_key_lines:
  assumes "nl \<notin> set k" "k \<noteq> []"
  shows "FindStringSubmatch (key_re k) s =
     (case first_field k (split_lines s) of None \<Rightarrow> [] | Some b \<Rightarrow> [k @ b])"
proof (induction s rule: lines_induct)
  case (Line l)
  then show ?case using assms
    by (simp add: find_key_single split_lines_single split: option.splits)
next
  case (Break l s)
  then show ?case
    using assms by (simp add: find_key_break split_lines_Cons split: option.splits)
qed

end
