(* ===== verification/KubeTypes.thy ===== *)
theory KubeTypes
  imports Prelude
begin

text \<open>
  The Kubernetes and cert-manager API types that the operator builds and compares, as records.
  A record has the fields that the operator's code reads or writes; every other field of the Go
  struct is covered by one last field \<open>*_other\<close> (empty when all of them have their zero value),
  so that assigning a whole struct and comparing structs with \<open>reflect.DeepEqual\<close> mean in the
  model what they mean in the code. A pointer is an \<open>option\<close>, a slice or map may be nil, and the
  \<open>zero_*\<close> constants are the zero values from which Go's composite literals start.
\<close>

type_synonym other = string

type_synonym int32 = "32 word"

type_synonym labels = "(string, string) gomap"

subsection \<open>Object metadata\<close>

record owner_reference =
  or_Kind :: string
  or_Name :: string
  or_Namespace :: string

record objmeta =
  m_Name :: string
  m_Namespace :: string
  m_Labels :: labels
  m_Annotations :: labels
  m_OwnerReferences :: "owner_reference list"
  m_ResourceVersion :: string
  m_other :: other

definition zero_meta :: objmeta where
  "zero_meta = \<lparr>m_Name = [], m_Namespace = [], m_Labels = None, m_Annotations = None,
     m_OwnerReferences = [], m_ResourceVersion = [], m_other = []\<rparr>"

text \<open>\<open>types.NamespacedName\<close>, the key of every request.\<close>

datatype nsname = NamespacedName (key_ns: string) (key_name: string)

definition meta_key :: "objmeta \<Rightarrow> nsname" where
  "meta_key m = NamespacedName (m_Namespace m) (m_Name m)"

instantiation nsname :: linorder
begin

definition less_eq_nsname :: "nsname \<Rightarrow> nsname \<Rightarrow> bool" where
  "less_eq_nsname a b \<longleftrightarrow> key_ns a < key_ns b \<or> key_ns a = key_ns b \<and> key_name a \<le> key_name b"

definition less_nsname :: "nsname \<Rightarrow> nsname \<Rightarrow> bool" where
  "less_nsname a b \<longleftrightarrow> key_ns a < key_ns b \<or> key_ns a = key_ns b \<and> key_name a < key_name b"

instance
  by standard (auto simp: less_eq_nsname_def less_nsname_def nsname.expand)

end

subsection \<open>Resource quantities\<close>

text \<open>
  \<open>resource.Quantity\<close> belongs to \<open>k8s.io/apimachinery\<close>: a quantity is kept as the call that made
  it, and the package's functions on quantities are a parameter of the definitions that use them.
\<close>

datatype qformat = DecimalSI | BinarySI

datatype quantity =
    NewMilliQuantity int qformat
  | NewQuantity int qformat
  | ParsedQuantity string
  | ZeroQuantity qformat

datatype resource_name = ResourceCPU | ResourceMemory | OtherResource string

type_synonym resource_list = "(resource_name, quantity) gomap"

record quantity_pkg =
  q_IsZero :: "quantity \<Rightarrow> bool"
  q_Equal :: "quantity \<Rightarrow> quantity \<Rightarrow> bool"
  q_Cpu :: "resource_list \<Rightarrow> quantity"     \<comment> \<open>\<open>ResourceList.Cpu()\<close>\<close>
  q_Memory :: "resource_list \<Rightarrow> quantity"  \<comment> \<open>\<open>ResourceList.Memory()\<close>\<close>

record resource_requirements =
  rr_Limits :: resource_list
  rr_Requests :: resource_list

subsection \<open>Pods\<close>

record key_selector =
  ks_Name :: string
  ks_Key :: string
  ks_other :: other

record env_var =
  ev_Name :: string
  ev_Value :: string
  ev_ConfigMapKeyRef :: "key_selector option"
  ev_other :: other

record container_port =
  cp_ContainerPort :: int32
  cp_Protocol :: string
  cp_other :: other

record volume_mount =
  vm_Name :: string
  vm_ReadOnly :: bool
  vm_MountPath :: string
  vm_SubPath :: string
  vm_other :: other

definition zero_mount :: volume_mount where
  "zero_mount = \<lparr>vm_Name = [], vm_ReadOnly = False, vm_MountPath = [], vm_SubPath = [], vm_other = []\<rparr>"

record security_context =
  sc_AllowPrivilegeEscalation :: "bool option"
  sc_Privileged :: "bool option"
  sc_ReadOnlyRootFilesystem :: "bool option"
  sc_RunAsNonRoot :: "bool option"
  sc_CapabilitiesDrop :: "string slice option"
  sc_other :: other

record probe =
  pr_ExecCommand :: "string slice"
  pr_InitialDelaySeconds :: int32
  pr_TimeoutSeconds :: int32
  pr_PeriodSeconds :: int32
  pr_SuccessThreshold :: int32
  pr_FailureThreshold :: int32
  pr_other :: other

record container =
  c_Name :: string
  c_Image :: string
  c_ImagePullPolicy :: string
  c_Command :: "string slice"
  c_Args :: "string slice"
  c_Env :: "env_var slice"
  c_Ports :: "container_port slice"
  c_VolumeMounts :: "volume_mount slice"
  c_LivenessProbe :: "probe option"
  c_ReadinessProbe :: "probe option"
  c_SecurityContext :: "security_context option"
  c_Resources :: resource_requirements
  c_other :: other

definition zero_container :: container where
  "zero_container = \<lparr>c_Name = [], c_Image = [], c_ImagePullPolicy = [], c_Command = None,
     c_Args = None, c_Env = None, c_Ports = None, c_VolumeMounts = None, c_LivenessProbe = None,
     c_ReadinessProbe = None, c_SecurityContext = None,
     c_Resources = \<lparr>rr_Limits = None, rr_Requests = None\<rparr>, c_other = []\<rparr>"

record config_map_volume =
  cmv_Name :: string
  cmv_Items :: "(string \<times> string) slice"  \<comment> \<open>\<open>KeyToPath\<close>: key and path\<close>

datatype volume_source =
    VConfigMap config_map_volume
  | VEmptyDir
  | VSecret string  \<comment> \<open>\<open>SecretName\<close>\<close>

record volume =
  v_Name :: string
  v_Source :: volume_source

record toleration =
  t_Key :: string
  t_Operator :: string
  t_Effect :: string

record match_expression =
  me_Key :: string
  me_Operator :: string
  me_Values :: "string slice"

record pod_affinity_term =
  pat_MatchExpressions :: "match_expression slice"
  pat_TopologyKey :: string

record affinity =
  af_NodeSelectorTerms :: "match_expression slice slice option"
  af_PodAntiAffinity :: "pod_affinity_term slice option"

record host_alias =
  ha_IP :: string
  ha_Hostnames :: "string slice"

record pod_spec =
  ps_ServiceAccountName :: string
  ps_TerminationGracePeriodSeconds :: "int option"
  ps_RestartPolicy :: string
  ps_Affinity :: "affinity option"
  ps_Tolerations :: "toleration slice"
  ps_Volumes :: "volume slice"
  ps_Containers :: "container slice"
  ps_HostAliases :: "host_alias slice"
  ps_other :: other

definition zero_pod_spec :: pod_spec where
  "zero_pod_spec = \<lparr>ps_ServiceAccountName = [], ps_TerminationGracePeriodSeconds = None,
     ps_RestartPolicy = [], ps_Affinity = None, ps_Tolerations = None, ps_Volumes = None,
     ps_Containers = None, ps_HostAliases = None, ps_other = []\<rparr>"

record pod_template =
  pt_Meta :: objmeta
  pt_Spec :: pod_spec

record pod =
  pod_Meta :: objmeta

subsection \<open>Workloads\<close>

record deployment_spec =
  ds_MatchLabels :: labels
  ds_Replicas :: "int32 option"
  ds_Template :: pod_template
  ds_other :: other

record deployment =
  d_Meta :: objmeta
  d_Spec :: deployment_spec

record daemonset_spec =
  dss_MatchLabels :: labels
  dss_UpdateStrategyType :: string
  dss_MaxUnavailable :: "int32 option"
  dss_MinReadySeconds :: int32
  dss_Template :: pod_template
  dss_other :: other

record daemonset =
  dset_Meta :: objmeta
  dset_Spec :: daemonset_spec

record job =
  j_Meta :: objmeta
  j_Template :: pod_template
  j_other :: other

subsection \<open>Configuration, network and identity objects\<close>

record configmap =
  cm_Meta :: objmeta
  cm_Data :: "(string, string) gomap"

record secret =
  se_Meta :: objmeta
  se_Data :: "(string, string) gomap"

record service_port =
  sp_Name :: string
  sp_Protocol :: string
  sp_Port :: int32
  sp_TargetPort :: int32  \<comment> \<open>an \<open>IntOrString\<close> of type \<open>Int\<close>; any other goes to \<open>sp_other\<close>\<close>
  sp_other :: other

record service =
  sv_Meta :: objmeta
  sv_Type :: string
  sv_Ports :: "service_port slice"
  sv_Selector :: labels
  sv_other :: other

record service_account =
  sa_Meta :: objmeta

record role =
  ro_Meta :: objmeta
  ro_Rules :: "string slice"

record role_binding =
  rb_Meta :: objmeta
  rb_Subjects :: "string slice"
  rb_RoleRef :: string

subsection \<open>cert-manager objects\<close>

record issuer_spec =
  is_SelfSigned :: bool            \<comment> \<open>a non-nil \<open>SelfSignedIssuer\<close>\<close>
  is_CA :: "string option"         \<comment> \<open>\<open>CAIssuer\<close> and its \<open>SecretName\<close>\<close>
  is_other :: other

record issuer =
  i_Meta :: objmeta
  i_Spec :: issuer_spec

record certificate_spec =
  cs_CommonName :: string
  cs_SecretName :: string
  cs_DNSNames :: "string slice"
  cs_IssuerName :: string
  cs_IssuerKind :: string
  cs_IsCA :: bool
  cs_Duration :: "int option"      \<comment> \<open>in nanoseconds, as \<open>time.Duration\<close>\<close>
  cs_other :: other

record certificate =
  ct_Meta :: objmeta
  ct_Spec :: certificate_spec

end
