(* ===== verification/Util.thy ===== *)
theory Util
  imports KubeTypes
begin

text \<open>
  controllers/constant/constants.go, version/version.go and controllers/util/utils.go: the names
  shared by all components, image references, the labels and annotations put on every object,
  the operator's namespace, and small helpers on string slices and maps.
\<close>

subsection \<open>Constants (controllers/constant/constants.go)\<close>

definition AuditLoggingComponentName :: string where
  "AuditLoggingComponentName = ''common-audit-logging''"
definition AuditLoggingReleaseName :: string where
  "AuditLoggingReleaseName = ''common-audit-logging''"
definition AuditLoggingCrType :: string where
  "AuditLoggingCrType = ''auditlogging_cr''"
definition DefaultPCImageName :: string where
  "DefaultPCImageName = ''audit-policy-controller''"
definition ProductName :: string where
  "ProductName = ''IBM Cloud Platform Common Services''"
definition ProductID :: string where
  "ProductID = ''068a62892a1e4db39641342e592daa25''"
definition ProductMetric :: string where
  "ProductMetric = ''FREE''"
definition FluentdName :: string where
  "FluentdName = ''fluentd''"
definition DefaultImageRegistry :: string where
  "DefaultImageRegistry = ''quay.io/opencloudio/''"
definition DefaultFluentdImageName :: string where
  "DefaultFluentdImageName = ''fluentd''"
definition DefaultFluentdImageTag :: string where
  "DefaultFluentdImageTag = ''v1.6.2-bedrock-3''"
definition OperatorNamespaceKey :: string where
  "OperatorNamespaceKey = ''POD_NAMESPACE''"
definition DefaultJobImageName :: string where
  "DefaultJobImageName = ''audit-garbage-collector''"
definition DefaultJobImageTag :: string where
  "DefaultJobImageTag = ''1.0.1''"
definition DefaultPCImageTag :: string where
  "DefaultPCImageTag = ''3.5.4''"
definition AuditTypeLabel :: string where
  "AuditTypeLabel = ''operator.ibm.com/managedBy-audit''"
definition DefaultEnablePolicyController :: string where
  "DefaultEnablePolicyController = ''true''"

definition opversion :: string where
  "opversion = ''3.25.13''"  \<comment> \<open>version/version.go\<close>

definition DefaultStatusForCR :: "string slice" where
  "DefaultStatusForCR = Some [''none'']"

text \<open>\<open>os.LookupEnv\<close> and \<open>os.Getenv\<close>: the process environment is a parameter.\<close>

type_synonym environ = "string \<Rightarrow> string option"

definition Getenv :: "environ \<Rightarrow> string \<Rightarrow> string" where
  "Getenv env k = (case env k of None \<Rightarrow> [] | Some v \<Rightarrow> v)"

subsection \<open>utils.go\<close>

definition EqualAnnotations :: "labels \<Rightarrow> labels \<Rightarrow> bool" where
  "EqualAnnotations found expected \<longleftrightarrow> found = expected"

definition GetImageID :: "environ \<Rightarrow> string \<Rightarrow> string \<Rightarrow> string \<Rightarrow> string" where
  "GetImageID env imageRegistry imageName envVarName =
     (let imageReg =
            (if imageRegistry \<noteq> []
             then (if last imageRegistry \<noteq> CHR ''/'' then imageRegistry @ ''/'' else imageRegistry)
             else DefaultImageRegistry);
          imageTagOrSHA = Getenv env envVarName
      in if length imageTagOrSHA > 0
         then (if HasPrefix imageTagOrSHA ''sha256:''
               then imageReg @ imageName @ ''@'' @ imageTagOrSHA
               else imageReg @ imageName @ '':'' @ imageTagOrSHA)
         else let tag = (if imageName = DefaultFluentdImageName then DefaultFluentdImageTag
                         else if imageName = DefaultJobImageName then DefaultJobImageTag
                         else if imageName = DefaultPCImageName then DefaultPCImageTag
                         else ''latest'')
              in imageReg @ imageName @ '':'' @ tag)"

fun GetPodNames :: "pod list \<Rightarrow> string slice" where
  "GetPodNames pods = foldl (\<lambda>podNames pod. append_slice podNames (m_Name (pod_Meta pod))) None pods"

fun ContainsString :: "string list \<Rightarrow> string \<Rightarrow> bool" where
  "ContainsString [] s = False"
| "ContainsString (item # items) s = (if item = s then True else ContainsString items s)"

definition RemoveString :: "string list \<Rightarrow> string \<Rightarrow> string slice" where
  "RemoveString items s =
     foldl (\<lambda>result item. if item = s then result else append_slice result item) None items"

definition LabelsForMetadata :: "string \<Rightarrow> labels" where
  "LabelsForMetadata name = maplit
     [(''app'', name), (''app.kubernetes.io/name'', name),
      (''app.kubernetes.io/component'', AuditLoggingComponentName),
      (''app.kubernetes.io/managed-by'', ''operator''),
      (''app.kubernetes.io/instance'', AuditLoggingReleaseName),
      (''release'', AuditLoggingReleaseName), (AuditTypeLabel, name)]"

definition LabelsForSelector :: "string \<Rightarrow> string \<Rightarrow> labels" where
  "LabelsForSelector name crName = maplit
     [(''app'', name), (''component'', AuditLoggingComponentName), (AuditLoggingCrType, crName)]"

text \<open>
  The loop that copies one map's entries into another: the order of a map's entries does not
  matter, since each key is written once.
\<close>

definition copy_into :: "(string, string) fmap \<Rightarrow> labels \<Rightarrow> (string, string) fmap" where
  "copy_into target source = (case source of None \<Rightarrow> target | Some s \<Rightarrow> target ++\<^sub>f s)"

definition LabelsForPodMetadata :: "string \<Rightarrow> string \<Rightarrow> labels" where
  "LabelsForPodMetadata deploymentName crName =
     (let podLabels = LabelsForMetadata deploymentName;
          selectorLabels = LabelsForSelector deploymentName crName
      in map_option (\<lambda>target. copy_into target selectorLabels) podLabels)"

definition AnnotationsForMetering :: labels where
  "AnnotationsForMetering =
     (let scc = ''restricted'';
          annotations = fmap_of_list
            [(''productName'', ProductName), (''productID'', ProductID), (''productMetric'', ProductMetric),
             (''clusterhealth.ibm.com/dependencies'', ''cert-manager'')]
      in Some (fmupd ''openshift.io/scc'' scc annotations))"

definition GetCSNamespace :: "environ \<Rightarrow> string + string" where
  "GetCSNamespace env =
     (case env OperatorNamespaceKey of
        None \<Rightarrow> Inl (''missing ENV variable: '' @ OperatorNamespaceKey)
      | Some csNamespace \<Rightarrow> Inr csNamespace)"

definition CopyLables :: "labels \<Rightarrow> labels" where
  "CopyLables origMap =
     (let certManagerLabel = ''certmanager.k8s.io/time-restarted'';
          targetMap = copy_into fmempty origMap
      in Some (fmdrop certManagerLabel targetMap))"

subsection \<open>Lemmas\<close>

lemma foldl_append_slice:
  "foldl (\<lambda>r x. append_slice r (f x)) r0 xs = (if xs = [] then r0 else Some (elems r0 @ map f xs))"
  by (induction xs arbitrary: r0) (auto simp: append_slice_def)

lemma GetPodNames_eq:
  "GetPodNames pods = (if pods = [] then None else Some (map (m_Name \<circ> pod_Meta) pods))"
  by (simp add: foldl_append_slice comp_def)

declare GetPodNames.simps [simp del]

lemma ContainsString_iff [simp]: "ContainsString xs s \<longleftrightarrow> s \<in> set xs"
  by (induction xs) auto

lemma RemoveString_foldl:
  "foldl (\<lambda>r x. if x = s then r else append_slice r x) r0 xs =
     (if filter (\<lambda>x. x \<noteq> s) xs = [] then r0 else Some (elems r0 @ filter (\<lambda>x. x \<noteq> s) xs))"
  by (induction xs arbitrary: r0) (auto simp: append_slice_def)

lemma RemoveString_eq:
  "RemoveString xs s =
     (if filter (\<lambda>x. x \<noteq> s) xs = [] then None else Some (filter (\<lambda>x. x \<noteq> s) xs))"
  by (simp add: RemoveString_def RemoveString_foldl)

lemma elems_RemoveString: "elems (RemoveString xs s) = filter (\<lambda>x. x \<noteq> s) xs"
  by (simp add: RemoveString_eq)

lemmas constant_defs =
  AuditLoggingComponentName_def AuditLoggingReleaseName_def AuditLoggingCrType_def
  AuditTypeLabel_def FluentdName_def

definition label_le :: "labels \<Rightarrow> labels \<Rightarrow> bool" where
  "label_le sel ls \<longleftrightarrow> (\<forall>k v. (case sel of None \<Rightarrow> None | Some m \<Rightarrow> fmlookup m k) = Some v \<longrightarrow>
      (case ls of None \<Rightarrow> None | Some m \<Rightarrow> fmlookup m k) = Some v)"

lemma selector_le_pod_labels: "label_le (LabelsForSelector d c) (LabelsForPodMetadata d c)"
  by (auto simp: label_le_def LabelsForSelector_def LabelsForPodMetadata_def LabelsForMetadata_def
      copy_into_def split: option.splits)

lemma CopyLables_lookup:
  "CopyLables m = Some f \<Longrightarrow>
     fmlookup f k = (if k = ''certmanager.k8s.io/time-restarted'' then None
                     else case m of None \<Rightarrow> None | Some g \<Rightarrow> fmlookup g k)"
  by (auto simp: CopyLables_def copy_into_def Let_def split: option.splits)

end
