(* ===== verification/ConfigTemplates.thy ===== *)
theory ConfigTemplates
  imports Regexp Util
begin

text \<open>
  What configmaps_v1.go and configmaps_v1alpha1.go share: the names and keys of the fluentd
  ConfigMaps, the texts of the fluentd configuration files, and \<open>yamlLine\<close>. A text is the list of
  its lines; the YAML decoder (\<open>gopkg.in/yaml.v2\<close>) that turns a document into the file's text is
  a parameter of the builders.
\<close>

subsection \<open>Names and keys\<close>

definition FluentdDaemonSetName :: string where
  "FluentdDaemonSetName = ''audit-logging-fluentd-ds''"
definition EnableAuditLogForwardKey :: string where
  "EnableAuditLogForwardKey = ''ENABLE_AUDIT_LOGGING_FORWARDING''"
definition HTTPIngestURLKey :: string where
  "HTTPIngestURLKey = ''AuditLoggingHttpIngestURL''"
definition SyslogIngestURLKey :: string where
  "SyslogIngestURLKey = ''AuditLoggingSyslogIngestURL''"
definition ConfigName :: string where
  "ConfigName = ''config''"
definition FluentdConfigName :: string where
  "FluentdConfigName = ''main-config''"
definition SourceConfigName :: string where
  "SourceConfigName = ''source-config''"
definition QRadarConfigName :: string where
  "QRadarConfigName = ''remote-syslog-config''"
definition SplunkConfigName :: string where
  "SplunkConfigName = ''splunk-hec-config''"
definition HTTPIngestName :: string where
  "HTTPIngestName = ''http-ingesturl''"
definition FluentdConfigKey :: string where
  "FluentdConfigKey = ''fluent.conf''"
definition SourceConfigKey :: string where
  "SourceConfigKey = ''source.conf''"
definition SplunkConfigKey :: string where
  "SplunkConfigKey = ''splunkHEC.conf''"
definition QRadarConfigKey :: string where
  "QRadarConfigKey = ''remoteSyslog.conf''"
definition httpPath :: string where
  "httpPath = ''/icp-audit.http''"

definition defaultHTTPPort :: int where "defaultHTTPPort = 9880"
definition defaultSyslogPort :: int where "defaultSyslogPort = 5140"

text \<open>The names of the ConfigMaps: \<open>FluentdDaemonSetName + "-" + name\<close>.\<close>

definition cm_name :: "string \<Rightarrow> string" where
  "cm_name name = FluentdDaemonSetName @ ''-'' @ name"

definition FluentdConfigMaps :: "string list" where
  "FluentdConfigMaps =
     [cm_name ConfigName, cm_name SourceConfigName, cm_name SplunkConfigName,
      cm_name QRadarConfigName, cm_name HTTPIngestName]"

lemmas cm_name_defs =
  cm_name_def FluentdDaemonSetName_def ConfigName_def SourceConfigName_def SplunkConfigName_def
  QRadarConfigName_def HTTPIngestName_def

lemma cm_name_inject [simp]: "cm_name a = cm_name b \<longleftrightarrow> a = b"
  by (simp add: cm_name_def)

lemma config_names_distinct [simp]:
  "ConfigName \<noteq> SourceConfigName" "SourceConfigName \<noteq> ConfigName"
  "ConfigName \<noteq> SplunkConfigName" "SplunkConfigName \<noteq> ConfigName"
  "ConfigName \<noteq> QRadarConfigName" "QRadarConfigName \<noteq> ConfigName"
  "ConfigName \<noteq> HTTPIngestName" "HTTPIngestName \<noteq> ConfigName"
  "SourceConfigName \<noteq> SplunkConfigName" "SplunkConfigName \<noteq> SourceConfigName"
  "SourceConfigName \<noteq> QRadarConfigName" "QRadarConfigName \<noteq> SourceConfigName"
  "SourceConfigName \<noteq> HTTPIngestName" "HTTPIngestName \<noteq> SourceConfigName"
  "SplunkConfigName \<noteq> QRadarConfigName" "QRadarConfigName \<noteq> SplunkConfigName"
  "SplunkConfigName \<noteq> HTTPIngestName" "HTTPIngestName \<noteq> SplunkConfigName"
  "QRadarConfigName \<noteq> HTTPIngestName" "HTTPIngestName \<noteq> QRadarConfigName"
  by (simp_all add: cm_name_defs)

subsection \<open>The YAML decoder\<close>

text \<open>
  \<open>yaml.Unmarshal(doc, &d)\<close> for a struct whose only field has the tag \<open>key\<close>: an error, or the
  value of the field.
\<close>

type_synonym yaml_pkg = "string \<Rightarrow> string \<Rightarrow> string + string"

subsection \<open>yamlLine\<close>

definition yamlLine :: "nat \<Rightarrow> string \<Rightarrow> bool \<Rightarrow> string" where
  "yamlLine tabs line newl =
     (let spaces = Repeat ''    '' tabs
      in if \<not> newl then spaces @ line else spaces @ line @ newline)"

subsection \<open>Configuration texts of api/v1\<close>

definition fluentdMainConfigV1Data :: string where
  "fluentdMainConfigV1Data = join_lines
    ['''',
     ''fluent.conf: |-'',
     ''    # Input plugins (Supports Systemd and HTTP)'',
     ''    @include /fluentd/etc/source.conf'',
     ''    # Output plugins (Supports Splunk and Syslog)'']"

definition fluentdOutputConfigV1Data :: string where
  "fluentdOutputConfigV1Data = join_lines
    ['''',
     ''    <match icp-audit icp-audit.** syslog syslog.**>'',
     ''        @type copy'',
     '''']"

definition splunkConfigV1Data1 :: string where
  "splunkConfigV1Data1 = join_lines
    ['''', ''splunkHEC.conf: |-'', ''    <store>'', ''        @type splunk_hec'', '''']"

definition splunkConfigV1Data2 :: string where
  "splunkConfigV1Data2 = join_lines
    ['''',
     ''        ca_file /fluentd/etc/tls/splunkCA.pem'',
     ''        source ${tag}'',
     ''    </store>'']"

definition qRadarConfigV1Data1 :: string where
  "qRadarConfigV1Data1 = join_lines
    ['''', ''remoteSyslog.conf: |-'', ''    <store>'', ''        @type remote_syslog'', '''']"

definition qRadarConfigV1Data2 :: string where
  "qRadarConfigV1Data2 = join_lines
    ['''',
     ''        protocol tcp'',
     ''        ca_file /fluentd/etc/tls/qradar.crt'',
     ''        packet_size 4096'',
     ''        program fluentd'',
     ''        <format>'',
     ''            @type single_value'',
     ''            message_key message'',
     ''        </format>'',
     ''    </store>'']"

definition sourceConfigSyslog :: string where
  "sourceConfigSyslog = join_lines
    ['''',
     ''    <source>'',
     ''        @type syslog'',
     ''        port 5140'',
     ''        bind 0.0.0.0'',
     ''        tag syslog'',
     ''        <transport tls>'',
     ''            ca_path /fluentd/etc/https/ca.crt'',
     ''            cert_path /fluentd/etc/https/tls.crt'',
     ''            private_key_path /fluentd/etc/https/tls.key'',
     ''        </transport>'',
     ''        <parse>'',
     ''            @type regexp'',
     ''            expression /^[^{]*(?<message>{.*})'' @ [CHR 0x5C] @ ''s*$/'',
     ''            types message:string'',
     ''        </parse>'',
     ''    </source>'',
     '''']"

definition filterSyslog :: string where
  "filterSyslog = join_lines
    ['''',
     ''    <filter syslog syslog.**>'',
     ''        @type parser'',
     ''        format json'',
     ''        key_name message'',
     ''        reserve_data true'',
     ''    </filter>'',
     '''']"

subsection \<open>Configuration texts of api/v1alpha1\<close>

definition fluentdMainConfigData :: string where
  "fluentdMainConfigData = join_lines
    ['''',
     ''fluent.conf: |-'',
     ''  # Input plugins (Supports Systemd and HTTP)'',
     ''  @include /fluentd/etc/source.conf'',
     '''',
     ''  # Output plugins (Only use one output plugin conf file at a time. Comment or remove other files)'',
     ''  #@include /fluentd/etc/remoteSyslog.conf'',
     ''  #@include /fluentd/etc/splunkHEC.conf'',
     '''']"

definition sourceConfigDataKey :: string where
  "sourceConfigDataKey = join_lines ['''', ''source.conf: |-'']"

definition sourceConfigDataHTTP1 :: string where
  "sourceConfigDataHTTP1 = join_lines
    ['''',
     ''    <source>'',
     ''        @type http'',
     ''        # Tag is not supported in yaml, must be set by request path (/icp-audit.http is required for validation and export)'',
     ''        port '']"

definition sourceConfigDataHTTP2 :: string where
  "sourceConfigDataHTTP2 = join_lines
    ['''',
     ''        bind 0.0.0.0'',
     ''        body_size_limit 32m'',
     ''        keepalive_timeout 10s'',
     ''        <transport tls>'',
     ''          ca_path /fluentd/etc/https/ca.crt'',
     ''          cert_path /fluentd/etc/https/tls.crt'',
     ''          private_key_path /fluentd/etc/https/tls.key'',
     ''        </transport>'',
     ''        <parse>'',
     ''          @type json'',
     ''        </parse>'',
     ''    </source>'',
     '''']"

definition filterHTTP :: string where
  "filterHTTP = join_lines
    ['''',
     ''    <filter icp-audit.*>'',
     ''        @type record_transformer'',
     ''        enable_ruby true'',
     ''        <record>'',
     ''          tag ${tag}'',
     ''          message ${record.to_json}'',
     ''        </record>'',
     ''    </filter>'',
     '''']"

definition splunkConfigData1 :: string where
  "splunkConfigData1 = join_lines
    ['''', ''splunkHEC.conf: |-'', ''    <match icp-audit icp-audit.** syslog syslog.**>'']"

definition splunkDefaults :: string where
  "splunkDefaults = join_lines
    ['''',
     ''        @type splunk_hec'',
     ''        hec_host SPLUNK_SERVER_HOSTNAME'',
     ''        hec_port SPLUNK_PORT'',
     ''        hec_token SPLUNK_HEC_TOKEN'',
     ''        ca_file /fluentd/etc/tls/splunkCA.pem'',
     ''        source ${tag}'']"

definition splunkConfigData2 :: string where
  "splunkConfigData2 = join_lines ['''', ''    </match>'']"

definition qRadarConfigData1 :: string where
  "qRadarConfigData1 = join_lines
    ['''', ''remoteSyslog.conf: |-'', ''    <match icp-audit icp-audit.** syslog syslog.**>'']"

definition qRadarDefaults :: string where
  "qRadarDefaults = join_lines
    ['''',
     ''        @type copy'',
     ''        <store>'',
     ''            @type remote_syslog'',
     ''            host QRADAR_SERVER_HOSTNAME'',
     ''            port QRADAR_PORT_FOR_icp-audit'',
     ''            hostname QRADAR_LOG_SOURCE_IDENTIFIER_FOR_icp-audit'',
     ''            protocol tcp'',
     ''            tls true'',
     ''            ca_file /fluentd/etc/tls/qradar.crt'',
     ''            packet_size 4096'',
     ''            program fluentd'',
     ''            <format>'',
     ''                @type single_value'',
     ''                message_key message'',
     ''            </format>'',
     ''        </store>'']"

definition qRadarConfigData2 :: string where
  "qRadarConfigData2 = join_lines ['''', ''    </match>'']"

end
