(* ===== verification/ApiTypes.thy ===== *)
theory ApiTypes
  imports KubeTypes
begin

text \<open>
  The operator's own custom resources: \<open>CommonAudit\<close> (api/v1/commonaudit_types.go) and
  \<open>AuditLogging\<close> (api/v1alpha1/auditlogging_types.go), field by field.
\<close>

subsection \<open>CommonAudit\<close>

record StatusVersion =
  Reconciled :: string

record CommonAuditSpecFluentd =
  caf_ImageRegistry :: string
  caf_PullPolicy :: string
  caf_Resources :: resource_requirements

record CommonAuditSpecSplunk =
  sk_EnableSIEM :: bool
  sk_Host :: string
  sk_Port :: int32
  sk_Token :: string
  sk_TLS :: bool

record CommonAuditSpecSyslog =
  sy_EnableSIEM :: bool
  sy_Host :: string
  sy_Port :: int32
  sy_Hostname :: string
  sy_TLS :: bool

record CommonAuditSpecHostAliases =
  HostIP :: string
  Hostnames :: "string slice"

record CommonAuditSpecOutputs =
  Splunk :: CommonAuditSpecSplunk
  Syslog :: CommonAuditSpecSyslog
  HostAliases :: "CommonAuditSpecHostAliases slice"

record CommonAuditSpec =
  ca_EnableAuditLoggingForwarding :: bool
  ca_ClusterIssuer :: string
  ca_Issuer :: string
  ca_Replicas :: int32
  ca_Fluentd :: CommonAuditSpecFluentd
  ca_Outputs :: CommonAuditSpecOutputs

record CommonAuditStatus =
  ca_Nodes :: "string slice"
  ca_Versions :: StatusVersion

record CommonAudit =
  ca_Meta :: objmeta
  ca_Spec :: CommonAuditSpec
  ca_Status :: CommonAuditStatus

text \<open>The zero values of the composite literals \<open>CommonAuditSpecSplunk{}\<close> and \<open>CommonAuditSpecSyslog{}\<close>.\<close>

definition zero_splunk :: CommonAuditSpecSplunk where
  "zero_splunk = \<lparr>sk_EnableSIEM = False, sk_Host = [], sk_Port = 0, sk_Token = [], sk_TLS = False\<rparr>"

definition zero_syslog :: CommonAuditSpecSyslog where
  "zero_syslog = \<lparr>sy_EnableSIEM = False, sy_Host = [], sy_Port = 0, sy_Hostname = [], sy_TLS = False\<rparr>"

definition zero_common_spec :: CommonAuditSpec where
  "zero_common_spec =
     \<lparr>ca_EnableAuditLoggingForwarding = False, ca_ClusterIssuer = [], ca_Issuer = [], ca_Replicas = 0,
      ca_Fluentd = \<lparr>caf_ImageRegistry = [], caf_PullPolicy = [],
                    caf_Resources = \<lparr>rr_Limits = None, rr_Requests = None\<rparr>\<rparr>,
      ca_Outputs = \<lparr>Splunk = zero_splunk, Syslog = zero_syslog, HostAliases = None\<rparr>\<rparr>"

abbreviation ca_Name :: "CommonAudit \<Rightarrow> string" where
  "ca_Name inst \<equiv> m_Name (ca_Meta inst)"

abbreviation ca_Namespace :: "CommonAudit \<Rightarrow> string" where
  "ca_Namespace inst \<equiv> m_Namespace (ca_Meta inst)"

abbreviation ca_splunk :: "CommonAudit \<Rightarrow> CommonAuditSpecSplunk" where
  "ca_splunk inst \<equiv> Splunk (ca_Outputs (ca_Spec inst))"

abbreviation ca_syslog :: "CommonAudit \<Rightarrow> CommonAuditSpecSyslog" where
  "ca_syslog inst \<equiv> Syslog (ca_Outputs (ca_Spec inst))"

text \<open>A new \<open>CommonAudit\<close> with only its name and namespace set.\<close>

definition new_common :: "string \<Rightarrow> string \<Rightarrow> CommonAudit" where
  "new_common name namespace =
     \<lparr>ca_Meta = zero_meta\<lparr>m_Name := name, m_Namespace := namespace\<rparr>, ca_Spec = zero_common_spec,
      ca_Status = \<lparr>ca_Nodes = None, ca_Versions = \<lparr>Reconciled = []\<rparr>\<rparr>\<rparr>"

subsection \<open>AuditLogging\<close>

record AuditLoggingSpecFluentd =
  alf_EnableAuditLoggingForwarding :: bool
  alf_ImageRegistry :: string
  alf_ImageTag :: string
  alf_PullPolicy :: string
  alf_ClusterIssuer :: string
  alf_Issuer :: string
  alf_Resources :: resource_requirements

record AuditLoggingSpecPolicyController =
  EnableAuditPolicy :: string
  pc_ImageRegistry :: string
  pc_ImageTag :: string
  pc_PullPolicy :: string
  Verbosity :: string
  Frequency :: string

record AuditLoggingSpec =
  al_Fluentd :: AuditLoggingSpecFluentd
  al_PolicyController :: AuditLoggingSpecPolicyController

record AuditLoggingStatus =
  al_Nodes :: "string slice"
  al_Versions :: StatusVersion

record AuditLogging =
  al_Meta :: objmeta
  al_Spec :: AuditLoggingSpec
  al_Status :: AuditLoggingStatus

abbreviation al_Name :: "AuditLogging \<Rightarrow> string" where
  "al_Name inst \<equiv> m_Name (al_Meta inst)"

abbreviation al_policy :: "AuditLogging \<Rightarrow> AuditLoggingSpecPolicyController" where
  "al_policy inst \<equiv> al_PolicyController (al_Spec inst)"

definition new_auditlogging :: "string \<Rightarrow> AuditLogging" where
  "new_auditlogging name =
     \<lparr>al_Meta = zero_meta\<lparr>m_Name := name\<rparr>,
      al_Spec = \<lparr>al_Fluentd = \<lparr>alf_EnableAuditLoggingForwarding = False, alf_ImageRegistry = [],
                   alf_ImageTag = [], alf_PullPolicy = [], alf_ClusterIssuer = [], alf_Issuer = [],
                   alf_Resources = \<lparr>rr_Limits = None, rr_Requests = None\<rparr>\<rparr>,
                 al_PolicyController = \<lparr>EnableAuditPolicy = [], pc_ImageRegistry = [],
                   pc_ImageTag = [], pc_PullPolicy = [], Verbosity = [], Frequency = []\<rparr>\<rparr>,
      al_Status = \<lparr>al_Nodes = None, al_Versions = \<lparr>Reconciled = []\<rparr>\<rparr>\<rparr>"

end
