(* ===== verification/ConfigMapsV1alpha1.thy ===== *)
theory ConfigMapsV1alpha1
  imports ConfigTemplates ApiTypes
begin

text \<open>
  controllers/resources/configmaps_v1alpha1.go: the ConfigMaps of the cluster-scoped
  \<open>AuditLogging\<close> resource, and the code that carries a customer's output plugin settings over
  when the match tags of a ConfigMap are out of date.
\<close>

subsection \<open>Regular expressions\<close>

definition matchTags :: string where
  "matchTags = ''<match icp-audit icp-audit.**>''"

definition re_match_tag :: re where  \<comment> \<open>\<open><match.*>\<close>\<close>
  "re_match_tag = Cat (Lit ''<match'') (Cat (Many (\<lambda>c. c \<noteq> nl)) (Lit ''>''))"

definition re_between_tags :: re where  \<comment> \<open>\<open>>\n([^]]+)\n<\<close>\<close>
  "re_between_tags =
     Cat (Lit (''>'' @ newline)) (Cat (Group (Many1 (\<lambda>c. c \<noteq> CHR '']''))) (Lit (newline @ ''<'')))"

definition re_output_tags :: re where
  "re_output_tags = Lit ''match icp-audit icp-audit.** syslog syslog.**''"

definition re_port :: re where  \<comment> \<open>\<open>port [0-9]+\<close>\<close>
  "re_port = Cat (Lit ''port '') (Many1 digit)"

subsection \<open>Building the ConfigMaps\<close>

definition ingest_url :: "string \<Rightarrow> int \<Rightarrow> string" where
  "ingest_url namespace p =
     ''https://'' @ AuditLoggingComponentName @ ''.'' @ namespace @ '':'' @ Itoa p"

definition BuildConfigMap :: "yaml_pkg \<Rightarrow> AuditLogging \<Rightarrow> string \<Rightarrow> string \<Rightarrow> string + configmap" where
  "BuildConfigMap yaml inst name namespace =
     (let metaLabels = LabelsForMetadata FluentdName;
          unmarshal = (\<lambda>key doc dataMap. case yaml key doc of Inl e \<Rightarrow> Inl e
                         | Inr v \<Rightarrow> Inr (fmupd key v dataMap));
          result =
            (if name = cm_name ConfigName then
               unmarshal FluentdConfigKey fluentdMainConfigData
                 (fmupd EnableAuditLogForwardKey
                   (FormatBool (alf_EnableAuditLoggingForwarding (al_Fluentd (al_Spec inst)))) fmempty)
             else if name = cm_name SourceConfigName then
               unmarshal SourceConfigKey
                 (sourceConfigDataKey @ sourceConfigDataHTTP1 @ Itoa defaultHTTPPort
                   @ sourceConfigDataHTTP2 @ sourceConfigSyslog @ filterHTTP @ filterSyslog) fmempty
             else if name = cm_name SplunkConfigName then
               unmarshal SplunkConfigKey (splunkConfigData1 @ splunkDefaults @ splunkConfigData2) fmempty
             else if name = cm_name QRadarConfigName then
               unmarshal QRadarConfigKey (qRadarConfigData1 @ qRadarDefaults @ qRadarConfigData2) fmempty
             else if name = cm_name HTTPIngestName then
               Inr (fmupd SyslogIngestURLKey (ingest_url namespace defaultSyslogPort)
                     (fmupd HTTPIngestURLKey (ingest_url namespace defaultHTTPPort @ httpPath) fmempty))
             else Inr fmempty)
      in case result of
           Inl e \<Rightarrow> Inl e
         | Inr dataMap \<Rightarrow>
             Inr \<lparr>cm_Meta = zero_meta\<lparr>m_Name := name, m_Namespace := namespace, m_Labels := metaLabels\<rparr>,
                  cm_Data = Some dataMap\<rparr>)"

subsection \<open>Keeping the customer's settings\<close>

fun indent_lines :: "nat \<Rightarrow> string list \<Rightarrow> string" where
  "indent_lines tabs [] = []"
| "indent_lines tabs [line] = yamlLine tabs line False"
| "indent_lines tabs (line # lines) = yamlLine tabs line True @ indent_lines tabs lines"

definition getConfig :: "string \<Rightarrow> string + string" where
  "getConfig data =
     (let matches = FindStringSubmatch re_between_tags data
      in if length matches < 2 then Inl ''output plugin config misformatted''
         else let config = matches ! 1; tabs = 1
              in Inr (indent_lines tabs (split_lines config)))"

definition removeK8sAudit :: "string \<Rightarrow> string" where
  "removeK8sAudit data = hd (Split data ''<match kube-audit>'')"

definition UpdateMatchTags :: "configmap \<Rightarrow> string" where
  "UpdateMatchTags found =
     (let data = (if m_Name (cm_Meta found) = cm_name SplunkConfigName
                  then mget (cm_Data found) SplunkConfigKey
                  else mget (cm_Data found) QRadarConfigKey)
      in ReplaceAllString re_match_tag (removeK8sAudit data) matchTags)"

text \<open>\<open>Inl\<close> is the error; the text that the code returns beside it is only logged.\<close>

definition BuildWithSIEMConfigs :: "yaml_pkg \<Rightarrow> configmap \<Rightarrow> string + string" where
  "BuildWithSIEMConfigs yaml found =
     (if m_Name (cm_Meta found) = cm_name SplunkConfigName then
        (case getConfig (mget (cm_Data found) SplunkConfigKey) of
           Inl err \<Rightarrow> Inl err
         | Inr siemConfig \<Rightarrow>
             yaml SplunkConfigKey (splunkConfigData1 @ newline @ siemConfig @ splunkConfigData2))
      else
        (let data = removeK8sAudit (mget (cm_Data found) QRadarConfigKey)
         in case getConfig data of
              Inl err \<Rightarrow> Inl err
            | Inr siemConfig \<Rightarrow>
                yaml QRadarConfigKey (qRadarConfigData1 @ newline @ siemConfig @ qRadarConfigData2)))"

definition EqualMatchTags :: "configmap \<Rightarrow> bool" where
  "EqualMatchTags found =
     (let key = (if m_Name (cm_Meta found) = cm_name SplunkConfigName
                 then SplunkConfigKey else QRadarConfigKey);
          match = FindStringSubmatch re_output_tags (mget (cm_Data found) key)
      in if length match < 1 then False else length match \<ge> 1)"

text \<open>\<open>None\<close> is the run-time panic of \<open>match[0]\<close> on a nil slice.\<close>

definition EqualSourceConfig :: "configmap \<Rightarrow> configmap \<Rightarrow> (bool \<times> string list) option" where
  "EqualSourceConfig expected found =
     (let match = FindStringSubmatch re_port (mget (cm_Data found) SourceConfigKey);
          foundPort = (if length match < 1 then [] else Split (match ! 0) '' '' ! 1);
          match' = FindStringSubmatch re_port (mget (cm_Data expected) SourceConfigKey)
      in if match' = [] then None
         else let expectedPort = Split (match' ! 0) '' '' ! 1
              in Some (foundPort = expectedPort, [foundPort, expectedPort]))"

definition EqualConfig :: "configmap \<Rightarrow> configmap \<Rightarrow> string \<Rightarrow> bool" where
  "EqualConfig found expected key \<longleftrightarrow> mget (cm_Data found) key = mget (cm_Data expected) key"

end
