(* ===== verification/ConfigMapsV1.thy ===== *)
theory ConfigMapsV1
  imports ConfigMapsV1alpha1
begin

text \<open>
  controllers/resources/configmaps_v1.go: the ConfigMaps of the namespace-scoped \<open>CommonAudit\<close>
  resource, and the code that compares the SIEM settings of a ConfigMap with the resource and
  writes them back into the customer's text.
\<close>

subsection \<open>Settings and their expressions\<close>

definition hecHost :: string where
  "hecHost = ''hec_host ''"
definition hecPort :: string where
  "hecPort = ''hec_port ''"
definition hecToken :: string where
  "hecToken = ''hec_token ''"
definition host :: string where
  "host = ''host ''"
definition port :: string where
  "port = ''port ''"
definition hostname :: string where
  "hostname = ''hostname ''"
definition protocol :: string where
  "protocol = ''protocol ''"
definition tls :: string where
  "tls = ''tls ''"

definition RegexHecHost :: re where
  "RegexHecHost = key_re hecHost"
definition RegexHecPort :: re where
  "RegexHecPort = key_re hecPort"
definition RegexHecToken :: re where
  "RegexHecToken = key_re hecToken"
definition RegexHost :: re where
  "RegexHost = key_re host"
definition RegexPort :: re where
  "RegexPort = key_re port"
definition RegexHostname :: re where
  "RegexHostname = key_re hostname"
definition RegexProtocol :: re where
  "RegexProtocol = key_re protocol"
definition RegexTLS :: re where
  "RegexTLS = key_re tls"

definition QradarPlugin :: string where
  "QradarPlugin = ''@include /fluentd/etc/remoteSyslog.conf''"
definition SplunkPlugin :: string where
  "SplunkPlugin = ''@include /fluentd/etc/splunkHEC.conf''"

fun Protocols :: "bool \<Rightarrow> string" where
  "Protocols True = ''https''"
| "Protocols False = ''http''"

subsection \<open>Building the ConfigMaps\<close>

definition buildFluentdConfig :: "CommonAudit \<Rightarrow> string" where
  "buildFluentdConfig inst =
     (if sk_EnableSIEM (ca_splunk inst) \<or> sy_EnableSIEM (ca_syslog inst)
      then fluentdMainConfigV1Data @ fluentdOutputConfigV1Data
           @ (if sk_EnableSIEM (ca_splunk inst) then yamlLine 2 SplunkPlugin True else [])
           @ (if sy_EnableSIEM (ca_syslog inst) then yamlLine 2 QradarPlugin True else [])
           @ yamlLine 1 ''</match>'' False
      else fluentdMainConfigV1Data)"

definition buildFluentdSplunkConfig :: "CommonAudit \<Rightarrow> string" where
  "buildFluentdSplunkConfig inst =
     (let sk = ca_splunk inst
      in splunkConfigV1Data1
         @ (if sk_Host sk \<noteq> [] \<and> sk_Port sk \<noteq> 0 \<and> sk_Token sk \<noteq> []
            then yamlLine 2 (hecHost @ sk_Host sk) True
                 @ yamlLine 2 (hecPort @ Itoa (sint (sk_Port sk))) True
                 @ yamlLine 2 (hecToken @ sk_Token sk) True
            else yamlLine 2 (hecHost @ ''SPLUNK_SERVER_HOSTNAME'') True
                 @ yamlLine 2 (hecPort @ ''SPLUNK_PORT'') True
                 @ yamlLine 2 (hecToken @ ''SPLUNK_HEC_TOKEN'') True)
         @ yamlLine 2 (protocol @ Protocols (sk_TLS sk)) False
         @ splunkConfigV1Data2)"

definition buildFluentdQRadarConfig :: "CommonAudit \<Rightarrow> string" where
  "buildFluentdQRadarConfig inst =
     (let sy = ca_syslog inst
      in qRadarConfigV1Data1
         @ (if sy_Host sy \<noteq> [] \<and> sy_Port sy \<noteq> 0 \<and> sy_Hostname sy \<noteq> []
            then yamlLine 2 (host @ sy_Host sy) True
                 @ yamlLine 2 (port @ Itoa (sint (sy_Port sy))) True
                 @ yamlLine 2 (hostname @ sy_Hostname sy) True
            else yamlLine 2 (host @ ''QRADAR_SERVER_HOSTNAME'') True
                 @ yamlLine 2 (port @ ''QRADAR_PORT_FOR_icp-audit'') True
                 @ yamlLine 2 (hostname @ ''QRADAR_LOG_SOURCE_IDENTIFIER_FOR_icp-audit'') True)
         @ yamlLine 2 (tls @ FormatBool (sy_TLS sy)) False
         @ qRadarConfigV1Data2)"

definition BuildFluentdConfigMap :: "yaml_pkg \<Rightarrow> CommonAudit \<Rightarrow> string \<Rightarrow> string + configmap" where
  "BuildFluentdConfigMap yaml inst name =
     (let metaLabels = LabelsForMetadata FluentdName;
          unmarshal = (\<lambda>key doc dataMap. case yaml key doc of Inl e \<Rightarrow> Inl e
                         | Inr v \<Rightarrow> Inr (fmupd key v dataMap));
          result =
            (if name = cm_name ConfigName then
               unmarshal FluentdConfigKey (buildFluentdConfig inst)
                 (fmupd EnableAuditLogForwardKey
                   (FormatBool (ca_EnableAuditLoggingForwarding (ca_Spec inst))) fmempty)
             else if name = cm_name SourceConfigName then
               unmarshal SourceConfigKey
                 (sourceConfigDataKey @ sourceConfigDataHTTP1 @ Itoa defaultHTTPPort
                   @ sourceConfigDataHTTP2 @ sourceConfigSyslog @ filterHTTP @ filterSyslog) fmempty
             else if name = cm_name SplunkConfigName then
               unmarshal SplunkConfigKey (buildFluentdSplunkConfig inst) fmempty
             else if name = cm_name QRadarConfigName then
               unmarshal QRadarConfigKey (buildFluentdQRadarConfig inst) fmempty
             else if name = cm_name HTTPIngestName then
               Inr (fmupd SyslogIngestURLKey (ingest_url (ca_Namespace inst) defaultSyslogPort)
                     (fmupd HTTPIngestURLKey
                       (ingest_url (ca_Namespace inst) defaultHTTPPort @ httpPath) fmempty))
             else Inr fmempty)
      in case result of
           Inl e \<Rightarrow> Inl e
         | Inr dataMap \<Rightarrow>
             Inr \<lparr>cm_Meta = zero_meta\<lparr>m_Name := name, m_Namespace := ca_Namespace inst,
                                     m_Labels := metaLabels\<rparr>,
                  cm_Data = Some dataMap\<rparr>)"

subsection \<open>Reading and writing the SIEM settings\<close>

definition UpdateSIEMConfig :: "CommonAudit \<Rightarrow> configmap \<Rightarrow> string" where
  "UpdateSIEMConfig inst found =
     (if m_Name (cm_Meta found) = cm_name SplunkConfigName then
        (if ca_splunk inst \<noteq> zero_splunk then
           (let newData = mget (cm_Data found) SplunkConfigKey;
                d1 = ReplaceAllString RegexHecHost newData (hecHost @ sk_Host (ca_splunk inst));
                d2 = ReplaceAllString RegexHecPort d1 (hecPort @ Itoa (sint (sk_Port (ca_splunk inst))));
                d3 = ReplaceAllString RegexHecToken d2 (hecToken @ sk_Token (ca_splunk inst));
                d4 = ReplaceAllString RegexProtocol d3 (protocol @ Protocols (sk_TLS (ca_splunk inst)))
            in d4)
         else [])
      else
        (if ca_syslog inst \<noteq> zero_syslog then
           (let newData = mget (cm_Data found) QRadarConfigKey;
                d1 = ReplaceAllString RegexHost newData (host @ sy_Host (ca_syslog inst));
                d2 = ReplaceAllString RegexPort d1 (port @ Itoa (sint (sy_Port (ca_syslog inst))));
                d3 = ReplaceAllString RegexHostname d2 (hostname @ sy_Hostname (ca_syslog inst));
                d4 = ReplaceAllString RegexTLS d3 (tls @ FormatBool (sy_TLS (ca_syslog inst)))
            in d4)
         else []))"

record siem_config =
  sc_name :: string
  sc_value :: string
  sc_regex :: re

definition splunk_configs :: "CommonAudit \<Rightarrow> siem_config list" where
  "splunk_configs inst =
     [\<lparr>sc_name = ''Host'', sc_value = sk_Host (ca_splunk inst), sc_regex = RegexHecHost\<rparr>,
      \<lparr>sc_name = ''Port'', sc_value = Itoa (sint (sk_Port (ca_splunk inst))), sc_regex = RegexHecPort\<rparr>,
      \<lparr>sc_name = ''Token'', sc_value = sk_Token (ca_splunk inst), sc_regex = RegexHecToken\<rparr>,
      \<lparr>sc_name = ''Protocol'', sc_value = Protocols (sk_TLS (ca_splunk inst)), sc_regex = RegexProtocol\<rparr>]"

definition syslog_configs :: "CommonAudit \<Rightarrow> siem_config list" where
  "syslog_configs inst =
     [\<lparr>sc_name = ''Host'', sc_value = sy_Host (ca_syslog inst), sc_regex = RegexHost\<rparr>,
      \<lparr>sc_name = ''Port'', sc_value = Itoa (sint (sy_Port (ca_syslog inst))), sc_regex = RegexPort\<rparr>,
      \<lparr>sc_name = ''Hostname'', sc_value = sy_Hostname (ca_syslog inst), sc_regex = RegexHostname\<rparr>,
      \<lparr>sc_name = ''TLS'', sc_value = FormatBool (sy_TLS (ca_syslog inst)), sc_regex = RegexTLS\<rparr>]"

text \<open>One turn of the loop: is the setting as expected, and is it missing?\<close>

definition check_config :: "siem_config \<Rightarrow> string \<Rightarrow> bool \<times> bool" where
  "check_config c data =
     (let found = FindStringSubmatch (sc_regex c) data
      in if length found > 0
         then (let value = Split (found ! 0) '' ''
               in if length value > 1
                  then (if value ! 1 \<noteq> sc_value c then (False, False) else (True, False))
                  else (False, True))
         else (False, True))"

fun check_configs :: "siem_config list \<Rightarrow> string \<Rightarrow> bool \<times> bool \<Rightarrow> bool \<times> bool" where
  "check_configs [] data acc = acc"
| "check_configs (c # cs) data acc =
     (let (equal, missing) = check_config c data
      in if \<not> equal then (equal, missing) else check_configs cs data (equal, missing))"

definition EqualSIEMConfig :: "CommonAudit \<Rightarrow> configmap \<Rightarrow> bool \<times> bool" where
  "EqualSIEMConfig inst found =
     (let (key, configs) =
        (if m_Name (cm_Meta found) = cm_name SplunkConfigName then
           (if ca_splunk inst \<noteq> zero_splunk then (SplunkConfigKey, splunk_configs inst) else ([], []))
         else
           (if ca_syslog inst \<noteq> zero_syslog then (QRadarConfigKey, syslog_configs inst) else ([], [])))
      in check_configs configs (mget (cm_Data found) key) (True, False))"

end
