(* ===== verification/SiemSettings.thy ===== *)
theory SiemSettings
  imports ConfigMapsV1
begin

text \<open>
  The contract between the SIEM code of configmaps_v1.go and the configuration texts it works on,
  as the locale \<open>setting_keys\<close>: a set of keys, each one word and a blank. In it, writing the settings
  (\<open>UpdateSIEMConfig\<close>) and checking them (\<open>EqualSIEMConfig\<close>) are related once for all keys; the
  interpretations for Splunk and for syslog then give the facts about the code.
\<close>

subsection \<open>Writing and reading, over any list of settings\<close>

text \<open>The chain of replacements of \<open>UpdateSIEMConfig\<close>, for a list of keys and values.\<close>

definition write_settings :: "(string \<times> string) list \<Rightarrow> string \<Rightarrow> string" where
  "write_settings kvs data = foldl (\<lambda>d (k, v). ReplaceAllString (key_re k) d (k @ v)) data kvs"

text \<open>What a check reads: the first word after the first occurrence of the key.\<close>

definition read_setting :: "string \<Rightarrow> string \<Rightarrow> string option" where
  "read_setting k data = map_option (takeWhile (\<lambda>c. c \<noteq> CHR '' '')) (first_field k (split_lines data))"

definition setting :: "string \<Rightarrow> string \<times> string \<Rightarrow> siem_config" where
  "setting n kv = \<lparr>sc_name = n, sc_value = snd kv, sc_regex = key_re (fst kv)\<rparr>"

text \<open>A value that survives the round trip: one word, no \<open>$\<close>.\<close>

definition plain_value :: "string \<Rightarrow> bool" where
  "plain_value v \<longleftrightarrow> CHR '' '' \<notin> set v \<and> nl \<notin> set v \<and> CHR ''$'' \<notin> set v"

lemma plain_Itoa [simp]: "plain_value (Itoa i)"
  using Itoa_plain by (auto simp: plain_value_def)

lemma plain_FormatBool [simp]: "plain_value (FormatBool b)"
  using FormatBool_plain by (auto simp: plain_value_def)

lemma plain_Protocols [simp]: "plain_value (Protocols b)"
  by (cases b) (auto simp: plain_value_def nl_def)

definition key_form :: "string \<Rightarrow> bool" where
  "key_form k \<longleftrightarrow> k \<noteq> [] \<and> last k = CHR '' '' \<and> CHR '' '' \<notin> set (butlast k) \<and> nl \<notin> set k \<and> CHR ''$'' \<notin> set k"

lemma key_formD:
  assumes "key_form k"
  obtains w where "k = w @ [CHR '' '']" "CHR '' '' \<notin> set w" "nl \<notin> set k" "CHR ''$'' \<notin> set k" "k \<noteq> []"
  using assms by (metis append_butlast_last_id key_form_def)

text \<open>
  Every line holds at most one of the keys: then the settings cannot be confused with one another.
\<close>

definition separated :: "string list \<Rightarrow> string \<Rightarrow> bool" where
  "separated ks data \<longleftrightarrow>
     (\<forall>l \<in> set (split_lines data). \<forall>k \<in> set ks. \<forall>k' \<in> set ks. contains l k \<and> contains l k' \<longrightarrow> k = k')"

definition all_present :: "string list \<Rightarrow> string \<Rightarrow> bool" where
  "all_present ks data \<longleftrightarrow> (\<forall>k \<in> set ks. \<exists>l \<in> set (split_lines data). contains l k)"

subsection \<open>One line\<close>

lemma contains_after_set:
  assumes "key_form k'" "CHR '' '' \<notin> set v" "contains (x @ v) k'"
  shows "contains x k'"
proof -
  obtain w where k': "k' = w @ [CHR '' '']" using assms(1) by (rule key_formD)
  from assms(3) obtain p q where eq: "x @ v = (p @ k') @ q" by (auto simp: contains_iff)
  then obtain us where "x = (p @ k') @ us \<and> us @ v = q \<or> x @ us = p @ k' \<and> v = us @ q"
    unfolding append_eq_append_conv2 by metis
  then show ?thesis
  proof
    assume "x = (p @ k') @ us \<and> us @ v = q"
    then show ?thesis by (auto simp: contains_iff)
  next
    assume h: "x @ us = p @ k' \<and> v = us @ q"
    have "us = []"
    proof (rule ccontr)
      assume "us \<noteq> []"
      then have "last us = last (x @ us)" by simp
      also have "\<dots> = CHR '' ''" using h k' by simp
      finally show False using \<open>us \<noteq> []\<close> h assms(2) by (metis Un_iff last_in_set set_append)
    qed
    with h have "x = p @ k' @ []" by simp
    then show ?thesis unfolding contains_iff by blast
  qed
qed

lemma cut_set_line:
  assumes "key_form k" "CHR '' '' \<notin> set v" "cut k l = Some (a, b)"
  shows "cut k (a @ k @ v) = Some (a, v)"
proof -
  have l: "l = a @ k @ b" using assms(3) by (rule cut_SomeD)
  have "contains (a @ k @ v) k" by (auto simp: contains_iff)
  then obtain p q where pq: "cut k (a @ k @ v) = Some (p, q)" by (auto simp: contains_def)
  then have eq: "a @ k @ v = p @ k @ q" by (rule cut_SomeD)
  have "length p \<le> length a" using pq by (rule cut_leftmost) simp
  have "prefix (p @ k) (a @ k @ v)" using eq by (metis append_assoc prefixI)
  moreover have "prefix (a @ k) (a @ k @ v)" by (metis append_assoc prefixI)
  ultimately have "prefix (p @ k) (a @ k)"
    by (rule prefix_length_prefix) (simp add: \<open>length p \<le> length a\<close>)
  then obtain r where "a @ k = p @ k @ r" by (auto simp: prefix_def)
  then have "l = p @ k @ (r @ b)" using l by (metis append_assoc)
  then have "length a \<le> length p" using assms(3) cut_leftmost by blast
  with \<open>length p \<le> length a\<close> have "length a = length p" by (rule le_antisym[rotated])
  with eq have "a = p \<and> v = q" by (metis append_eq_append_conv same_append_eq)
  with pq show ?thesis by simp
qed

lemma contains_prefix: "contains x k \<Longrightarrow> contains (x @ y) k"
  by (metis append_assoc contains_iff)

lemma set_line_absent: "\<not> contains l k \<Longrightarrow> set_line k t l = l"
  by (auto simp: set_line_def contains_def split: option.splits)

lemma set_line_other:
  assumes "key_form k" "key_form k'" "CHR '' '' \<notin> set v" "\<not> contains l k'" "contains l k"
  shows "\<not> contains (set_line k (k @ v) l) k'"
proof
  assume h: "contains (set_line k (k @ v) l) k'"
  obtain a b where c: "cut k l = Some (a, b)" using assms(5) by (auto simp: contains_def)
  with h have "contains ((a @ k) @ v) k'" by (simp add: set_line_def)
  then have "contains (a @ k) k'" using assms(2,3) contains_after_set by blast
  then have "contains l k'" using cut_SomeD[OF c] contains_prefix[of "a @ k" k' b] by simp
  with assms(4) show False ..
qed

text \<open>The whole chain on one line that holds at most one key.\<close>

definition write_line :: "(string \<times> string) list \<Rightarrow> string \<Rightarrow> string" where
  "write_line kvs l = foldl (\<lambda>d (k, v). set_line k (k @ v) d) l kvs"

lemma write_line_absent: "(\<forall>k \<in> fst ` set kvs. \<not> contains l k) \<Longrightarrow> write_line kvs l = l"
  unfolding write_line_def by (induction kvs arbitrary: l) (auto simp: set_line_absent)

lemma write_line_one:
  assumes "\<forall>kv \<in> set kvs. key_form (fst kv) \<and> CHR '' '' \<notin> set (snd kv)" "distinct (map fst kvs)"
    and "(k, v) \<in> set kvs" "contains l k" "\<forall>k' \<in> fst ` set kvs. contains l k' \<longrightarrow> k' = k"
  shows "write_line kvs l = set_line k (k @ v) l"
  using assms
proof (induction kvs arbitrary: l)
  case (Cons kv kvs)
  obtain k1 v1 where kv: "kv = (k1, v1)" by (cases kv)
  show ?case
  proof (cases "k1 = k")
    case True
    from Cons.prems(2) have new: "k \<notin> fst ` set kvs" by (simp add: kv True)
    have v: "v1 = v"
      using Cons.prems(3) image_eqI[of k fst "(k, v)" "set kvs"] new by (auto simp: kv)
    let ?l' = "set_line k (k @ v) l"
    have "\<not> contains ?l' k'" if "k' \<in> fst ` set kvs" for k'
    proof -
      from that new have "k' \<noteq> k" by blast
      with that Cons.prems(5) have "\<not> contains l k'" by (auto simp: kv)
      then show ?thesis
        using that Cons.prems(1,3,4) by (intro set_line_other) (auto simp: kv)
    qed
    then have "write_line kvs ?l' = ?l'" by (intro write_line_absent) blast
    then show ?thesis by (simp add: write_line_def kv True v)
  next
    case False
    with Cons.prems(5) have absent: "\<not> contains l k1" by (auto simp: kv)
    have "(k, v) \<in> set kvs" using Cons.prems(3) False by (simp add: kv)
    moreover have "\<forall>kv \<in> set kvs. key_form (fst kv) \<and> CHR '' '' \<notin> set (snd kv)"
      using Cons.prems(1) by simp
    moreover have "distinct (map fst kvs)" using Cons.prems(2) by simp
    moreover have "\<forall>k' \<in> fst ` set kvs. contains l k' \<longrightarrow> k' = k" using Cons.prems(5) by simp
    ultimately have "write_line kvs l = set_line k (k @ v) l"
      using Cons.prems(4) by (intro Cons.IH)
    then show ?thesis by (simp add: write_line_def kv set_line_absent[OF absent])
  qed
qed simp

subsection \<open>The contract\<close>

locale setting_keys =
  fixes ks :: "string list"
  assumes key_form: "k \<in> set ks \<Longrightarrow> key_form k"
    and distinct_keys: "distinct ks"
begin

lemma key_facts: "k \<in> set ks \<Longrightarrow> nl \<notin> set k \<and> k \<noteq> [] \<and> CHR ''$'' \<notin> set k"
  by (auto dest: key_form simp: key_form_def)

lemma write_settings_lines:
  assumes "set kvs \<subseteq> set ks \<times> Collect plain_value"
  shows "write_settings kvs data = join_lines (map (write_line kvs) (split_lines data))"
  using assms
proof (induction kvs arbitrary: data)
  case Nil
  then show ?case by (simp add: write_settings_def write_line_def Join_Split)
next
  case (Cons kv kvs)
  obtain k v where kv: "kv = (k, v)" by (cases kv)
  with Cons.prems have k: "k \<in> set ks" and v: "plain_value v" by auto
  have no_nl: "nl \<notin> set (set_line k (k @ v) l)" if "l \<in> set (split_lines data)" for l
    using split_lines_no_nl[OF that] key_facts[OF k] v
    by (auto simp: set_line_def plain_value_def split: option.splits dest: cut_SomeD)
  have "write_settings (kv # kvs) data = write_settings kvs (ReplaceAllString (key_re k) data (k @ v))"
    by (simp add: write_settings_def kv)
  also have "ReplaceAllString (key_re k) data (k @ v) =
      join_lines (map (set_line k (k @ v)) (split_lines data))"
    using key_facts[OF k] v by (intro replace_key_lines) (auto simp: plain_value_def)
  also have "write_settings kvs \<dots> =
      join_lines (map (write_line kvs) (map (set_line k (k @ v)) (split_lines data)))"
    using Cons.prems no_nl by (subst Cons.IH) (auto simp: split_lines_join Split_nonempty)
  finally show ?case by (simp add: write_line_def kv comp_def)
qed

text \<open>Reading a setting after writing all of them: the value just written.\<close>

lemma get_write_line:
  assumes vs: "length vs = length ks" "\<forall>v \<in> set vs. plain_value v"
    and kv: "(k, v) \<in> set (zip ks vs)"
    and sep: "\<forall>k \<in> set ks. \<forall>k' \<in> set ks. contains l k \<and> contains l k' \<longrightarrow> k = k'"
  shows "get_line k (write_line (zip ks vs) l) = (if contains l k then Some v else None)"
proof -
  have fst_zip: "map fst (zip ks vs) = ks" using vs(1) by simp
  have keys: "fst ` set (zip ks vs) = set ks" using fst_zip by (metis list.set_map)
  have all: "\<forall>kv \<in> set (zip ks vs). key_form (fst kv) \<and> CHR '' '' \<notin> set (snd kv)"
    using vs(2) key_form by (auto dest: set_zip_leftD set_zip_rightD simp: plain_value_def)
  have one: "write_line (zip ks vs) l = set_line k' (k' @ v') l"
    if "(k', v') \<in> set (zip ks vs)" "contains l k'" for k' v'
    using that sep set_zip_leftD[OF that(1)] fst_zip distinct_keys
    by (intro write_line_one[OF all]) (auto simp: keys)
  have k: "k \<in> set ks" "key_form k" "CHR '' '' \<notin> set v"
    using kv all set_zip_leftD[OF kv] by auto
  show ?thesis
  proof (cases "contains l k")
    case True
    then obtain a b where c: "cut k l = Some (a, b)" by (auto simp: contains_def)
    then have "write_line (zip ks vs) l = a @ k @ v" using one[OF kv True] by (simp add: set_line_def)
    then show ?thesis using True cut_set_line[OF k(2,3) c] by (simp add: get_line_def)
  next
    case False
    have "\<not> contains (write_line (zip ks vs) l) k"
    proof (cases "\<exists>k' \<in> set ks. contains l k'")
      case True
      then obtain k' where "k' \<in> set ks" and k': "contains l k'" by blast
      then obtain v' where kv': "(k', v') \<in> set (zip ks vs)" using keys by force
      then have "key_form k'" "CHR '' '' \<notin> set v'" using all by auto
      then show ?thesis
        using False k(2) k' unfolding one[OF kv' k'] by (intro set_line_other)
    next
      case none: False
      then show ?thesis using False by (subst write_line_absent) (auto simp: keys)
    qed
    then show ?thesis using False by (simp add: get_line_def not_contains)
  qed
qed

lemma write_line_no_nl:
  "set kvs \<subseteq> set ks \<times> Collect plain_value \<Longrightarrow> nl \<notin> set l \<Longrightarrow> nl \<notin> set (write_line kvs l)"
proof (induction kvs arbitrary: l)
  case (Cons kv kvs)
  obtain k v where kv: "kv = (k, v)" by (cases kv)
  with Cons.prems have "k \<in> set ks" "plain_value v" by auto
  then have "nl \<notin> set (set_line k (k @ v) l)"
    using Cons.prems(2) key_facts
    by (auto simp: set_line_def plain_value_def split: option.splits dest: cut_SomeD)
  with Cons show ?case by (simp add: write_line_def kv)
qed (simp add: write_line_def)

lemma split_write_settings:
  assumes "set kvs \<subseteq> set ks \<times> Collect plain_value"
  shows "split_lines (write_settings kvs data) = map (write_line kvs) (split_lines data)"
  using assms write_line_no_nl[OF assms] split_lines_no_nl
  by (subst write_settings_lines) (auto simp: split_lines_join Split_nonempty)

lemma first_field_map:
  "\<forall>l \<in> set ls. get_line k (f l) = (if P l then Some v else None) \<Longrightarrow>
     first_field k (map f ls) = (if \<exists>l \<in> set ls. P l then Some v else None)"
  by (induction ls) auto

lemma read_written_any:
  assumes vs: "length vs = length ks" "\<forall>v \<in> set vs. plain_value v"
    and data: "separated ks data"
    and kv: "(k, v) \<in> set (zip ks vs)"
  shows "read_setting k (write_settings (zip ks vs) data) =
    (if \<exists>l \<in> set (split_lines data). contains l k then Some v else None)"
proof -
  have sub: "set (zip ks vs) \<subseteq> set ks \<times> Collect plain_value"
    using vs(2) by (auto dest: set_zip_leftD set_zip_rightD)
  have lines: "\<forall>l \<in> set (split_lines data).
      get_line k (write_line (zip ks vs) l) = (if contains l k then Some v else None)"
    using get_write_line[OF vs kv] data by (simp add: separated_def)
  moreover have "CHR '' '' \<notin> set v" using vs(2) set_zip_rightD[OF kv] by (simp add: plain_value_def)
  ultimately show ?thesis
    using first_field_map[OF lines]
    by (simp add: read_setting_def split_write_settings[OF sub] takeWhile_absent)
qed

lemma read_written:
  assumes "length vs = length ks" "\<forall>v \<in> set vs. plain_value v"
    and "separated ks data" "all_present ks data"
    and "(k, v) \<in> set (zip ks vs)"
  shows "read_setting k (write_settings (zip ks vs) data) = Some v"
  using read_written_any[OF assms(1-3,5)] assms(4) set_zip_leftD[OF assms(5)]
  by (simp add: all_present_def)

text \<open>Lines that hold none of the keys are the customer's own: they stay as they are.\<close>

lemma other_lines_kept:
  assumes "set kvs \<subseteq> set ks \<times> Collect plain_value" "i < length (split_lines data)"
    and "\<forall>k \<in> set ks. \<not> contains (split_lines data ! i) k"
  shows "split_lines (write_settings kvs data) ! i = split_lines data ! i"
  using assms by (auto simp: split_write_settings intro!: write_line_absent)

text \<open>A check of one setting, in terms of what it reads.\<close>

lemma check_config_read:
  assumes "k \<in> set ks"
  shows "check_config (setting n (k, v)) data =
    (case read_setting k data of None \<Rightarrow> (False, True) | Some v' \<Rightarrow> (v' = v, False))"
proof (cases "first_field k (split_lines data)")
  case None
  then show ?thesis using key_facts[OF assms]
    by (simp add: check_config_def setting_def find_key_lines read_setting_def)
next
  case (Some b)
  obtain w where k: "k = w @ [CHR '' '']" "CHR '' '' \<notin> set w"
    using key_form[OF assms] by (rule key_formD) blast
  from Some have "FindStringSubmatch (key_re k) data = [w @ CHR '' '' # b]"
    using key_facts[OF assms] k(1) by (simp add: find_key_lines)
  then show ?thesis
    using Split_nth_1[OF k(2), of b] Some
    by (simp add: check_config_def setting_def read_setting_def)
qed

lemma check_all_equal:
  assumes "set kvs \<subseteq> set ks \<times> UNIV"
  shows "check_configs (map2 setting ns kvs) data (True, False) = (True, m) \<longleftrightarrow>
    \<not> m \<and> (\<forall>(k, v) \<in> set (map snd (zip ns kvs)). read_setting k data = Some v)"
  using assms
proof (induction ns kvs rule: list_induct2')
  case (4 n ns kv kvs)
  then show ?case
    by (cases kv) (auto simp: check_config_read split: option.splits)
qed auto

end

interpretation splunk: setting_keys "[hecHost, hecPort, hecToken, protocol]"
  by unfold_locales
    (auto simp: key_form_def hecHost_def hecPort_def hecToken_def protocol_def nl_def)

interpretation syslog: setting_keys "[host, port, hostname, tls]"
  by unfold_locales
    (auto simp: key_form_def host_def port_def hostname_def tls_def nl_def)

end
