(* ===== verification/Containers.thy ===== *)
theory Containers
  imports ConfigTemplates ApiTypes
begin

text \<open>
  controllers/resources/containers.go: the containers of the operands, which are package
  variables that the builders of deployments.go modify in place, and the comparison of containers.
  The variables that are written at run time form the record \<open>globals\<close>; the others are constants.
\<close>

definition OperandServiceAccount :: string where
  "OperandServiceAccount = ''ibm-auditlogging-operand''"
definition AuditPolicyServiceAccount :: string where
  "AuditPolicyServiceAccount = ''ibm-audit-policy-controller''"
definition AuditPolicyControllerDeploy :: string where
  "AuditPolicyControllerDeploy = ''audit-policy-controller''"
definition AuditLoggingClientCertSecName :: string where
  "AuditLoggingClientCertSecName = ''audit-certs''"
definition AuditLoggingServerCertSecName :: string where
  "AuditLoggingServerCertSecName = ''audit-server-certs''"

definition PullAlways :: string where
  "PullAlways = ''Always''"
definition PullNever :: string where
  "PullNever = ''Never''"
definition PullIfNotPresent :: string where
  "PullIfNotPresent = ''IfNotPresent''"

definition replicas :: int32 where "replicas = 1"

definition cpu25 :: quantity where
  "cpu25 = NewMilliQuantity 25 DecimalSI"
definition cpu100 :: quantity where
  "cpu100 = NewMilliQuantity 100 DecimalSI"
definition cpu200 :: quantity where
  "cpu200 = NewMilliQuantity 200 DecimalSI"
definition cpu300 :: quantity where
  "cpu300 = NewMilliQuantity 300 DecimalSI"
definition memory100 :: quantity where
  "memory100 = NewQuantity (100 * 1024 * 1024) BinarySI"
definition memory150 :: quantity where
  "memory150 = NewQuantity (150 * 1024 * 1024) BinarySI"
definition memory400 :: quantity where
  "memory400 = NewQuantity (400 * 1024 * 1024) BinarySI"
definition memory450 :: quantity where
  "memory450 = NewQuantity (450 * 1024 * 1024) BinarySI"

definition defaultFluentdResources :: resource_requirements where
  "defaultFluentdResources =
     \<lparr>rr_Limits = maplit [(ResourceCPU, cpu300), (ResourceMemory, memory400)],
      rr_Requests = maplit [(ResourceCPU, cpu25), (ResourceMemory, memory100)]\<rparr>"

definition restrictedSecurityContext :: security_context where
  "restrictedSecurityContext =
     \<lparr>sc_AllowPrivilegeEscalation = Some False, sc_Privileged = Some False,
      sc_ReadOnlyRootFilesystem = Some True, sc_RunAsNonRoot = Some True,
      sc_CapabilitiesDrop = Some (Some [''ALL'']), sc_other = []\<rparr>"

definition commonTolerations :: "toleration slice" where
  "commonTolerations = Some
     [\<lparr>t_Key = ''dedicated'', t_Operator = ''Exists'', t_Effect = ''NoSchedule''\<rparr>,
      \<lparr>t_Key = ''CriticalAddonsOnly'', t_Operator = ''Exists'', t_Effect = []\<rparr>]"

definition init_fluentdMainContainer :: container where
  "init_fluentdMainContainer = zero_container
     \<lparr>c_Image := DefaultImageRegistry @ DefaultFluentdImageName @ '':'' @ DefaultFluentdImageTag,
      c_Name := FluentdName,
      c_ImagePullPolicy := PullIfNotPresent,
      c_Env := Some
        [\<lparr>ev_Name = EnableAuditLogForwardKey, ev_Value = [],
          ev_ConfigMapKeyRef = Some \<lparr>ks_Name = cm_name ConfigName,
                                     ks_Key = EnableAuditLogForwardKey, ks_other = []\<rparr>,
          ev_other = []\<rparr>],
      c_Ports := Some
        [\<lparr>cp_ContainerPort = of_int defaultHTTPPort, cp_Protocol = ''TCP'', cp_other = []\<rparr>],
      c_LivenessProbe := Some
        \<lparr>pr_ExecCommand = Some [''ls'', ''/tmp''], pr_InitialDelaySeconds = 5, pr_TimeoutSeconds = 3,
         pr_PeriodSeconds = 5, pr_SuccessThreshold = 1, pr_FailureThreshold = 3, pr_other = []\<rparr>,
      c_ReadinessProbe := Some
        \<lparr>pr_ExecCommand = Some [''bash'', ''-c'', ''exec echo start''], pr_InitialDelaySeconds = 10,
         pr_TimeoutSeconds = 3, pr_PeriodSeconds = 10, pr_SuccessThreshold = 1,
         pr_FailureThreshold = 3, pr_other = []\<rparr>\<rparr>"

definition init_policyControllerMainContainer :: container where
  "init_policyControllerMainContainer = zero_container
     \<lparr>c_Image := DefaultImageRegistry @ DefaultPCImageName @ '':'' @ DefaultPCImageTag,
      c_Name := AuditPolicyControllerDeploy,
      c_ImagePullPolicy := PullIfNotPresent,
      c_VolumeMounts := Some [zero_mount\<lparr>vm_Name := ''tmp'', vm_MountPath := ''/tmp''\<rparr>],
      c_LivenessProbe := Some
        \<lparr>pr_ExecCommand = Some [''sh'', ''-c'', ''pgrep audit-policy -l''], pr_InitialDelaySeconds = 30,
         pr_TimeoutSeconds = 5, pr_PeriodSeconds = 0, pr_SuccessThreshold = 0,
         pr_FailureThreshold = 0, pr_other = []\<rparr>,
      c_ReadinessProbe := Some
        \<lparr>pr_ExecCommand = Some [''sh'', ''-c'', ''exec echo start audit-policy-controller''],
         pr_InitialDelaySeconds = 10, pr_TimeoutSeconds = 2, pr_PeriodSeconds = 0,
         pr_SuccessThreshold = 0, pr_FailureThreshold = 0, pr_other = []\<rparr>,
      c_Resources :=
        \<lparr>rr_Limits = maplit [(ResourceCPU, cpu200), (ResourceMemory, memory450)],
         rr_Requests = maplit [(ResourceCPU, cpu100), (ResourceMemory, memory150)]\<rparr>,
      c_SecurityContext := Some restrictedSecurityContext\<rparr>"

subsection \<open>Package state\<close>

record globals =
  fluentdMainContainer :: container
  policyControllerMainContainer :: container
  commonVolumes :: "volume slice"

definition init_globals :: globals where
  "init_globals = \<lparr>fluentdMainContainer = init_fluentdMainContainer,
     policyControllerMainContainer = init_policyControllerMainContainer, commonVolumes = Some []\<rparr>"

subsection \<open>Comparison\<close>

definition equalResources :: "quantity_pkg \<Rightarrow> resource_requirements \<Rightarrow> resource_requirements \<Rightarrow> bool" where
  "equalResources q found expected =
     (if \<not> q_Equal q (q_Cpu q (rr_Limits found)) (q_Cpu q (rr_Limits expected)) then False
      else if \<not> q_Equal q (q_Memory q (rr_Limits found)) (q_Memory q (rr_Limits expected)) then False
      else if \<not> q_Equal q (q_Cpu q (rr_Requests found)) (q_Cpu q (rr_Requests expected)) then False
      else if \<not> q_Equal q (q_Memory q (rr_Requests found)) (q_Memory q (rr_Requests expected)) then False
      else True)"

text \<open>The parameter \<open>allowModify\<close> is not used by the code.\<close>

definition EqualContainers :: "quantity_pkg \<Rightarrow> container \<Rightarrow> container \<Rightarrow> bool \<Rightarrow> bool" where
  "EqualContainers q expected found allowModify =
     (if c_Name found \<noteq> c_Name expected then False
      else if c_Image found \<noteq> c_Image expected then False
      else if c_ImagePullPolicy found \<noteq> c_ImagePullPolicy expected then False
      else if c_VolumeMounts found \<noteq> c_VolumeMounts expected then False
      else if c_SecurityContext found \<noteq> c_SecurityContext expected then False
      else if c_Ports found \<noteq> c_Ports expected then False
      else if c_Args found \<noteq> c_Args expected then False
      else if c_Env found \<noteq> c_Env expected then False
      else if \<not> equalResources q (c_Resources found) (c_Resources expected) then False
      else True)"

lemma EqualContainers_iff:
  "EqualContainers q e f m \<longleftrightarrow>
     c_Name f = c_Name e \<and> c_Image f = c_Image e \<and> c_ImagePullPolicy f = c_ImagePullPolicy e \<and>
     c_VolumeMounts f = c_VolumeMounts e \<and> c_SecurityContext f = c_SecurityContext e \<and>
     c_Ports f = c_Ports e \<and> c_Args f = c_Args e \<and> c_Env f = c_Env e \<and>
     equalResources q (c_Resources f) (c_Resources e)"
  by (simp add: EqualContainers_def)

end
