(* ===== verification/NetIP.thy ===== *)
theory NetIP
  imports Prelude
begin

text \<open>
  \<open>net.ParseIP\<close> of the Go standard library, as far as the operator uses it: does a string denote
  an IP address (is the result not nil)? Dotted decimal IPv4, and IPv6 with \<open>::\<close> and a trailing
  embedded IPv4 address; no zone, no leading zeros in a decimal component.
\<close>

definition dec_values :: "(char \<times> nat) list" where
  "dec_values =
     [(CHR ''0'', 0), (CHR ''1'', 1), (CHR ''2'', 2), (CHR ''3'', 3), (CHR ''4'', 4),
      (CHR ''5'', 5), (CHR ''6'', 6), (CHR ''7'', 7), (CHR ''8'', 8), (CHR ''9'', 9)]"

definition hex_values :: "(char \<times> nat) list" where
  "hex_values = dec_values @
     [(CHR ''a'', 10), (CHR ''b'', 11), (CHR ''c'', 12), (CHR ''d'', 13), (CHR ''e'', 14), (CHR ''f'', 15),
      (CHR ''A'', 10), (CHR ''B'', 11), (CHR ''C'', 12), (CHR ''D'', 13), (CHR ''E'', 14), (CHR ''F'', 15)]"

text \<open>
  \<open>dtoi\<close> and \<open>xtoi\<close>: the number at the start of a string and the number of characters it takes;
  \<open>None\<close> when there is no digit or the number reaches \<open>0xFFFFFF\<close>.
\<close>

fun dtoi_loop :: "string \<Rightarrow> nat \<Rightarrow> nat \<Rightarrow> (nat \<times> nat) option" where
  "dtoi_loop [] n i = Some (n, i)"
| "dtoi_loop (c # cs) n i =
     (case map_of dec_values c of None \<Rightarrow> Some (n, i)
      | Some d \<Rightarrow> (let n' = n * 10 + d
                   in if n' \<ge> 16777215 then None else dtoi_loop cs n' (Suc i)))"

definition dtoi :: "string \<Rightarrow> (nat \<times> nat) option" where
  "dtoi s = (case dtoi_loop s 0 0 of None \<Rightarrow> None
     | Some (n, i) \<Rightarrow> if i = 0 then None else Some (n, i))"

fun xtoi_loop :: "string \<Rightarrow> nat \<Rightarrow> nat \<Rightarrow> (nat \<times> nat) option" where
  "xtoi_loop [] n i = Some (n, i)"
| "xtoi_loop (c # cs) n i =
     (case map_of hex_values c of None \<Rightarrow> Some (n, i)
      | Some d \<Rightarrow> (let n' = n * 16 + d
                   in if n' \<ge> 16777215 then None else xtoi_loop cs n' (Suc i)))"

definition xtoi :: "string \<Rightarrow> (nat \<times> nat) option" where
  "xtoi s = (case xtoi_loop s 0 0 of None \<Rightarrow> None
     | Some (n, i) \<Rightarrow> if i = 0 then None else Some (n, i))"

text \<open>The loop of \<open>parseIPv4\<close> from component \<open>4 - k\<close> on.\<close>

fun ipv4_loop :: "nat \<Rightarrow> bool \<Rightarrow> string \<Rightarrow> bool" where
  "ipv4_loop 0 first s = (s = [])"
| "ipv4_loop (Suc k) first s =
     (if s = [] then False
      else if \<not> first \<and> hd s \<noteq> CHR ''.'' then False
      else let s' = (if first then s else tl s)
           in case dtoi s' of None \<Rightarrow> False
              | Some (n, c) \<Rightarrow>
                  if n > 255 then False
                  else if c > 1 \<and> hd s' = CHR ''0'' then False
                  else ipv4_loop k False (drop c s'))"

definition parseIPv4 :: "string \<Rightarrow> bool" where
  "parseIPv4 s = ipv4_loop 4 True s"

text \<open>
  The loop of \<open>parseIPv6\<close>: \<open>i\<close> bytes are parsed, \<open>ell\<close> tells whether \<open>::\<close> was seen. The counter
  is the number of groups that may still follow; after the loop all of the string must be read,
  and \<open>::\<close> stands for at least one group.
\<close>

definition ipv6_end :: "nat \<Rightarrow> bool \<Rightarrow> string \<Rightarrow> bool" where
  "ipv6_end i ell s \<longleftrightarrow> s = [] \<and> (if i < 16 then ell else \<not> ell)"

fun ipv6_loop :: "nat \<Rightarrow> nat \<Rightarrow> bool \<Rightarrow> string \<Rightarrow> bool" where
  "ipv6_loop 0 i ell s = ipv6_end i ell s"
| "ipv6_loop (Suc k) i ell s =
     (case xtoi s of None \<Rightarrow> False
      | Some (n, c) \<Rightarrow>
          if n > 65535 then False
          else if c < length s \<and> s ! c = CHR ''.''
          then (if \<not> ell \<and> i \<noteq> 12 then False
                else if i + 4 > 16 then False
                else parseIPv4 s \<and> ipv6_end (i + 4) ell [])
          else let s = drop c s; i = i + 2
               in if s = [] then ipv6_end i ell s
                  else if hd s \<noteq> CHR '':'' \<or> length s = 1 then False
                  else let s = tl s
                       in if hd s = CHR '':''
                          then (if ell then False
                                else let s = tl s
                                     in if s = [] then ipv6_end i True s
                                        else ipv6_loop k i True s)
                          else ipv6_loop k i ell s)"

definition parseIPv6 :: "string \<Rightarrow> bool" where
  "parseIPv6 s =
     (if length s \<ge> 2 \<and> s ! 0 = CHR '':'' \<and> s ! 1 = CHR '':''
      then (if length s = 2 then True else ipv6_loop 8 0 True (drop 2 s))
      else ipv6_loop 8 0 False s)"

text \<open>The first dot or colon decides which of the two forms is tried.\<close>

definition ParseIP :: "string \<Rightarrow> bool" where
  "ParseIP s =
     (case dropWhile (\<lambda>c. c \<noteq> CHR ''.'' \<and> c \<noteq> CHR '':'') s of
        [] \<Rightarrow> False
      | c # _ \<Rightarrow> if c = CHR ''.'' then parseIPv4 s else parseIPv6 s)"

lemmas ParseIP_eval = ParseIP_def parseIPv4_def parseIPv6_def ipv6_end_def dtoi_def xtoi_def
  dec_values_def hex_values_def

end
