(* ===== verification/Workloads.thy ===== *)
theory Workloads
  imports Containers NetIP
begin

text \<open>
  controllers/resources/deployments.go and job.go: the Deployments, the DaemonSet and the Job of the
  operands, and the comparisons that decide whether a found workload has to be updated. A builder
  takes the package state and returns the object with the new state; \<open>None\<close> is a run-time panic.
\<close>

definition architectureList :: "string list" where
  "architectureList = [''amd64'', ''ppc64le'', ''s390x'']"
definition seconds30 :: int where "seconds30 = 30"
definition defaultReplicas :: int32 where "defaultReplicas = 1"
definition FluentdDeploymentName :: string where
  "FluentdDeploymentName = ''audit-logging-fluentd''"
definition fluentdInput :: string where
  "fluentdInput = ''/fluentd/etc/source.conf''"
definition qRadarOutput :: string where
  "qRadarOutput = ''/fluentd/etc/remoteSyslog.conf''"
definition splunkOutput :: string where
  "splunkOutput = ''/fluentd/etc/splunkHEC.conf''"

definition commonNodeAffinity :: "match_expression slice slice" where
  "commonNodeAffinity = Some [Some [\<lparr>me_Key = ''kubernetes.io/arch'', me_Operator = ''In'',
     me_Values = Some architectureList\<rparr>]]"

subsection \<open>Parts of the builders\<close>

fun getPullPolicy :: "string \<Rightarrow> string" where
  "getPullPolicy pullPolicy =
     (if pullPolicy = ''Always'' then PullAlways
      else if pullPolicy = ''PullNever'' then PullNever
      else PullIfNotPresent)"

text \<open>One half of \<open>buildResources\<close>: the non-zero CPU and memory of a list replace the defaults.\<close>

definition override_resources ::
    "quantity_pkg \<Rightarrow> resource_list \<Rightarrow> resource_list \<Rightarrow> resource_list option" where
  "override_resources q requested target =
     (if requested = None then Some target
      else let cpu = q_Cpu q requested
           in case (if \<not> q_IsZero q cpu then mset_at target ResourceCPU cpu else Some target) of
                None \<Rightarrow> None
              | Some target' \<Rightarrow>
                  (let memory = q_Memory q requested
                   in if \<not> q_IsZero q memory then mset_at target' ResourceMemory memory
                      else Some target'))"

definition buildResources ::
    "quantity_pkg \<Rightarrow> resource_requirements \<Rightarrow> resource_requirements \<Rightarrow> resource_requirements option" where
  "buildResources q requestedResources defaultResources =
     (case override_resources q (rr_Limits requestedResources) (rr_Limits defaultResources) of
        None \<Rightarrow> None
      | Some limits \<Rightarrow>
          (case override_resources q (rr_Requests requestedResources) (rr_Requests defaultResources) of
             None \<Rightarrow> None
           | Some requests \<Rightarrow> Some \<lparr>rr_Limits = limits, rr_Requests = requests\<rparr>))"

definition cm_volume :: "string \<Rightarrow> string \<Rightarrow> string \<Rightarrow> volume" where
  "cm_volume name cmName key =
     \<lparr>v_Name = name, v_Source = VConfigMap \<lparr>cmv_Name = cm_name cmName, cmv_Items = Some [(key, key)]\<rparr>\<rparr>"

definition buildFluentdDeploymentVolumes :: "volume slice" where
  "buildFluentdDeploymentVolumes = Some
     [cm_volume FluentdConfigName ConfigName FluentdConfigKey,
      cm_volume SourceConfigName SourceConfigName SourceConfigKey,
      cm_volume QRadarConfigName QRadarConfigName QRadarConfigKey,
      cm_volume SplunkConfigName SplunkConfigName SplunkConfigKey,
      \<lparr>v_Name = ''shared'', v_Source = VEmptyDir\<rparr>,
      \<lparr>v_Name = AuditLoggingClientCertSecName, v_Source = VSecret AuditLoggingClientCertSecName\<rparr>,
      \<lparr>v_Name = AuditLoggingServerCertSecName, v_Source = VSecret AuditLoggingServerCertSecName\<rparr>]"

definition mount :: "string \<Rightarrow> string \<Rightarrow> string \<Rightarrow> bool \<Rightarrow> volume_mount" where
  "mount name path subPath readOnly = zero_mount
     \<lparr>vm_Name := name, vm_MountPath := path, vm_SubPath := subPath, vm_ReadOnly := readOnly\<rparr>"

definition buildFluentdDeploymentVolumeMounts :: "volume_mount slice" where
  "buildFluentdDeploymentVolumeMounts = Some
     [mount FluentdConfigName (''/fluentd/etc/'' @ FluentdConfigKey) FluentdConfigKey False,
      mount SourceConfigName fluentdInput SourceConfigKey False,
      mount QRadarConfigName qRadarOutput QRadarConfigKey False,
      mount SplunkConfigName splunkOutput SplunkConfigKey False,
      mount ''shared'' ''/tmp'' [] False,
      mount AuditLoggingClientCertSecName ''/fluentd/etc/tls'' [] True,
      mount AuditLoggingServerCertSecName ''/fluentd/etc/https'' [] True]"

definition buildDaemonsetVolumes :: "AuditLogging \<Rightarrow> volume slice" where
  "buildDaemonsetVolumes inst = Some
     [cm_volume FluentdConfigName ConfigName FluentdConfigKey,
      cm_volume SourceConfigName SourceConfigName SourceConfigKey,
      cm_volume QRadarConfigName QRadarConfigName QRadarConfigKey,
      cm_volume SplunkConfigName SplunkConfigName SplunkConfigKey,
      \<lparr>v_Name = ''shared'', v_Source = VEmptyDir\<rparr>,
      \<lparr>v_Name = AuditLoggingClientCertSecName, v_Source = VSecret AuditLoggingClientCertSecName\<rparr>,
      \<lparr>v_Name = AuditLoggingServerCertSecName, v_Source = VSecret AuditLoggingServerCertSecName\<rparr>]"

definition buildDaemonsetVolumeMounts :: "AuditLogging \<Rightarrow> volume_mount slice" where
  "buildDaemonsetVolumeMounts inst = Some
     [mount FluentdConfigName (''/fluentd/etc/'' @ FluentdConfigKey) FluentdConfigKey False,
      mount SourceConfigName fluentdInput SourceConfigKey False,
      mount QRadarConfigName qRadarOutput QRadarConfigKey False,
      mount SplunkConfigName splunkOutput SplunkConfigKey False,
      mount ''shared'' ''/icp-audit'' [] False,
      mount ''shared'' ''/tmp'' [] False,
      mount AuditLoggingClientCertSecName ''/fluentd/etc/tls'' [] True,
      mount AuditLoggingServerCertSecName ''/fluentd/etc/https'' [] True]"

text \<open>The loop over the host aliases of the resource: an invalid address is skipped.\<close>

fun valid_host_aliases :: "CommonAuditSpecHostAliases list \<Rightarrow> host_alias list" where
  "valid_host_aliases [] = []"
| "valid_host_aliases (hostAlias # rest) =
     (if ParseIP (HostIP hostAlias)
      then \<lparr>ha_IP = HostIP hostAlias, ha_Hostnames = Hostnames hostAlias\<rparr> # valid_host_aliases rest
      else valid_host_aliases rest)"

definition build_host_aliases :: "CommonAuditSpecHostAliases slice \<Rightarrow> host_alias slice" where
  "build_host_aliases hostAliases =
     (if length (elems hostAliases) > 0 then Some (valid_host_aliases (elems hostAliases)) else None)"

subsection \<open>Builders\<close>

definition policy_args :: "AuditLogging \<Rightarrow> string list" where
  "policy_args inst =
     (if Verbosity (al_policy inst) \<noteq> [] then [''--v='' @ Verbosity (al_policy inst)] else [''--v=0''])
     @ (if Frequency (al_policy inst) \<noteq> []
        then [''--update-frequency='' @ Frequency (al_policy inst)] else [])"

definition BuildDeploymentForPolicyController ::
    "environ \<Rightarrow> AuditLogging \<Rightarrow> string \<Rightarrow> globals \<Rightarrow> deployment \<times> globals" where
  "BuildDeploymentForPolicyController env inst namespace g =
     (let metaLabels = LabelsForMetadata AuditPolicyControllerDeploy;
          selectorLabels = LabelsForSelector AuditPolicyControllerDeploy (al_Name inst);
          podLabels = LabelsForPodMetadata AuditPolicyControllerDeploy (al_Name inst);
          annotations = AnnotationsForMetering;
          c = (policyControllerMainContainer g)
                \<lparr>c_Image := Getenv env ''AUDIT_POLICY_CONTROLLER_IMAGE'',
                 c_ImagePullPolicy := getPullPolicy (pc_PullPolicy (al_policy inst)),
                 c_Args := Some (policy_args inst)\<rparr>;
          deploy = \<lparr>d_Meta = zero_meta\<lparr>m_Name := AuditPolicyControllerDeploy, m_Namespace := namespace,
                                        m_Labels := metaLabels\<rparr>,
             d_Spec = \<lparr>ds_MatchLabels = selectorLabels, ds_Replicas = Some replicas,
               ds_Template = \<lparr>pt_Meta = zero_meta\<lparr>m_Labels := podLabels, m_Annotations := annotations\<rparr>,
                 pt_Spec = zero_pod_spec
                   \<lparr>ps_ServiceAccountName := AuditPolicyServiceAccount,
                    ps_TerminationGracePeriodSeconds := Some seconds30,
                    ps_Affinity := Some \<lparr>af_NodeSelectorTerms = Some commonNodeAffinity,
                                         af_PodAntiAffinity = None\<rparr>,
                    ps_Tolerations := commonTolerations,
                    ps_Volumes := Some [\<lparr>v_Name = ''tmp'', v_Source = VEmptyDir\<rparr>],
                    ps_Containers := Some [c]\<rparr>\<rparr>,
               ds_other = []\<rparr>\<rparr>
      in (deploy, g\<lparr>policyControllerMainContainer := c\<rparr>))"

definition BuildDeploymentForFluentd ::
    "environ \<Rightarrow> quantity_pkg \<Rightarrow> CommonAudit \<Rightarrow> globals \<Rightarrow> (deployment \<times> globals) option" where
  "BuildDeploymentForFluentd env q inst g =
     (let metaLabels = LabelsForMetadata FluentdName;
          selectorLabels = LabelsForSelector FluentdName (ca_Name inst);
          podLabels = LabelsForPodMetadata FluentdName (ca_Name inst);
          annotations = AnnotationsForMetering;
          volumes = buildFluentdDeploymentVolumes;
          c = (fluentdMainContainer g)
                \<lparr>c_VolumeMounts := buildFluentdDeploymentVolumeMounts,
                 c_Image := Getenv env ''FLUENTD_IMAGE'',
                 c_ImagePullPolicy := getPullPolicy (caf_PullPolicy (ca_Fluentd (ca_Spec inst))),
                 c_SecurityContext := Some restrictedSecurityContext\<rparr>;
          replicas = (if sint (ca_Replicas (ca_Spec inst)) > 0 then ca_Replicas (ca_Spec inst)
                      else defaultReplicas)
      in case buildResources q (caf_Resources (ca_Fluentd (ca_Spec inst))) defaultFluentdResources of
           None \<Rightarrow> None
         | Some resources \<Rightarrow>
             (let c = c\<lparr>c_Resources := resources\<rparr>;
                  deploy = \<lparr>d_Meta = zero_meta\<lparr>m_Name := FluentdDeploymentName,
                                       m_Namespace := ca_Namespace inst, m_Labels := metaLabels\<rparr>,
                    d_Spec = \<lparr>ds_MatchLabels = selectorLabels, ds_Replicas = Some replicas,
                      ds_Template =
                        \<lparr>pt_Meta = zero_meta\<lparr>m_Labels := podLabels, m_Annotations := annotations\<rparr>,
                         pt_Spec = zero_pod_spec
                           \<lparr>ps_ServiceAccountName := OperandServiceAccount,
                            ps_TerminationGracePeriodSeconds := Some seconds30,
                            ps_Affinity := Some
                              \<lparr>af_NodeSelectorTerms = Some commonNodeAffinity,
                               af_PodAntiAffinity = Some (Some
                                 [\<lparr>pat_MatchExpressions = Some
                                     [\<lparr>me_Key = ''app.kubernetes.io/name'', me_Operator = ''In'',
                                       me_Values = Some [FluentdName]\<rparr>],
                                   pat_TopologyKey = ''kubernetes.io/hostname''\<rparr>])\<rparr>,
                            ps_Tolerations := commonTolerations,
                            ps_Volumes := volumes,
                            ps_Containers := Some [c],
                            ps_HostAliases :=
                              build_host_aliases (HostAliases (ca_Outputs (ca_Spec inst)))\<rparr>\<rparr>,
                      ds_other = []\<rparr>\<rparr>
              in Some (deploy, g\<lparr>fluentdMainContainer := c\<rparr>)))"

definition BuildDaemonForFluentd ::
    "environ \<Rightarrow> quantity_pkg \<Rightarrow> AuditLogging \<Rightarrow> string \<Rightarrow> globals \<Rightarrow> (daemonset \<times> globals) option" where
  "BuildDaemonForFluentd env q inst namespace g =
     (let metaLabels = LabelsForMetadata FluentdName;
          selectorLabels = LabelsForSelector FluentdName (al_Name inst);
          podLabels = LabelsForPodMetadata FluentdName (al_Name inst);
          annotations = AnnotationsForMetering;
          g = g\<lparr>commonVolumes := buildDaemonsetVolumes inst\<rparr>;
          c = (fluentdMainContainer g)
                \<lparr>c_VolumeMounts := buildDaemonsetVolumeMounts inst,
                 c_Image := Getenv env ''FLUENTD_IMAGE'',
                 c_ImagePullPolicy := getPullPolicy (alf_PullPolicy (al_Fluentd (al_Spec inst))),
                 c_SecurityContext := Some restrictedSecurityContext\<rparr>
      in case buildResources q (alf_Resources (al_Fluentd (al_Spec inst))) defaultFluentdResources of
           None \<Rightarrow> None
         | Some resources \<Rightarrow>
             (let c = c\<lparr>c_Resources := resources\<rparr>;
                  daemon = \<lparr>dset_Meta = zero_meta\<lparr>m_Name := FluentdDaemonSetName,
                                       m_Namespace := namespace, m_Labels := metaLabels\<rparr>,
                    dset_Spec = \<lparr>dss_MatchLabels = selectorLabels,
                      dss_UpdateStrategyType = ''RollingUpdate'', dss_MaxUnavailable = Some 1,
                      dss_MinReadySeconds = 5,
                      dss_Template =
                        \<lparr>pt_Meta = zero_meta\<lparr>m_Labels := podLabels, m_Annotations := annotations\<rparr>,
                         pt_Spec = zero_pod_spec
                           \<lparr>ps_ServiceAccountName := OperandServiceAccount,
                            ps_TerminationGracePeriodSeconds := Some seconds30,
                            ps_Affinity := Some \<lparr>af_NodeSelectorTerms = Some commonNodeAffinity,
                                                 af_PodAntiAffinity = None\<rparr>,
                            ps_Tolerations := commonTolerations,
                            ps_Volumes := commonVolumes g,
                            ps_Containers := Some [c]\<rparr>\<rparr>,
                      dss_other = []\<rparr>\<rparr>
              in Some (daemon, g\<lparr>fluentdMainContainer := c\<rparr>)))"

subsection \<open>The clean-up job (job.go)\<close>

definition jobServiceAccountName :: string where
  "jobServiceAccountName = ''ibm-auditlogging-cleanup''"
definition JobName :: string where
  "JobName = ''audit-logging-cleanup''"
definition jobNamespaceEnvVar :: string where
  "jobNamespaceEnvVar = ''CR_NAMESPACE''"

definition buildJobContainer :: "environ \<Rightarrow> string \<Rightarrow> container slice" where
  "buildJobContainer env namespace = Some
     [zero_container
        \<lparr>c_Name := JobName,
         c_Image := Getenv env ''AUDIT_GARBAGE_COLLECTOR_IMAGE'',
         c_ImagePullPolicy := PullAlways,
         c_SecurityContext := Some restrictedSecurityContext,
         c_Resources :=
           \<lparr>rr_Limits = maplit [(ResourceCPU, cpu25), (ResourceMemory, memory100)],
            rr_Requests = maplit [(ResourceCPU, cpu25), (ResourceMemory, memory100)]\<rparr>,
         c_Command := Some [''/manager''],
         c_Env := Some [\<lparr>ev_Name = jobNamespaceEnvVar, ev_Value = namespace,
                         ev_ConfigMapKeyRef = None, ev_other = []\<rparr>]\<rparr>]"

definition BuildJobForAuditLogging :: "environ \<Rightarrow> AuditLogging \<Rightarrow> string \<Rightarrow> job" where
  "BuildJobForAuditLogging env inst namespace =
     (let metaLabels = LabelsForMetadata JobName;
          podLabels = LabelsForPodMetadata JobName (al_Name inst);
          annotations = AnnotationsForMetering
      in \<lparr>j_Meta = zero_meta\<lparr>m_Name := JobName, m_Namespace := namespace, m_Labels := metaLabels\<rparr>,
          j_Template =
            \<lparr>pt_Meta = zero_meta\<lparr>m_Labels := podLabels, m_Annotations := annotations\<rparr>,
             pt_Spec = zero_pod_spec
               \<lparr>ps_ServiceAccountName := jobServiceAccountName,
                ps_RestartPolicy := ''OnFailure'',
                ps_Tolerations := commonTolerations,
                ps_Affinity := Some \<lparr>af_NodeSelectorTerms = Some commonNodeAffinity,
                                     af_PodAntiAffinity = None\<rparr>,
                ps_Containers := buildJobContainer env namespace\<rparr>\<rparr>,
          j_other = []\<rparr>)"

subsection \<open>Comparison\<close>

fun host_aliases_loop :: "host_alias list \<Rightarrow> host_alias list \<Rightarrow> bool" where
  "host_aliases_loop (f # found) (e # expected) =
     (if ha_IP f \<noteq> ha_IP e then False
      else if ha_Hostnames f \<noteq> ha_Hostnames e then False
      else host_aliases_loop found expected)"
| "host_aliases_loop _ _ = True"

definition equalHostAliases :: "host_alias slice \<Rightarrow> host_alias slice \<Rightarrow> bool" where
  "equalHostAliases found expected =
     (if (found = None) \<noteq> (expected = None) then False
      else if length (elems found) \<noteq> length (elems expected) then False
      else host_aliases_loop (elems found) (elems expected))"

text \<open>\<open>None\<close> is the panic of \<open>Containers[0]\<close> on two empty lists of containers.\<close>

definition EqualPods :: "quantity_pkg \<Rightarrow> pod_template \<Rightarrow> pod_template \<Rightarrow> bool \<Rightarrow> bool option" where
  "EqualPods q expected found allowModify =
     (if \<not> EqualAnnotations (m_Annotations (pt_Meta found)) (m_Annotations (pt_Meta expected)) then Some False
      else if ps_ServiceAccountName (pt_Spec found) \<noteq> ps_ServiceAccountName (pt_Spec expected) then Some False
      else if \<not> allowModify
              \<and> \<not> equalHostAliases (ps_HostAliases (pt_Spec found)) (ps_HostAliases (pt_Spec expected))
           then Some False
      else if length (elems (ps_Containers (pt_Spec found)))
              \<noteq> length (elems (ps_Containers (pt_Spec expected))) then Some False
      else case (elems (ps_Containers (pt_Spec expected)), elems (ps_Containers (pt_Spec found))) of
             (e # _, f # _) \<Rightarrow> Some (EqualContainers q e f allowModify)
           | _ \<Rightarrow> None)"

definition EqualDeployments :: "quantity_pkg \<Rightarrow> deployment \<Rightarrow> deployment \<Rightarrow> bool \<Rightarrow> bool option" where
  "EqualDeployments q expected found allowModify =
     (if ds_Replicas (d_Spec expected) \<noteq> ds_Replicas (d_Spec found) then Some False
      else EqualPods q (ds_Template (d_Spec expected)) (ds_Template (d_Spec found)) allowModify)"

definition EqualDaemonSets :: "quantity_pkg \<Rightarrow> daemonset \<Rightarrow> daemonset \<Rightarrow> bool option" where
  "EqualDaemonSets q expected found =
     EqualPods q (dss_Template (dset_Spec expected)) (dss_Template (dset_Spec found)) True"

end
