(* ===== verification/Resources.thy ===== *)
theory Resources
  imports Containers
begin

text \<open>
  The remaining builders of controllers/resources: certificates.go, issuers.go, secret.go, service.go
  and rbac.go. The comparisons \<open>EqualCerts\<close>, \<open>EqualIssuers\<close>, \<open>EqualServices\<close>, \<open>EqualRoles\<close> and
  \<open>EqualRoleBindings\<close> of the code are true when the objects \<^emph>\<open>differ\<close>.
\<close>

subsection \<open>certificates.go\<close>

definition AuditLoggingHTTPSCertName :: string where
  "AuditLoggingHTTPSCertName = ''fluentd-https''"
definition AuditLoggingCertName :: string where
  "AuditLoggingCertName = ''fluentd''"
definition DefaultIssuer :: string where
  "DefaultIssuer = ''cs-ca-issuer''"
definition RootCert :: string where
  "RootCert = ''audit-root-ca-cert''"
definition GodIssuer :: string where
  "GodIssuer = ''audit-god-issuer''"
definition RootIssuer :: string where
  "RootIssuer = ''audit-root-ca-issuer''"
definition defaultDuration :: int where "defaultDuration = 17520"
definition IssuerKind :: string where
  "IssuerKind = ''Issuer''"

definition Hour :: int where  \<comment> \<open>\<open>time.Hour\<close>\<close>
  "Hour = 3600 * 1000000000"

definition zero_cert_spec :: certificate_spec where
  "zero_cert_spec = \<lparr>cs_CommonName = [], cs_SecretName = [], cs_DNSNames = None, cs_IssuerName = [],
     cs_IssuerKind = [], cs_IsCA = False, cs_Duration = None, cs_other = []\<rparr>"

definition BuildCertsForAuditLogging :: "string \<Rightarrow> string \<Rightarrow> string \<Rightarrow> certificate" where
  "BuildCertsForAuditLogging namespace issuer name =
     (let metaLabels = LabelsForMetadata FluentdName;
          certIssuer = (if issuer \<noteq> [] then issuer else DefaultIssuer);
          spec = zero_cert_spec\<lparr>cs_CommonName := name, cs_IssuerName := certIssuer,
                                 cs_IssuerKind := IssuerKind\<rparr>;
          spec = (if name = AuditLoggingHTTPSCertName
                  then spec\<lparr>cs_SecretName := AuditLoggingServerCertSecName,
                            cs_DNSNames := Some
                              [AuditLoggingComponentName,
                               AuditLoggingComponentName @ ''.'' @ namespace,
                               AuditLoggingComponentName @ ''.'' @ namespace @ ''.svc.cluster.local'']\<rparr>
                  else spec\<lparr>cs_SecretName := AuditLoggingClientCertSecName\<rparr>)
      in \<lparr>ct_Meta = zero_meta\<lparr>m_Name := name, m_Namespace := namespace, m_Labels := metaLabels\<rparr>,
          ct_Spec = spec\<rparr>)"

definition BuildRootCACert :: "string \<Rightarrow> certificate" where
  "BuildRootCACert namespace =
     (let metaLabels = LabelsForMetadata FluentdName
      in \<lparr>ct_Meta = zero_meta\<lparr>m_Name := RootCert, m_Namespace := namespace, m_Labels := metaLabels\<rparr>,
          ct_Spec = zero_cert_spec
            \<lparr>cs_SecretName := RootCert, cs_IsCA := True, cs_CommonName := RootCert,
             cs_IssuerName := GodIssuer, cs_IssuerKind := IssuerKind,
             cs_Duration := Some (Hour * defaultDuration)\<rparr>\<rparr>)"

definition EqualCerts :: "certificate \<Rightarrow> certificate \<Rightarrow> bool" where
  "EqualCerts expected found \<longleftrightarrow> ct_Spec found \<noteq> ct_Spec expected"

subsection \<open>issuers.go\<close>

definition BuildGodIssuer :: "string \<Rightarrow> issuer" where
  "BuildGodIssuer namespace =
     (let metaLabels = LabelsForMetadata FluentdName
      in \<lparr>i_Meta = zero_meta\<lparr>m_Name := GodIssuer, m_Namespace := namespace, m_Labels := metaLabels\<rparr>,
          i_Spec = \<lparr>is_SelfSigned = True, is_CA = None, is_other = []\<rparr>\<rparr>)"

definition BuildRootCAIssuer :: "string \<Rightarrow> issuer" where
  "BuildRootCAIssuer namespace =
     (let metaLabels = LabelsForMetadata FluentdName
      in \<lparr>i_Meta = zero_meta\<lparr>m_Name := RootIssuer, m_Namespace := namespace, m_Labels := metaLabels\<rparr>,
          i_Spec = \<lparr>is_SelfSigned = False, is_CA = Some RootCert, is_other = []\<rparr>\<rparr>)"

definition EqualIssuers :: "issuer \<Rightarrow> issuer \<Rightarrow> bool" where
  "EqualIssuers expected found \<longleftrightarrow> i_Spec expected \<noteq> i_Spec found"

subsection \<open>secret.go\<close>

definition splunkKey :: string where
  "splunkKey = ''splunkCA.pem''"
definition qRadarKey :: string where
  "qRadarKey = ''qradar.crt''"

definition BuildSecret :: "CommonAudit \<Rightarrow> secret" where
  "BuildSecret inst =
     (let metaLabels = LabelsForMetadata FluentdName
      in \<lparr>se_Meta = zero_meta\<lparr>m_Name := AuditLoggingClientCertSecName, m_Namespace := ca_Namespace inst,
                              m_Labels := metaLabels\<rparr>,
          se_Data = maplit [(splunkKey, []), (qRadarKey, [])]\<rparr>)"

subsection \<open>service.go\<close>

definition service_port_of :: "string \<Rightarrow> int \<Rightarrow> service_port" where
  "service_port_of name p = \<lparr>sp_Name = name, sp_Protocol = ''TCP'', sp_Port = of_int p,
     sp_TargetPort = of_int p, sp_other = []\<rparr>"

definition BuildAuditService :: "string \<Rightarrow> string \<Rightarrow> service" where
  "BuildAuditService instanceName namespace =
     (let metaLabels = LabelsForMetadata FluentdName;
          selectorLabels = LabelsForSelector FluentdName instanceName
      in \<lparr>sv_Meta = zero_meta\<lparr>m_Name := AuditLoggingComponentName, m_Namespace := namespace,
                              m_Labels := metaLabels\<rparr>,
          sv_Type = ''ClusterIP'',
          sv_Ports = Some
            [service_port_of AuditLoggingComponentName defaultHTTPPort,
             service_port_of (AuditLoggingComponentName @ ''-syslog'') defaultSyslogPort],
          sv_Selector = selectorLabels, sv_other = []\<rparr>)"

definition EqualServices :: "service \<Rightarrow> service \<Rightarrow> bool" where
  "EqualServices expected found \<longleftrightarrow> sv_Ports found \<noteq> sv_Ports expected"

subsection \<open>rbac.go\<close>

definition BuildServiceAccount :: "string \<Rightarrow> service_account" where
  "BuildServiceAccount namespace =
     (let metaLabels = LabelsForMetadata OperandServiceAccount
      in \<lparr>sa_Meta = zero_meta\<lparr>m_Name := OperandServiceAccount, m_Namespace := namespace,
                              m_Labels := metaLabels\<rparr>\<rparr>)"

definition EqualRoles :: "role \<Rightarrow> role \<Rightarrow> bool" where
  "EqualRoles expected found \<longleftrightarrow> ro_Rules found \<noteq> ro_Rules expected"

definition EqualRoleBindings :: "role_binding \<Rightarrow> role_binding \<Rightarrow> bool" where
  "EqualRoleBindings expected found \<longleftrightarrow>
     rb_Subjects found \<noteq> rb_Subjects expected \<or> rb_RoleRef found \<noteq> rb_RoleRef expected"

end
