(* ===== verification/Client.thy ===== *)
theory Client
  imports Workloads Resources ConfigMapsV1
begin

text \<open>
  What the reconcilers need from the outside, and the shape they share. The API client
  (\<open>sigs.k8s.io/controller-runtime\<close>), the event recorder and \<open>SetControllerReference\<close> are not part of
  the repository: they are the fields of the record \<open>reconciler\<close>, a parameter of every reconcile
  function, over a type \<open>'w\<close> of states of the world. Every call returns the world it leaves, so a
  call may fail, and anything else in the cluster may change in between.

  The second half holds the patterns that every reconcile function of reconcile_commonaudit.go and
  reconcile_auditlogging.go repeats: get the object; create it when it is not found; otherwise compare
  it with the expected object and update it; requeue after every change.
\<close>

subsection \<open>Results and errors\<close>

datatype api_error = NotFound | AlreadyExists | OtherError string

fun IsNotFound :: "api_error \<Rightarrow> bool" where
  "IsNotFound NotFound = True"
| "IsNotFound _ = False"

fun IsAlreadyExists :: "api_error \<Rightarrow> bool" where
  "IsAlreadyExists AlreadyExists = True"
| "IsAlreadyExists _ = False"

text \<open>
  \<open>(reconcile.Result, error)\<close>: \<open>Done\<close> is \<open>(Result{}, nil)\<close>, \<open>Requeue\<close> is
  \<open>(Result{Requeue: true}, nil)\<close>, \<open>Failed e\<close> is \<open>(Result{}, e)\<close>; the code has no other results.
  \<open>Panicked\<close> is a run-time panic.
\<close>

datatype outcome = Done | Requeue | Failed api_error | Panicked

text \<open>The test \<open>recErr != nil || recResult.Requeue\<close> (a panic does not get there).\<close>

definition stops :: "outcome \<Rightarrow> bool" where
  "stops res \<longleftrightarrow> res \<noteq> Done"

subsection \<open>The API client\<close>

record ('w, 'o) ops =
  op_get :: "nsname \<Rightarrow> 'w \<Rightarrow> (api_error + 'o) \<times> 'w"
  op_create :: "'o \<Rightarrow> 'w \<Rightarrow> api_error option \<times> 'w"
  op_update :: "'o \<Rightarrow> 'w \<Rightarrow> api_error option \<times> 'w"
  op_delete :: "'o \<Rightarrow> 'w \<Rightarrow> api_error option \<times> 'w"

record 'w client =
  cl_configmaps :: "('w, configmap) ops"
  cl_secrets :: "('w, secret) ops"
  cl_services :: "('w, service) ops"
  cl_accounts :: "('w, service_account) ops"
  cl_deployments :: "('w, deployment) ops"
  cl_daemonsets :: "('w, daemonset) ops"
  cl_jobs :: "('w, job) ops"
  cl_issuers :: "('w, issuer) ops"
  cl_certs :: "('w, certificate) ops"
  cl_list_pods :: "string \<Rightarrow> labels \<Rightarrow> 'w \<Rightarrow> (api_error + pod list) \<times> 'w"
  cl_delete_pod :: "pod \<Rightarrow> 'w \<Rightarrow> api_error option \<times> 'w"

datatype event_type = EventTypeNormal | EventTypeWarning

record event =
  e_About :: nsname
  e_Type :: event_type
  e_Reason :: string
  e_Message :: string

text \<open>
  Requests about the custom resources. \<open>Status().Update\<close> returns the object as the server has
  stored it, which the client writes into the caller's object. An \<open>AuditLogging\<close> is cluster scoped.
\<close>

record 'w cr_client =
  cr_get_common :: "nsname \<Rightarrow> 'w \<Rightarrow> (api_error + CommonAudit) \<times> 'w"
  cr_status_common :: "CommonAudit \<Rightarrow> 'w \<Rightarrow> (api_error + CommonAudit) \<times> 'w"
  cr_list_common :: "string \<Rightarrow> 'w \<Rightarrow> (api_error + CommonAudit list) \<times> 'w"
  cr_get_audit :: "nsname \<Rightarrow> 'w \<Rightarrow> (api_error + AuditLogging) \<times> 'w"
  cr_update_audit :: "AuditLogging \<Rightarrow> 'w \<Rightarrow> api_error option \<times> 'w"
  cr_status_audit :: "AuditLogging \<Rightarrow> 'w \<Rightarrow> (api_error + AuditLogging) \<times> 'w"
  cr_list_audit :: "'w \<Rightarrow> (api_error + AuditLogging list) \<times> 'w"
  cr_event :: "event \<Rightarrow> 'w \<Rightarrow> 'w"

record 'w reconciler =
  r_client :: "'w client"
  r_cr :: "'w cr_client"
  r_set_owner :: "owner_reference \<Rightarrow> objmeta \<Rightarrow> api_error + objmeta"  \<comment> \<open>\<open>SetControllerReference\<close>\<close>
  r_env :: environ
  r_yaml :: yaml_pkg
  r_quantity :: quantity_pkg

subsection \<open>The shared shape of the reconcile functions\<close>

text \<open>\<open>SetControllerReference(instance, expected, scheme)\<close> on an object with metadata \<open>m\<close>.\<close>

definition owned :: "'w reconciler \<Rightarrow> owner_reference \<Rightarrow> objmeta \<Rightarrow> (objmeta \<Rightarrow> 'o) \<Rightarrow> api_error + 'o" where
  "owned r owner m mk = (case r_set_owner r owner m of Inl err \<Rightarrow> Inl err | Inr m' \<Rightarrow> Inr (mk m'))"

text \<open>The branch taken when an object is not found.\<close>

definition create_owned :: "('w, 'o) ops \<Rightarrow> api_error + 'o \<Rightarrow> 'w \<Rightarrow> outcome \<times> 'w" where
  "create_owned ops obj w =
     (case obj of
        Inl err \<Rightarrow> (Failed err, w)
      | Inr expected \<Rightarrow>
          (case op_create ops expected w of
             (Some err, w') \<Rightarrow> if IsAlreadyExists err then (Requeue, w') else (Failed err, w')
           | (None, w') \<Rightarrow> (Requeue, w')))"

definition get_or_create ::
    "('w, 'o) ops \<Rightarrow> nsname \<Rightarrow> api_error + 'o \<Rightarrow> ('o \<Rightarrow> 'w \<Rightarrow> outcome \<times> 'w) \<Rightarrow> 'w \<Rightarrow> outcome \<times> 'w" where
  "get_or_create ops key obj check w =
     (case op_get ops key w of
        (Inl err, w') \<Rightarrow> if IsNotFound err then create_owned ops obj w' else (Failed err, w')
      | (Inr found, w') \<Rightarrow> check found w')"

text \<open>A request that changes an object, followed by a requeue.\<close>

definition change :: "('o \<Rightarrow> 'w \<Rightarrow> api_error option \<times> 'w) \<Rightarrow> 'o \<Rightarrow> 'w \<Rightarrow> outcome \<times> 'w" where
  "change request obj w =
     (case request obj w of
        (Some err, w') \<Rightarrow> (Failed err, w')
      | (None, w') \<Rightarrow> (Requeue, w'))"

text \<open>\<open>for _, rec := range reconcilers\<close>: stop at the first result that is not quiet.\<close>

fun run_reconcilers :: "('s \<Rightarrow> outcome \<times> 's) list \<Rightarrow> 's \<Rightarrow> outcome \<times> 's" where
  "run_reconcilers [] s = (Done, s)"
| "run_reconcilers (rec # recs) s =
     (case rec s of (res, s') \<Rightarrow> if stops res then (res, s') else run_reconcilers recs s')"

text \<open>The package state of the container builders travels beside the world.\<close>

type_synonym 'w state = "'w \<times> globals"

definition lift_world :: "('w \<Rightarrow> outcome \<times> 'w) \<Rightarrow> 'w state \<Rightarrow> outcome \<times> 'w state" where
  "lift_world f s = (case f (fst s) of (res, w') \<Rightarrow> (res, (w', snd s)))"

text \<open>The loop of \<open>restartFluentdPods\<close>: delete the pods one by one, up to the first error.\<close>

fun delete_pods :: "'w reconciler \<Rightarrow> pod list \<Rightarrow> 'w \<Rightarrow> api_error option \<times> 'w" where
  "delete_pods r [] w = (None, w)"
| "delete_pods r (pod # pods) w =
     (case cl_delete_pod (r_client r) pod w of
        (Some err, w') \<Rightarrow> (Some err, w')
      | (None, w') \<Rightarrow> delete_pods r pods w')"

definition restart_pods :: "'w reconciler \<Rightarrow> string \<Rightarrow> labels \<Rightarrow> 'w \<Rightarrow> api_error option \<times> 'w" where
  "restart_pods r namespace sel w =
     (case cl_list_pods (r_client r) namespace sel w of
        (Inl err, w') \<Rightarrow> (Some err, w')
      | (Inr pods, w') \<Rightarrow> delete_pods r pods w')"

text \<open>What a reconcile function finds out about a ConfigMap.\<close>

datatype drift =
    InSync
  | Repair configmap    \<comment> \<open>update it to this and restart the pods\<close>
  | Recreate            \<comment> \<open>delete it; the next round creates it\<close>
  | DriftError string
  | DriftPanic

text \<open>\<open>if !EqualConfig(found, expected, key) { found.Data[key] = expected.Data[key]; update = true }\<close>\<close>

definition sync_key :: "configmap \<Rightarrow> string \<Rightarrow> configmap \<times> bool \<Rightarrow> (configmap \<times> bool) option" where
  "sync_key expected key fu =
     (let (found, update) = fu
      in if \<not> EqualConfig found expected key
         then (case mset_at (cm_Data found) key (mget (cm_Data expected) key) of
                 None \<Rightarrow> None
               | Some d \<Rightarrow> Some (found\<lparr>cm_Data := d\<rparr>, True))
         else Some (found, update))"

fun drift_of :: "(configmap \<times> bool) option \<Rightarrow> drift" where
  "drift_of None = DriftPanic"
| "drift_of (Some (found, True)) = Repair found"
| "drift_of (Some (found, False)) = InSync"

definition settle_config ::
    "'w reconciler \<Rightarrow> ('w \<Rightarrow> api_error option \<times> 'w) \<Rightarrow> configmap \<Rightarrow> drift \<Rightarrow> 'w \<Rightarrow> outcome \<times> 'w" where
  "settle_config r restart found d w =
     (case d of
        InSync \<Rightarrow> (Done, w)
      | Recreate \<Rightarrow> change (op_delete (cl_configmaps (r_client r))) found w
      | Repair found' \<Rightarrow>
          (case op_update (cl_configmaps (r_client r)) found' w of
             (Some err, w') \<Rightarrow> (Failed err, w')
           | (None, w') \<Rightarrow> (Requeue, snd (restart w')))
      | DriftError err \<Rightarrow> (Failed (OtherError err), w)
      | DriftPanic \<Rightarrow> (Panicked, w))"

subsection \<open>Deployments\<close>

text \<open>The update keeps the pod labels of the deployment that was found.\<close>

definition with_deployment_spec :: "deployment \<Rightarrow> deployment \<Rightarrow> deployment" where
  "with_deployment_spec expected found =
     (let tempPodLabels = m_Labels (pt_Meta (ds_Template (d_Spec found)))
      in found\<lparr>d_Spec := (d_Spec expected)
           \<lparr>ds_Template := (ds_Template (d_Spec expected))
              \<lparr>pt_Meta := (pt_Meta (ds_Template (d_Spec expected)))\<lparr>m_Labels := tempPodLabels\<rparr>\<rparr>\<rparr>\<rparr>)"

definition settle_deployment ::
    "'w reconciler \<Rightarrow> deployment \<Rightarrow> bool \<Rightarrow> deployment \<Rightarrow> 'w \<Rightarrow> outcome \<times> 'w" where
  "settle_deployment r expected allowModify found w =
     (case EqualDeployments (r_quantity r) expected found allowModify of
        None \<Rightarrow> (Panicked, w)
      | Some equal \<Rightarrow>
          if \<not> equal
          then change (op_update (cl_deployments (r_client r))) (with_deployment_spec expected found) w
          else (Done, w))"

subsection \<open>Status and messages\<close>

text \<open>The names of the pods as they are reported: sorted, or the default when there is none.\<close>

definition status_nodes :: "pod list \<Rightarrow> string slice" where
  "status_nodes pods =
     (let podNames = GetPodNames pods
      in if length (elems podNames) = 0 then DefaultStatusForCR
         else Some (sort_strings (elems podNames)))"

definition msg_alongside :: string where
  "msg_alongside =
  ''CommonAudit cannot run alongside AuditLogging in the same namespace. Delete one or the other to proceed.''"

definition msg_deployed :: string where
  "msg_deployed = ''Deployed '' @ AuditLoggingComponentName @ '' successfully''"

end
