(* ===== verification/FilteredCache.thy ===== *)
theory FilteredCache
  imports Client "HOL-Library.AList" "HOL-Library.Multiset"
begin

text \<open>
  controllers/k8sutil/cache.go: the cache that main.go installs when a namespace is watched. It keeps
  informers of its own for some kinds and passes every other request to a fallback cache.

  The informers (client-go), the fallback cache, the REST client and the scheme are not part of the
  repository; they are the records \<open>informer_pkg\<close>, \<open>fallback_cache\<close> and \<open>api_machinery\<close>. A REST
  client is represented by the configuration it was made from. The map of the code holds pointers to informers and two of its keys share one: the model keeps the informers in
  a list and maps a kind to a position.
\<close>

subsection \<open>Kinds, objects and selectors\<close>

datatype GroupVersionKind = GVK (Group: string) (Version: string) (Kind: string)

text \<open>A \<open>runtime.Object\<close>: its dynamic Go type, its type and object metadata, and the rest.\<close>

record 'b robject =
  ob_GoType :: string
  ob_GVK :: GroupVersionKind
  ob_Meta :: "objmeta option"  \<comment> \<open>\<open>None\<close>: \<open>apimeta.Accessor\<close> fails on it\<close>
  ob_Body :: 'b

text \<open>What a store holds, an \<open>interface{}\<close>.\<close>

datatype 'b item = Obj "'b robject" | NotAnObject string

datatype operator = Equals | DoubleEquals | NotEquals | OtherOperator string

record requirement =
  rq_Field :: string
  rq_Operator :: operator
  rq_Value :: string

record list_options =
  lo_LabelSelector :: "(labels \<Rightarrow> bool) option"
  lo_FieldSelector :: "requirement list option"
  lo_Namespace :: string

type_synonym 'b index_func = "'b item \<Rightarrow> api_error + string slice"

text \<open>The fields of \<open>rest.Config\<close> that the code sets; the last one stands for the others.\<close>

record rest_config =
  cfg_GroupVersion :: "(string \<times> string) option"
  cfg_APIPath :: string
  cfg_UserAgent :: string
  cfg_NegotiatedSerializer :: "string option"
  cfg_Connection :: string

record ('i, 'b) informer_pkg =
  if_GetByKey :: "'i \<Rightarrow> string \<Rightarrow> api_error + 'b item option"
  if_ByIndex :: "'i \<Rightarrow> string \<Rightarrow> string \<Rightarrow> api_error + 'b item list"
  if_List :: "'i \<Rightarrow> 'b item list"
  if_AddIndexer :: "string \<Rightarrow> 'b index_func \<Rightarrow> 'i \<Rightarrow> api_error option \<times> 'i"
  if_MetaNamespaceIndexFunc :: "'b index_func"
  if_New :: "rest_config \<Rightarrow> string \<Rightarrow> GroupVersionKind \<Rightarrow> int \<Rightarrow> (string \<times> 'b index_func) list \<Rightarrow> 'i"

definition NamespaceIndex :: string where  \<comment> \<open>\<open>toolscache.NamespaceIndex\<close>\<close>
  "NamespaceIndex = ''namespace''"

text \<open>
  A result \<open>None\<close> is a run-time panic. \<open>Get\<close> writes to the object it is given, \<open>List\<close> to the list.
\<close>

type_synonym 'b get_result = "(api_error option \<times> 'b robject) option"

record ('h, 'b) fallback_cache =
  fb_Get :: "nsname \<Rightarrow> 'b robject \<Rightarrow> 'b get_result"
  fb_List :: "'b robject \<Rightarrow> list_options \<Rightarrow> (api_error + 'b robject list) option"
  fb_GetInformer :: "'b robject \<Rightarrow> api_error + 'h"
  fb_GetInformerForKind :: "GroupVersionKind \<Rightarrow> api_error + 'h"
  fb_IndexField :: "'b robject \<Rightarrow> string \<Rightarrow> ('b robject \<Rightarrow> string slice) \<Rightarrow> api_error option"
  fb_Start :: "api_error option"
  fb_WaitForCacheSync :: bool

record 'b api_machinery =
  am_GVKForObject :: "'b robject \<Rightarrow> api_error + GroupVersionKind"
  am_DefaultKubernetesUserAgent :: string
  am_CodecFactory :: string  \<comment> \<open>\<open>serializer.NewCodecFactory(scheme)\<close>\<close>
  am_RESTClientFor :: "rest_config \<Rightarrow> api_error option"
  am_NewTyped :: "GroupVersionKind \<Rightarrow> api_error option"  \<comment> \<open>\<open>Scheme.New\<close> and the converter\<close>
  am_RestGet :: "rest_config \<Rightarrow> string \<Rightarrow> string \<Rightarrow> string \<Rightarrow> api_error + 'b robject"
  am_SetList :: "'b robject \<Rightarrow> 'b robject list \<Rightarrow> api_error option"

record ('i, 'h, 'b) filteredCache =
  fc_config :: rest_config
  fc_informerMap :: "(GroupVersionKind \<times> nat) list"
  fc_informers :: "'i list"
  fc_fallback :: "('h, 'b) fallback_cache"
  fc_namespace :: string
  fc_machinery :: "'b api_machinery"
  fc_env :: environ

subsection \<open>Names and keys\<close>

fun kindToResource :: "string \<Rightarrow> string" where
  "kindToResource kind = (if kind = ''AuditLogging'' then ''auditloggings'' else [])"

text \<open>\<open>list.Kind[:len(list.Kind)-4]\<close> panics on a kind of fewer than four characters.\<close>

definition listToGVK :: "GroupVersionKind \<Rightarrow> GroupVersionKind option" where
  "listToGVK list =
     (if length (Kind list) < 4 then None
      else Some (GVK (Group list) (Version list) (take (length (Kind list) - 4) (Kind list))))"

text \<open>\<open>None\<close> is \<open>("", "", false)\<close>.\<close>

definition requiresExactMatch :: "requirement list \<Rightarrow> (string \<times> string) option" where
  "requiresExactMatch reqs =
     (if length reqs \<noteq> 1 then None
      else let req = reqs ! 0
           in if rq_Operator req \<noteq> Equals \<and> rq_Operator req \<noteq> DoubleEquals then None
              else Some (rq_Field req, rq_Value req))"

definition FieldIndexName :: "string \<Rightarrow> string" where
  "FieldIndexName field = ''field:'' @ field"

definition allNamespacesNamespace :: string where
  "allNamespacesNamespace = ''__all_namespaces''"

definition KeyToNamespacedKey :: "string \<Rightarrow> string \<Rightarrow> string" where
  "KeyToNamespacedKey ns baseKey =
     (if ns \<noteq> [] then ns @ ''/'' @ baseKey else allNamespacesNamespace @ ''/'' @ baseKey)"

definition store_key :: "nsname \<Rightarrow> string" where
  "store_key key = (if key_ns key = [] then key_name key else key_ns key @ ''/'' @ key_name key)"

subsection \<open>The REST client\<close>

text \<open>The configuration is copied before it is changed.\<close>

definition getClientForGVK ::
    "'b api_machinery \<Rightarrow> GroupVersionKind \<Rightarrow> rest_config \<Rightarrow> api_error + rest_config" where
  "getClientForGVK am gvk config =
     (let cfg = config\<lparr>cfg_GroupVersion := Some (Group gvk, Version gvk), cfg_APIPath := ''/apis''\<rparr>;
          cfg = (if cfg_UserAgent cfg = [] then cfg\<lparr>cfg_UserAgent := am_DefaultKubernetesUserAgent am\<rparr> else cfg);
          cfg = (if cfg_NegotiatedSerializer cfg = None
                 then cfg\<lparr>cfg_NegotiatedSerializer := Some (am_CodecFactory am)\<rparr> else cfg)
      in case am_RESTClientFor am cfg of Some err \<Rightarrow> Inl err | None \<Rightarrow> Inr cfg)"

subsection \<open>Construction\<close>

definition cached_gvks :: "GroupVersionKind list" where
  "cached_gvks = [GVK ''operator.ibm.com'' ''v1alpha1'' ''AuditLogging'']"

text \<open>The loop of \<open>buildInformerMap\<close>; an assignment to the map replaces an earlier one.\<close>

fun build_informers ::
    "('i, 'b) informer_pkg \<Rightarrow> 'b api_machinery \<Rightarrow> rest_config \<Rightarrow> int \<Rightarrow> GroupVersionKind list \<Rightarrow>
     (GroupVersionKind \<times> nat) list \<times> 'i list \<Rightarrow>
     api_error + (GroupVersionKind \<times> nat) list \<times> 'i list" where
  "build_informers p am config resync [] acc = Inr acc"
| "build_informers p am config resync (gvk # gvks) (informerMap, informers) =
     (case getClientForGVK am gvk config of
        Inl err \<Rightarrow> Inl err
      | Inr cli \<Rightarrow>
          (case am_NewTyped am gvk of
             Some err \<Rightarrow> Inl err
           | None \<Rightarrow>
               (let plural = kindToResource (Kind gvk);
                    informer = if_New p cli plural gvk resync [(NamespaceIndex, if_MetaNamespaceIndexFunc p)];
                    n = length informers;
                    gvkList = GVK (Group gvk) (Version gvk) (Kind gvk @ ''List'')
                in build_informers p am config resync gvks
                     (AList.update gvkList n (AList.update gvk n informerMap), informers @ [informer]))))"

text \<open>\<open>opts.Resync\<close>, a pointer to a duration, is an option; nil means 0.\<close>

definition NewAuditCache ::
    "('i, 'b) informer_pkg \<Rightarrow> 'b api_machinery \<Rightarrow> environ \<Rightarrow>
     (string list \<Rightarrow> api_error + ('h, 'b) fallback_cache) \<Rightarrow> string list \<Rightarrow> rest_config \<Rightarrow> int option \<Rightarrow>
     api_error + ('i, 'h, 'b) filteredCache" where
  "NewAuditCache p am env MultiNamespacedCache namespaces config opts_Resync =
     (let resync = (case opts_Resync of None \<Rightarrow> 0 | Some d \<Rightarrow> d)
      in case build_informers p am config resync cached_gvks ([], []) of
           Inl err \<Rightarrow> Inl err
         | Inr (informerMap, informers) \<Rightarrow>
             (case MultiNamespacedCache namespaces of
                Inl err \<Rightarrow> Inl err
              | Inr fallback \<Rightarrow>
                  Inr \<lparr>fc_config = config, fc_informerMap = informerMap, fc_informers = informers,
                       fc_fallback = fallback, fc_namespace = [], fc_machinery = am, fc_env = env\<rparr>))"

subsection \<open>Get\<close>

text \<open>
  \<open>reflect.Indirect(objVal).Set(reflect.Indirect(itemVal))\<close>: panics unless the types agree. The check
  in front of it compares the type of the object with itself.
\<close>

definition AssignableTo :: "string \<Rightarrow> string \<Rightarrow> bool" where
  "AssignableTo t u \<longleftrightarrow> t = u"

definition copy_out :: "GroupVersionKind \<Rightarrow> 'b robject \<Rightarrow> 'b robject \<Rightarrow> 'b get_result" where
  "copy_out gvk item obj =
     (if \<not> AssignableTo (ob_GoType obj) (ob_GoType obj)
      then Some (Some (OtherError (''cache had type '' @ ob_GoType item @ '', but '' @ ob_GoType obj
                                   @ '' was asked for'')), obj)
      else if \<not> AssignableTo (ob_GoType item) (ob_GoType obj) then None
      else Some (None, item\<lparr>ob_GVK := gvk\<rparr>))"

definition getFromStore ::
    "('i, 'b) informer_pkg \<Rightarrow> 'i \<Rightarrow> nsname \<Rightarrow> 'b robject \<Rightarrow> GroupVersionKind \<Rightarrow> 'b get_result" where
  "getFromStore p informer key obj gvk =
     (case if_GetByKey p informer (store_key key) of
        Inl err \<Rightarrow> Some (Some err, obj)
      | Inr None \<Rightarrow> Some (Some NotFound, obj)
      | Inr (Some (NotAnObject t)) \<Rightarrow>
          Some (Some (OtherError (''cache contained '' @ t @ '', which is not an Object'')), obj)
      | Inr (Some (Obj item)) \<Rightarrow> copy_out gvk item obj)"

definition getFromClient ::
    "('i, 'h, 'b) filteredCache \<Rightarrow> nsname \<Rightarrow> 'b robject \<Rightarrow> GroupVersionKind \<Rightarrow> 'b get_result" where
  "getFromClient c key obj gvk =
     (let resource = kindToResource (Kind gvk)
      in case getClientForGVK (fc_machinery c) gvk (fc_config c) of
           Inl err \<Rightarrow> Some (Some err, obj)
         | Inr cli \<Rightarrow>
             (case (if key_ns key = [] then GetCSNamespace (fc_env c) else Inr (key_ns key)) of
                Inl err \<Rightarrow> Some (Some (OtherError err), obj)
              | Inr ns \<Rightarrow>
                  (case am_RestGet (fc_machinery c) cli ns resource (key_name key) of
                     Inl err \<Rightarrow> Some (Some err, obj)
                   | Inr result \<Rightarrow> copy_out gvk result obj)))"

definition informer_of :: "('i, 'h, 'b) filteredCache \<Rightarrow> GroupVersionKind \<Rightarrow> 'i option" where
  "informer_of c gvk = map_option (\<lambda>n. fc_informers c ! n) (map_of (fc_informerMap c) gvk)"

text \<open>After an error of \<open>getFromStore\<close>, of whatever kind, the object comes from the API server.\<close>

definition cache_Get ::
    "('i, 'b) informer_pkg \<Rightarrow> ('i, 'h, 'b) filteredCache \<Rightarrow> nsname \<Rightarrow> 'b robject \<Rightarrow> 'b get_result" where
  "cache_Get p c key obj =
     (case am_GVKForObject (fc_machinery c) obj of
        Inl err \<Rightarrow> Some (Some err, obj)
      | Inr gvk \<Rightarrow>
          (case informer_of c gvk of
             Some informer \<Rightarrow>
               (case getFromStore p informer key obj gvk of
                  None \<Rightarrow> None
                | Some (None, obj') \<Rightarrow> Some (None, obj')
                | Some (Some _, obj') \<Rightarrow> getFromClient c key obj' gvk)
           | None \<Rightarrow> fb_Get (fc_fallback c) key obj))"

subsection \<open>List\<close>

definition candidates ::
    "('i, 'b) informer_pkg \<Rightarrow> 'i \<Rightarrow> list_options \<Rightarrow> api_error + 'b item list" where
  "candidates p informer opts =
     (case lo_FieldSelector opts of
        Some sel \<Rightarrow>
          (case requiresExactMatch sel of
             None \<Rightarrow> Inl (OtherError ''non-exact field matches are not supported by the cache'')
           | Some (field, val) \<Rightarrow>
               if_ByIndex p informer (FieldIndexName field) (KeyToNamespacedKey (lo_Namespace opts) val))
      | None \<Rightarrow>
          if lo_Namespace opts \<noteq> [] then if_ByIndex p informer NamespaceIndex (lo_Namespace opts)
          else Inr (if_List p informer))"

text \<open>The loop over the candidates; the result \<open>None\<close> is the panic of \<open>listToGVK\<close>.\<close>

fun filter_items ::
    "('i, 'h, 'b) filteredCache \<Rightarrow> list_options \<Rightarrow> GroupVersionKind \<Rightarrow> 'b item list \<Rightarrow>
     (api_error + 'b robject list) option" where
  "filter_items c opts gvk [] = Some (Inr [])"
| "filter_items c opts gvk (NotAnObject t # items) =
     Some (Inl (OtherError ''cache contained <nil>, which is not an Object''))"
| "filter_items c opts gvk (Obj ob # items) =
     (case ob_Meta ob of
        None \<Rightarrow> Some (Inl (OtherError ''object does not implement the Object interfaces''))
      | Some meta \<Rightarrow>
          if fc_namespace c \<noteq> [] \<and> lo_Namespace opts \<noteq> [] \<and> fc_namespace c \<noteq> lo_Namespace opts
          then Some (Inl (OtherError (''unable to list from namespace : '' @ lo_Namespace opts
                                      @ '' because of unknown namespace for the cache'')))
          else
            (let namespace = (if fc_namespace c \<noteq> [] then fc_namespace c
                              else if lo_Namespace opts \<noteq> [] then lo_Namespace opts else [])
             in if namespace \<noteq> [] \<and> namespace \<noteq> m_Namespace meta then filter_items c opts gvk items
                else if (case lo_LabelSelector opts of None \<Rightarrow> False
                         | Some labelSel \<Rightarrow> \<not> labelSel (m_Labels meta))
                then filter_items c opts gvk items
                else (case listToGVK gvk of
                        None \<Rightarrow> None
                      | Some gvk' \<Rightarrow>
                          (case filter_items c opts gvk items of
                             None \<Rightarrow> None
                           | Some (Inl err) \<Rightarrow> Some (Inl err)
                           | Some (Inr obs) \<Rightarrow> Some (Inr (ob\<lparr>ob_GVK := gvk'\<rparr> # obs))))))"

definition cache_List ::
    "('i, 'b) informer_pkg \<Rightarrow> ('i, 'h, 'b) filteredCache \<Rightarrow> 'b robject \<Rightarrow> list_options \<Rightarrow>
     (api_error + 'b robject list) option" where
  "cache_List p c list opts =
     (case am_GVKForObject (fc_machinery c) list of
        Inl err \<Rightarrow> Some (Inl err)
      | Inr gvk \<Rightarrow>
          (case informer_of c gvk of
             Some informer \<Rightarrow>
               (case candidates p informer opts of
                  Inl err \<Rightarrow> Some (Inl err)
                | Inr objList \<Rightarrow>
                    (case filter_items c opts gvk objList of
                       None \<Rightarrow> None
                     | Some (Inl err) \<Rightarrow> Some (Inl err)
                     | Some (Inr obs) \<Rightarrow>
                         (case am_SetList (fc_machinery c) list obs of
                            Some err \<Rightarrow> Some (Inl err)
                          | None \<Rightarrow> Some (Inr obs))))
           | None \<Rightarrow> fb_List (fc_fallback c) list opts))"

subsection \<open>Informers and indexes\<close>

datatype ('i, 'h) some_informer = Own 'i | Fallback 'h

definition GetInformerForKind ::
    "('i, 'h, 'b) filteredCache \<Rightarrow> GroupVersionKind \<Rightarrow> api_error + ('i, 'h) some_informer" where
  "GetInformerForKind c gvk =
     (case informer_of c gvk of
        Some informer \<Rightarrow> Inr (Own informer)
      | None \<Rightarrow> map_sum id Fallback (fb_GetInformerForKind (fc_fallback c) gvk))"

definition GetInformer ::
    "('i, 'h, 'b) filteredCache \<Rightarrow> 'b robject \<Rightarrow> api_error + ('i, 'h) some_informer" where
  "GetInformer c obj =
     (case am_GVKForObject (fc_machinery c) obj of
        Inl err \<Rightarrow> Inl err
      | Inr gvk \<Rightarrow>
          (case informer_of c gvk of
             Some informer \<Rightarrow> Inr (Own informer)
           | None \<Rightarrow> map_sum id Fallback (fb_GetInformer (fc_fallback c) obj)))"

text \<open>The loop that fills \<open>vals\<close>: \<open>n\<close> is \<open>len(rawVals)\<close>, \<open>i\<close> the position of the next value.\<close>

fun index_loop :: "string \<Rightarrow> nat \<Rightarrow> nat \<Rightarrow> string list \<Rightarrow> string list \<Rightarrow> string list" where
  "index_loop ns n i [] vals = vals"
| "index_loop ns n i (rawVal # rest) vals =
     (let vals = vals[i := KeyToNamespacedKey ns rawVal];
          vals = (if ns \<noteq> [] then vals[i + n := KeyToNamespacedKey [] rawVal] else vals)
      in index_loop ns n (Suc i) rest vals)"

definition index_values :: "string \<Rightarrow> string slice \<Rightarrow> string slice" where
  "index_values ns rawVals =
     (let n = length (elems rawVals)
      in if ns = [] then map_option (\<lambda>vals. index_loop ns n 0 vals vals) rawVals
         else Some (index_loop ns n 0 (elems rawVals) (replicate (n * 2) [])))"

definition indexFunc :: "('b robject \<Rightarrow> string slice) \<Rightarrow> 'b index_func" where
  "indexFunc extractor objRaw =
     (case objRaw of
        NotAnObject t \<Rightarrow> Inl (OtherError (''object of type '' @ t @ '' is not an Object''))
      | Obj obj \<Rightarrow>
          (case ob_Meta obj of
             None \<Rightarrow> Inl (OtherError ''object does not implement the Object interfaces'')
           | Some meta \<Rightarrow> Inr (index_values (m_Namespace meta) (extractor obj))))"

definition indexByField ::
    "('i, 'b) informer_pkg \<Rightarrow> 'i \<Rightarrow> string \<Rightarrow> ('b robject \<Rightarrow> string slice) \<Rightarrow> api_error option \<times> 'i" where
  "indexByField p indexer field extractor =
     if_AddIndexer p (FieldIndexName field) (indexFunc extractor) indexer"

definition IndexField ::
    "('i, 'b) informer_pkg \<Rightarrow> ('i, 'h, 'b) filteredCache \<Rightarrow> 'b robject \<Rightarrow> string \<Rightarrow>
     ('b robject \<Rightarrow> string slice) \<Rightarrow> api_error option \<times> ('i, 'h, 'b) filteredCache" where
  "IndexField p c obj field extractValue =
     (case am_GVKForObject (fc_machinery c) obj of
        Inl err \<Rightarrow> (Some err, c)
      | Inr gvk \<Rightarrow>
          (case map_of (fc_informerMap c) gvk of
             Some n \<Rightarrow>
               (case indexByField p (fc_informers c ! n) field extractValue of
                  (res, informer) \<Rightarrow> (res, c\<lparr>fc_informers := (fc_informers c)[n := informer]\<rparr>))
           | None \<Rightarrow> (fb_IndexField (fc_fallback c) obj field extractValue, c)))"

subsection \<open>Starting the informers\<close>

text \<open>
  \<open>Start\<close> launches a goroutine per entry of the map, in an order that Go leaves open: the positions of
  the informers that are run are a multiset. What the running informers do to their stores is the
  business of client-go.
\<close>

definition cache_Start :: "('i, 'h, 'b) filteredCache \<Rightarrow> nat multiset \<times> api_error option" where
  "cache_Start c = (mset (map snd (fc_informerMap c)), fb_Start (fc_fallback c))"

subsection \<open>Waiting for the informers\<close>

text \<open>
  What the \<open>select\<close> of \<open>WaitForCacheSync\<close> meets, in order: the context is done, or a second has
  passed and each informer of the map has been asked whether it has synced.
\<close>

datatype wait_event = CtxDone | Tick "bool list"

definition poll :: "bool \<Rightarrow> bool list \<Rightarrow> bool" where
  "poll waiting = foldl (\<lambda>waiting synced. \<not> synced \<and> waiting) waiting"

text \<open>\<open>None\<close>: still waiting when the events are used up.\<close>

fun wait_loop :: "bool \<Rightarrow> wait_event list \<Rightarrow> wait_event list option" where
  "wait_loop False events = Some events"
| "wait_loop True [] = None"
| "wait_loop True (CtxDone # events) = wait_loop False events"
| "wait_loop True (Tick answers # events) = wait_loop (poll True answers) events"

definition WaitForCacheSync :: "('i, 'h, 'b) filteredCache \<Rightarrow> wait_event list \<Rightarrow> bool option" where
  "WaitForCacheSync c events =
     map_option (\<lambda>_. fb_WaitForCacheSync (fc_fallback c)) (wait_loop True events)"

end
