(* ===== verification/CacheProps.thy ===== *)
theory CacheProps
  imports FilteredCache
begin

text \<open>
  Correctness of the cache of controllers/k8sutil/cache.go: the index keys, listing by field, the
  informers that two kinds share, the way a request falls through, and the end of the wait.
\<close>

subsection \<open>Index keys\<close>

text \<open>A namespace as Kubernetes allows it: a DNS label, so neither a slash nor an underscore.\<close>

definition namespace_name :: "string \<Rightarrow> bool" where
  "namespace_name ns \<longleftrightarrow> CHR ''/'' \<notin> set ns \<and> CHR ''_'' \<notin> set ns"

definition index_prefix :: "string \<Rightarrow> string" where
  "index_prefix ns = (if ns \<noteq> [] then ns else allNamespacesNamespace)"

lemma KeyToNamespacedKey_eq: "KeyToNamespacedKey ns k = index_prefix ns @ CHR ''/'' # k"
  by (simp add: KeyToNamespacedKey_def index_prefix_def)

lemma no_slash_prefix: "namespace_name ns \<Longrightarrow> CHR ''/'' \<notin> set (index_prefix ns)"
  by (auto simp: namespace_name_def index_prefix_def allNamespacesNamespace_def)

lemma index_prefix_inj:
  assumes "namespace_name ns" "namespace_name ns'" "index_prefix ns = index_prefix ns'"
  shows "ns = ns'"
proof -
  have "CHR ''_'' \<in> set allNamespacesNamespace" by (simp add: allNamespacesNamespace_def)
  then have "ns \<noteq> allNamespacesNamespace" "ns' \<noteq> allNamespacesNamespace"
    using assms(1,2) by (auto simp: namespace_name_def)
  with assms(3) show ?thesis by (auto simp: index_prefix_def split: if_splits)
qed

lemma split_at_first:
  assumes "x \<notin> set a" "x \<notin> set b"
  shows "a @ x # u = b @ x # v \<longleftrightarrow> a = b \<and> u = v"
proof
  assume eq: "a @ x # u = b @ x # v"
  then have "takeWhile (\<lambda>c. c \<noteq> x) (a @ x # u) = takeWhile (\<lambda>c. c \<noteq> x) (b @ x # v)" by simp
  then have "a = b" using takeWhile_until[OF assms(1), of u] takeWhile_until[OF assms(2), of v] by metis
  with eq show "a = b \<and> u = v" by blast
qed simp

lemma namespaced_key_inj:
  assumes "namespace_name ns" "namespace_name ns'"
  shows "KeyToNamespacedKey ns k = KeyToNamespacedKey ns' k' \<longleftrightarrow> ns = ns' \<and> k = k'"
  using assms index_prefix_inj
  by (auto simp: KeyToNamespacedKey_eq split_at_first no_slash_prefix)

lemma index_loop_all:
  "length vals = i + length raw \<Longrightarrow>
   index_loop [] n i raw vals = take i vals @ map (KeyToNamespacedKey []) raw"
proof (induction raw arbitrary: i vals)
  case (Cons v raw)
  then have "i < length vals" by simp
  then show ?case using Cons by (simp add: take_Suc_conv_app_nth)
qed simp

lemma index_loop_both:
  assumes "ns \<noteq> []"
  shows "length done = i \<Longrightarrow> length done' = i \<Longrightarrow> n = i + length raw \<Longrightarrow>
    length r1 = length raw \<Longrightarrow> length r2 = length raw \<Longrightarrow>
    index_loop ns n i raw (done @ r1 @ done' @ r2) =
      done @ map (KeyToNamespacedKey ns) raw @ done' @ map (KeyToNamespacedKey []) raw"
proof (induction raw arbitrary: i "done" done' r1 r2)
  case (Cons v raw)
  from Cons.prems obtain a r1' b r2' where r: "r1 = a # r1'" "r2 = b # r2'"
    by (metis length_Suc_conv)
  let ?k = "KeyToNamespacedKey ns v" and ?k' = "KeyToNamespacedKey [] v"
  have 1: "(done @ r1 @ done' @ r2)[i := ?k] = done @ ?k # r1' @ done' @ r2"
    using Cons.prems(1) r by (simp add: list_update_append)
  have "length (done @ ?k # r1' @ done') = i + n"
    using Cons.prems r by simp
  then have 2: "(done @ ?k # r1' @ done' @ r2)[i + n := ?k'] = done @ ?k # r1' @ done' @ ?k' # r2'"
    using list_update_append[of "done @ ?k # r1' @ done'" "b # r2'" "i + n" ?k'] r by simp
  have 3: "index_loop ns n (Suc i) raw ((done @ [?k]) @ r1' @ (done' @ [?k']) @ r2') =
      (done @ [?k]) @ map (KeyToNamespacedKey ns) raw @ (done' @ [?k']) @ map (KeyToNamespacedKey []) raw"
    by (rule Cons.IH) (use Cons.prems r in auto)
  show ?case using 1 2 3 assms by simp
qed simp

lemma elems_map_option: "elems (map_option f s) = (case s of None \<Rightarrow> [] | Some xs \<Rightarrow> f xs)"
  by (cases s) auto

lemma elems_index_values:
  "elems (index_values ns raw) =
     (if ns = [] then map (KeyToNamespacedKey []) (elems raw)
      else map (KeyToNamespacedKey ns) (elems raw) @ map (KeyToNamespacedKey []) (elems raw))"
proof (cases "ns = []")
  case True
  then show ?thesis
    by (cases raw) (simp_all add: index_values_def index_loop_all)
next
  case False
  let ?n = "length (elems raw)"
  have "replicate (?n * 2) [] = [] @ replicate ?n ([] :: string) @ [] @ replicate ?n []"
    by (simp add: mult_2_right replicate_add)
  then have "index_loop ns ?n 0 (elems raw) (replicate (?n * 2) []) =
      [] @ map (KeyToNamespacedKey ns) (elems raw) @ [] @ map (KeyToNamespacedKey []) (elems raw)"
    using index_loop_both[OF False, of "[]" 0 "[]" ?n "elems raw"] by simp
  with False show ?thesis by (simp add: index_values_def)
qed

lemma mem_index_values:
  assumes "namespace_name ns" "namespace_name q"
  shows "KeyToNamespacedKey q v \<in> set (elems (index_values ns raw)) \<longleftrightarrow>
    v \<in> set (elems raw) \<and> (q = [] \<or> q = ns)"
proof -
  have empty: "namespace_name []" by (simp add: namespace_name_def)
  have image: "KeyToNamespacedKey q v \<in> KeyToNamespacedKey p ` V \<longleftrightarrow> v \<in> V \<and> q = p"
    if "namespace_name p" for p V
    by (simp add: image_iff namespaced_key_inj[OF assms(2) that] conj_commute)
  show ?thesis
  proof (cases "ns = []")
    case True
    then show ?thesis by (simp only: elems_index_values simp_thms if_True set_map image[OF empty] disj_absorb)
  next
    case False
    then show ?thesis
      by (simp only: elems_index_values if_False set_map set_append Un_iff image[OF empty] image[OF assms(1)])
        blast
  qed
qed

subsection \<open>Listing by field\<close>

text \<open>
  The contract of client-go's indexer: \<open>ByIndex(name, v)\<close> returns the stored items for which the
  index function of that name gives \<open>v\<close> among its values. That they come in the order of \<open>List\<close> is an
  assumption of the model: client-go, whose store is a map, promises no order of either. It lets the
  properties below speak of lists; which objects are found does not rest on it.
\<close>

definition index_hit :: "'b index_func \<Rightarrow> string \<Rightarrow> 'b item \<Rightarrow> bool" where
  "index_hit idx v it = (case idx it of Inl _ \<Rightarrow> False | Inr vs \<Rightarrow> v \<in> set (elems vs))"

definition indexed ::
    "('i, 'b) informer_pkg \<Rightarrow> 'i \<Rightarrow> string \<Rightarrow> 'b index_func \<Rightarrow> bool" where
  "indexed p informer name idx \<longleftrightarrow>
     (\<forall>v. if_ByIndex p informer name v = Inr (filter (index_hit idx v) (if_List p informer)))"

text \<open>The objects of a store, and the ones that a list request asks for.\<close>

definition well_named :: "'b item list \<Rightarrow> bool" where
  "well_named items \<longleftrightarrow>
     (\<forall>it \<in> set items. case it of NotAnObject _ \<Rightarrow> False
        | Obj ob \<Rightarrow> (case ob_Meta ob of None \<Rightarrow> False | Some m \<Rightarrow> namespace_name (m_Namespace m)))"

fun stored_objects :: "'b item list \<Rightarrow> 'b robject list" where
  "stored_objects [] = []"
| "stored_objects (Obj ob # items) = ob # stored_objects items"
| "stored_objects (NotAnObject t # items) = stored_objects items"

definition selected :: "string \<Rightarrow> (labels \<Rightarrow> bool) option \<Rightarrow> 'b robject \<Rightarrow> bool" where
  "selected ns sel ob \<longleftrightarrow>
     (case ob_Meta ob of None \<Rightarrow> False
      | Some m \<Rightarrow> (ns = [] \<or> m_Namespace m = ns) \<and> (case sel of None \<Rightarrow> True | Some p \<Rightarrow> p (m_Labels m)))"

lemma filter_items_ok:
  assumes "fc_namespace c = []" "listToGVK gvk = Some gvk'" "well_named items"
  shows "filter_items c opts gvk items =
    Some (Inr (map (\<lambda>ob. ob\<lparr>ob_GVK := gvk'\<rparr>)
      (filter (selected (lo_Namespace opts) (lo_LabelSelector opts)) (stored_objects items))))"
  using assms(3)
proof (induction items)
  case (Cons it items)
  from Cons.prems obtain ob m where it: "it = Obj ob" "ob_Meta ob = Some m" "well_named items"
    by (auto simp: well_named_def split: item.splits option.splits)
  show ?case
    using it assms(1,2) Cons.IH by (auto simp: selected_def split: option.splits)
qed simp

text \<open>An object in the index of a field, under the key of a namespace, is one the request asks for.\<close>

lemma index_hit_indexFunc:
  assumes "well_named [Obj ob]" "namespace_name q"
  shows "index_hit (indexFunc ex) (KeyToNamespacedKey q v) (Obj ob) \<longleftrightarrow>
    v \<in> set (elems (ex ob)) \<and> selected q None ob"
  using assms
  by (auto simp: index_hit_def indexFunc_def well_named_def selected_def mem_index_values split: option.splits)

lemma stored_filter_hit:
  "well_named items \<Longrightarrow> namespace_name q \<Longrightarrow>
   stored_objects (filter (index_hit (indexFunc ex) (KeyToNamespacedKey q v)) items) =
     filter (\<lambda>ob. v \<in> set (elems (ex ob)) \<and> selected q None ob) (stored_objects items)"
proof (induction items)
  case (Cons it items)
  then obtain ob where "it = Obj ob" "well_named [Obj ob]" "well_named items"
    by (auto simp: well_named_def split: item.splits)
  with Cons index_hit_indexFunc[of ob q ex v] show ?case by simp
qed simp

lemma well_named_filter: "well_named items \<Longrightarrow> well_named (filter P items)"
  by (simp add: well_named_def)

lemma list_by_field:
  assumes gvk: "am_GVKForObject (fc_machinery c) lst = Inr gvk" "informer_of c gvk = Some ifm"
      "listToGVK gvk = Some gvk'"
    and index: "indexed p ifm (FieldIndexName field) (indexFunc ex)"
    and items: "well_named (if_List p ifm)" "namespace_name ns" "fc_namespace c = []"
    and set_list: "\<And>obs. am_SetList (fc_machinery c) lst obs = None"
    and op: "eq_op = Equals \<or> eq_op = DoubleEquals"
  shows "cache_List p c lst
      \<lparr>lo_LabelSelector = sel,
       lo_FieldSelector = Some [\<lparr>rq_Field = field, rq_Operator = eq_op, rq_Value = v\<rparr>],
       lo_Namespace = ns\<rparr> =
    Some (Inr (map (\<lambda>ob. ob\<lparr>ob_GVK := gvk'\<rparr>)
      (filter (\<lambda>ob. v \<in> set (elems (ex ob)) \<and> selected ns sel ob) (stored_objects (if_List p ifm)))))"
proof -
  let ?opts = "\<lparr>lo_LabelSelector = sel,
       lo_FieldSelector = Some [\<lparr>rq_Field = field, rq_Operator = eq_op, rq_Value = v\<rparr>],
       lo_Namespace = ns\<rparr>"
  let ?hits = "filter (index_hit (indexFunc ex) (KeyToNamespacedKey ns v)) (if_List p ifm)"
  have "candidates p ifm ?opts = Inr ?hits"
    using index op by (auto simp: candidates_def requiresExactMatch_def indexed_def)
  moreover have "filter_items c ?opts gvk ?hits = Some (Inr (map (\<lambda>ob. ob\<lparr>ob_GVK := gvk'\<rparr>)
      (filter (selected ns sel) (stored_objects ?hits))))"
    using filter_items_ok[OF items(3) gvk(3) well_named_filter[OF items(1)]] by simp
  moreover have "filter (selected ns sel) (stored_objects ?hits) =
      filter (\<lambda>ob. v \<in> set (elems (ex ob)) \<and> selected ns sel ob) (stored_objects (if_List p ifm))"
    unfolding stored_filter_hit[OF items(1,2)] filter_filter
    by (rule filter_cong) (auto simp: selected_def split: option.splits)
  ultimately show ?thesis using gvk set_list by (simp add: cache_List_def)
qed

subsection \<open>An indexer in memory\<close>

text \<open>
  A small indexer that keeps the contract, at which the properties are evaluated: the stored items
  under their keys, and the index functions by name. A second index of the same name is refused.
\<close>

type_synonym 'b memory = "(string \<times> 'b item) list \<times> (string \<times> 'b index_func) list"

definition namespace_index :: "'b index_func" where
  "namespace_index it =
     (case it of
        NotAnObject t \<Rightarrow> Inl (OtherError ''object has no meta'')
      | Obj ob \<Rightarrow> (case ob_Meta ob of None \<Rightarrow> Inl (OtherError ''object has no meta'')
                  | Some m \<Rightarrow> Inr (Some [m_Namespace m])))"

definition memory_informers :: "('b memory, 'b) informer_pkg" where
  "memory_informers =
     \<lparr>if_GetByKey = \<lambda>(items, _) key. Inr (map_of items key),
      if_ByIndex = \<lambda>(items, idxs) name v.
        (case map_of idxs name of
           None \<Rightarrow> Inl (OtherError ''Index does not exist'')
         | Some idx \<Rightarrow> Inr (filter (index_hit idx v) (map snd items))),
      if_List = \<lambda>(items, _). map snd items,
      if_AddIndexer = \<lambda>name idx (items, idxs).
        (if map_of idxs name = None then (None, (items, (name, idx) # idxs))
         else (Some (OtherError ''indexer conflict''), (items, idxs))),
      if_MetaNamespaceIndexFunc = namespace_index,
      if_New = \<lambda>cli plural gvk resync idxs. ([], idxs)\<rparr>"

lemma memory_AddIndexer:
  "if_AddIndexer memory_informers name idx mem = (None, mem') \<Longrightarrow>
   indexed memory_informers mem' name idx"
  by (auto simp: memory_informers_def indexed_def split: prod.splits if_splits)

subsection \<open>Shared informers\<close>

lemma NewAuditCache_Inr:
  "NewAuditCache p am env multi namespaces config resync = Inr c \<longleftrightarrow>
     am_NewTyped am (hd cached_gvks) = None \<and>
     (\<exists>fb cli. multi namespaces = Inr fb \<and> getClientForGVK am (hd cached_gvks) config = Inr cli \<and>
       c = \<lparr>fc_config = config, fc_informerMap = [(hd cached_gvks, 0),
              (GVK ''operator.ibm.com'' ''v1alpha1'' ''AuditLoggingList'', 0)],
            fc_informers = [if_New p cli ''auditloggings'' (hd cached_gvks)
              (case resync of None \<Rightarrow> 0 | Some d \<Rightarrow> d) [(NamespaceIndex, if_MetaNamespaceIndexFunc p)]],
            fc_fallback = fb, fc_namespace = [], fc_machinery = am, fc_env = env\<rparr>)"
  by (auto simp: NewAuditCache_def cached_gvks_def split: option.splits sum.splits)

lemma listToGVK_append: "listToGVK (GVK g v (k @ ''List'')) = Some (GVK g v k)"
  by (simp add: listToGVK_def)

subsection \<open>Properties\<close>

text \<open>C11: The index keys of a field. For an object of namespace \<open>ns\<close> whose field has the values \<open>raw\<close>,
  the values that \<open>indexByField\<close> computes contain the key of the query \<open>(q, v)\<close> exactly when the
  field has the value \<open>v\<close> and the query asks for all namespaces or for that of the object; no pair of
  a namespace and a value is confused with another. (Holds because a Kubernetes namespace has neither
  a slash nor an underscore.)\<close>

theorem index_key_lookup:
  assumes "namespace_name ns" "namespace_name q"
  shows "KeyToNamespacedKey q v \<in> set (elems (index_values ns raw)) \<longleftrightarrow>
    v \<in> set (elems raw) \<and> (q = [] \<or> q = ns)"
  using assms by (rule mem_index_values)

theorem index_key_lookup_witness:
  "KeyToNamespacedKey ''a'' ''x/y'' \<in> set (elems (index_values ''a'' (Some [''z'', ''x/y'']))) \<and>
   KeyToNamespacedKey [] ''z'' \<in> set (elems (index_values ''a'' (Some [''z'', ''x/y'']))) \<and>
   KeyToNamespacedKey ''b'' ''z'' \<notin> set (elems (index_values ''a'' (Some [''z'', ''x/y''])))"
  using index_key_lookup[of "''a''" "''a''" "''x/y''" "Some [''z'', ''x/y'']"]
    index_key_lookup[of "''a''" "[]" "''z''" "Some [''z'', ''x/y'']"]
    index_key_lookup[of "''a''" "''b''" "''z''" "Some [''z'', ''x/y'']"]
  by (simp add: namespace_name_def)

text \<open>C15: An index that is added for \<open>AuditLogging\<close> serves the lists of \<open>AuditLoggingList\<close>: on a cache
  that \<open>NewAuditCache\<close> built, whatever its informer has received since, a list request for
  \<open>field = v\<close> after \<open>IndexField\<close> returns, in the order of the store, the objects whose field has the
  value \<open>v\<close>, that lie in the requested namespace (all of them when none is given) and that match the
  label selector, each with the kind \<open>AuditLogging\<close>.\<close>

theorem list_after_IndexField:
  assumes new: "NewAuditCache p am env multi namespaces config resync = Inr c"
    and index: "IndexField p (c\<lparr>fc_informers := [ifm]\<rparr>) obj field ex = (None, c')"
      "am_GVKForObject am obj = Inr (GVK ''operator.ibm.com'' ''v1alpha1'' ''AuditLogging'')"
      "am_GVKForObject am lst = Inr (GVK ''operator.ibm.com'' ''v1alpha1'' ''AuditLoggingList'')"
    and law: "\<And>i i' name idx. if_AddIndexer p name idx i = (None, i') \<Longrightarrow>
        indexed p i' name idx \<and> if_List p i' = if_List p i"
    and items: "well_named (if_List p ifm)" "namespace_name ns"
    and set_list: "\<And>obs. am_SetList am lst obs = None"
    and op: "eq_op = Equals \<or> eq_op = DoubleEquals"
  shows "cache_List p c' lst
      \<lparr>lo_LabelSelector = sel,
       lo_FieldSelector = Some [\<lparr>rq_Field = field, rq_Operator = eq_op, rq_Value = v\<rparr>],
       lo_Namespace = ns\<rparr> =
    Some (Inr (map (\<lambda>ob. ob\<lparr>ob_GVK := GVK ''operator.ibm.com'' ''v1alpha1'' ''AuditLogging''\<rparr>)
      (filter (\<lambda>ob. v \<in> set (elems (ex ob)) \<and> selected ns sel ob) (stored_objects (if_List p ifm)))))"
proof -
  obtain fb ifm0 where c: "c = \<lparr>fc_config = config, fc_informerMap = [(hd cached_gvks, 0),
              (GVK ''operator.ibm.com'' ''v1alpha1'' ''AuditLoggingList'', 0)],
            fc_informers = [ifm0], fc_fallback = fb,
            fc_namespace = [], fc_machinery = am, fc_env = env\<rparr>"
    using new by (auto simp: NewAuditCache_Inr)
  then obtain ifm' where add: "if_AddIndexer p (FieldIndexName field) (indexFunc ex) ifm = (None, ifm')"
      and c': "c' = c\<lparr>fc_informers := [ifm']\<rparr>"
    using index(1,2) by (auto simp: IndexField_def indexByField_def cached_gvks_def split: prod.splits)
  have ifm': "informer_of c' (GVK ''operator.ibm.com'' ''v1alpha1'' ''AuditLoggingList'') = Some ifm'"
      "fc_machinery c' = am" "fc_namespace c' = []"
    by (simp_all add: informer_of_def c' c cached_gvks_def)
  have gvk': "listToGVK (GVK ''operator.ibm.com'' ''v1alpha1'' ''AuditLoggingList'') =
      Some (GVK ''operator.ibm.com'' ''v1alpha1'' ''AuditLogging'')"
    using listToGVK_append[of _ _ "''AuditLogging''"] by simp
  have law': "indexed p ifm' (FieldIndexName field) (indexFunc ex)" "if_List p ifm' = if_List p ifm"
    using law[OF add] by blast+
  have list: "am_GVKForObject (fc_machinery c') lst =
      Inr (GVK ''operator.ibm.com'' ''v1alpha1'' ''AuditLoggingList'')"
    "\<And>obs. am_SetList (fc_machinery c') lst obs = None"
    using index(3) set_list ifm'(2) by simp_all
  show ?thesis
    unfolding law'(2)[symmetric]
    by (rule list_by_field[OF list(1) ifm'(1) gvk' law'(1) _ items(2) ifm'(3) list(2) op])
      (simp add: law'(2) items(1))
qed

definition sample_object :: "string \<Rightarrow> string \<Rightarrow> string robject" where
  "sample_object ns body =
     \<lparr>ob_GoType = ''*v1alpha1.AuditLogging'', ob_GVK = GVK [] [] [],
      ob_Meta = Some (zero_meta\<lparr>m_Namespace := ns\<rparr>), ob_Body = body\<rparr>"

definition sample_machinery :: "string api_machinery" where
  "sample_machinery =
     \<lparr>am_GVKForObject = \<lambda>ob. Inr (GVK ''operator.ibm.com'' ''v1alpha1''
        (if ob_GoType ob = ''*v1alpha1.AuditLoggingList'' then ''AuditLoggingList'' else ''AuditLogging'')),
      am_DefaultKubernetesUserAgent = ''operator'', am_CodecFactory = ''codecs'', am_RESTClientFor = \<lambda>_. None,
      am_NewTyped = \<lambda>_. None, am_RestGet = \<lambda>cli ns res name. Inl NotFound, am_SetList = \<lambda>_ _. None\<rparr>"

definition sample_fallback :: "(nat, string) fallback_cache" where
  "sample_fallback =
     \<lparr>fb_Get = \<lambda>key ob. Some (Some NotFound, ob), fb_List = \<lambda>lst opts. Some (Inr []),
      fb_GetInformer = \<lambda>_. Inr 0, fb_GetInformerForKind = \<lambda>_. Inr 0, fb_IndexField = \<lambda>_ _ _. None,
      fb_Start = None, fb_WaitForCacheSync = True\<rparr>"

definition sample_config :: rest_config where
  "sample_config = \<lparr>cfg_GroupVersion = None, cfg_APIPath = [], cfg_UserAgent = [],
     cfg_NegotiatedSerializer = None, cfg_Connection = ''https://api''\<rparr>"

definition sample_cache :: "(string memory, nat, string) filteredCache" where
  "sample_cache =
     \<lparr>fc_config = sample_config,
      fc_informerMap = [(GVK ''operator.ibm.com'' ''v1alpha1'' ''AuditLogging'', 0),
              (GVK ''operator.ibm.com'' ''v1alpha1'' ''AuditLoggingList'', 0)],
      fc_informers = [([], [(NamespaceIndex, namespace_index)])], fc_fallback = sample_fallback, fc_namespace = [],
      fc_machinery = sample_machinery, fc_env = Map.empty\<rparr>"

definition sample_store :: "string memory" where
  "sample_store = ([(''a/x'', Obj (sample_object ''a'' ''1'')), (''b/y'', Obj (sample_object ''b'' ''1'')),
                    (''b/z'', Obj (sample_object ''b'' ''2''))],
     [(NamespaceIndex, namespace_index)])"

theorem list_after_IndexField_witness:
  "cache_List memory_informers
      (snd (IndexField memory_informers (sample_cache\<lparr>fc_informers := [sample_store]\<rparr>)
        (sample_object [] []) ''body'' (\<lambda>ob. Some [ob_Body ob])))
      ((sample_object [] [])\<lparr>ob_GoType := ''*v1alpha1.AuditLoggingList''\<rparr>)
      \<lparr>lo_LabelSelector = None,
       lo_FieldSelector = Some [\<lparr>rq_Field = ''body'', rq_Operator = Equals, rq_Value = ''1''\<rparr>],
       lo_Namespace = ''b''\<rparr> =
   Some (Inr [(sample_object ''b'' ''1'')\<lparr>ob_GVK := GVK ''operator.ibm.com'' ''v1alpha1'' ''AuditLogging''\<rparr>])"
proof -
  let ?lst = "(sample_object [] [])\<lparr>ob_GoType := ''*v1alpha1.AuditLoggingList''\<rparr>"
  let ?ind = "IndexField memory_informers (sample_cache\<lparr>fc_informers := [sample_store]\<rparr>)
        (sample_object [] []) ''body'' (\<lambda>ob. Some [ob_Body ob])"
  have new: "NewAuditCache memory_informers sample_machinery Map.empty (\<lambda>_. Inr sample_fallback) [''b'']
      sample_config None = Inr sample_cache"
    by (simp add: NewAuditCache_def cached_gvks_def sample_machinery_def sample_cache_def memory_informers_def
        getClientForGVK_def Let_def)
  have ok: "fst ?ind = None"
    by (simp add: IndexField_def indexByField_def sample_cache_def sample_machinery_def sample_object_def
        memory_informers_def sample_store_def FieldIndexName_def NamespaceIndex_def)
  have law: "indexed memory_informers i' name idx \<and> if_List memory_informers i' = if_List memory_informers i"
    if "if_AddIndexer memory_informers name idx i = (None, i')" for i i' name and idx :: "string index_func"
    using that memory_AddIndexer[OF that]
    by (auto simp: memory_informers_def split: prod.splits if_splits)
  have "cache_List memory_informers (snd ?ind) ?lst
      \<lparr>lo_LabelSelector = None,
       lo_FieldSelector = Some [\<lparr>rq_Field = ''body'', rq_Operator = Equals, rq_Value = ''1''\<rparr>],
       lo_Namespace = ''b''\<rparr> =
     Some (Inr (map (\<lambda>ob. ob\<lparr>ob_GVK := GVK ''operator.ibm.com'' ''v1alpha1'' ''AuditLogging''\<rparr>)
      (filter (\<lambda>ob. ''1'' \<in> set (elems (Some [ob_Body ob])) \<and> selected ''b'' None ob)
        (stored_objects (if_List memory_informers sample_store)))))"
    by (rule list_after_IndexField[OF new _ _ _ law, of sample_store "sample_object [] []" "''body''"])
      (use ok in \<open>auto simp: prod_eq_iff sample_machinery_def sample_object_def sample_store_def
        memory_informers_def well_named_def namespace_name_def\<close>)
  then show ?thesis
    by (simp add: memory_informers_def sample_store_def sample_object_def selected_def)
qed

definition ends_wait :: "wait_event \<Rightarrow> bool" where
  "ends_wait ev = (case ev of CtxDone \<Rightarrow> True | Tick answers \<Rightarrow> True \<in> set answers)"

lemma poll_eq: "poll w answers \<longleftrightarrow> w \<and> True \<notin> set answers"
  unfolding poll_def by (induction answers arbitrary: w) auto

lemma wait_loop_eq:
  "wait_loop w events =
     (if \<not> w then Some events
      else if \<exists>ev \<in> set events. ends_wait ev then Some (tl (dropWhile (\<lambda>ev. \<not> ends_wait ev) events))
      else None)"
  by (induction w events rule: wait_loop.induct) (auto simp: poll_eq ends_wait_def)

text \<open>C30: \<open>WaitForCacheSync\<close> stops waiting at the first moment at which the context is done or some
  informer of the map has synced (not, as its comment says, all of them), never before, and then
  returns what the fallback cache returns.\<close>

theorem WaitForCacheSync_ends:
  "WaitForCacheSync c events =
     (if list_ex ends_wait events then Some (fb_WaitForCacheSync (fc_fallback c)) else None)"
  by (simp add: WaitForCacheSync_def wait_loop_eq list_ex_iff)

end
