(* ===== verification/CacheSpec.thy ===== *)
theory CacheSpec
  imports CacheProps
begin

text \<open>
  The cache as its clients see it: which kinds have an informer in any cache that can arise, and the
  refinement of an abstract store, a finite map from keys to objects, by \<open>Get\<close> and \<open>List\<close>.
\<close>

subsection \<open>The caches that arise\<close>

definition audit_gvk :: GroupVersionKind where
  "audit_gvk = GVK ''operator.ibm.com'' ''v1alpha1'' ''AuditLogging''"

definition audit_list_gvk :: GroupVersionKind where
  "audit_list_gvk = GVK ''operator.ibm.com'' ''v1alpha1'' ''AuditLoggingList''"

text \<open>A cache is built, gets indexes, and its running informers replace what they hold.\<close>

inductive arises :: "('i, 'b) informer_pkg \<Rightarrow> ('i, 'h, 'b) filteredCache \<Rightarrow> bool" for p where
  new: "NewAuditCache p am env multi namespaces config resync = Inr c \<Longrightarrow> arises p c"
| index: "arises p c \<Longrightarrow> arises p (snd (IndexField p c obj field ex))"
| received: "arises p c \<Longrightarrow> length ifs = length (fc_informers c) \<Longrightarrow> arises p (c\<lparr>fc_informers := ifs\<rparr>)"

lemma IndexField_keeps:
  "fc_informerMap (snd (IndexField p c obj field ex)) = fc_informerMap c"
  "length (fc_informers (snd (IndexField p c obj field ex))) = length (fc_informers c)"
  "fc_namespace (snd (IndexField p c obj field ex)) = fc_namespace c"
  by (auto simp: IndexField_def split: sum.splits option.splits prod.splits)

lemma arises_shape:
  "arises p c \<Longrightarrow> fc_informerMap c = [(audit_gvk, 0), (audit_list_gvk, 0)] \<and> length (fc_informers c) = 1 \<and>
     fc_namespace c = []"
proof (induction rule: arises.induct)
  case (new am env multi namespaces config resync c)
  then show ?case by (auto simp: NewAuditCache_Inr cached_gvks_def audit_gvk_def audit_list_gvk_def)
qed (simp_all add: IndexField_keeps)

lemma arises_informer:
  assumes "arises p c"
  shows "informer_of c gvk =
    (if gvk = audit_gvk \<or> gvk = audit_list_gvk then Some (fc_informers c ! 0) else None)"
  using arises_shape[OF assms] by (auto simp: informer_of_def)

subsection \<open>The store behind an informer\<close>

text \<open>
  What client-go documents of an informer whose store holds the objects \<open>S\<close>: \<open>GetByKey\<close> finds an object
  under the key made of its namespace and name (which have no slash), \<open>List\<close> returns every object once, and the index over the
  namespaces selects the objects of a namespace.
\<close>

type_synonym 'b store = "nsname \<Rightarrow> 'b robject option"

definition plain_key :: "nsname \<Rightarrow> bool" where
  "plain_key key \<longleftrightarrow> CHR ''/'' \<notin> set (key_ns key) \<and> CHR ''/'' \<notin> set (key_name key)"

definition holds :: "('i, 'b) informer_pkg \<Rightarrow> 'i \<Rightarrow> 'b store \<Rightarrow> bool" where
  "holds p ifm S \<longleftrightarrow>
     (\<forall>key. plain_key key \<longrightarrow> if_GetByKey p ifm (store_key key) = Inr (map_option Obj (S key))) \<and>
     well_named (if_List p ifm) \<and> set (stored_objects (if_List p ifm)) = ran S \<and>
     indexed p ifm NamespaceIndex
       (\<lambda>it. case it of Obj ob \<Rightarrow> Inr (map_option (\<lambda>m. [m_Namespace m]) (ob_Meta ob)) | _ \<Rightarrow> Inr None)"

text \<open>The abstract reader: an object by its key, and the objects of a namespace with matching labels.\<close>

definition spec_get :: "'b store \<Rightarrow> nsname \<Rightarrow> 'b robject option" where
  "spec_get S key = S key"

definition spec_list :: "'b store \<Rightarrow> string \<Rightarrow> (labels \<Rightarrow> bool) option \<Rightarrow> 'b robject set" where
  "spec_list S ns sel = {ob \<in> ran S. selected ns sel ob}"

lemma stored_filter_namespace:
  "well_named items \<Longrightarrow>
   stored_objects (filter (index_hit
       (\<lambda>it. case it of Obj ob \<Rightarrow> Inr (map_option (\<lambda>m. [m_Namespace m]) (ob_Meta ob)) | _ \<Rightarrow> Inr None) ns) items) =
     filter (\<lambda>ob. case ob_Meta ob of None \<Rightarrow> False | Some m \<Rightarrow> m_Namespace m = ns) (stored_objects items)"
proof (induction items)
  case (Cons it items)
  then obtain ob m where "it = Obj ob" "ob_Meta ob = Some m" "well_named items"
    by (auto simp: well_named_def split: item.splits option.splits)
  with Cons show ?case by (auto simp: index_hit_def)
qed simp

lemma list_of_store:
  assumes gvk: "am_GVKForObject (fc_machinery c) lst = Inr gvk" "informer_of c gvk = Some ifm"
      "listToGVK gvk = Some gvk'" "fc_namespace c = []"
    and S: "holds p ifm S"
    and set_list: "\<And>obs. am_SetList (fc_machinery c) lst obs = None"
  shows "\<exists>obs. cache_List p c lst \<lparr>lo_LabelSelector = sel, lo_FieldSelector = None, lo_Namespace = ns\<rparr> =
      Some (Inr obs) \<and> set obs = (\<lambda>ob. ob\<lparr>ob_GVK := gvk'\<rparr>) ` spec_list S ns sel"
proof -
  let ?opts = "\<lparr>lo_LabelSelector = sel, lo_FieldSelector = None, lo_Namespace = ns\<rparr>"
  let ?idx = "\<lambda>it. case it of Obj ob \<Rightarrow> Inr (map_option (\<lambda>m. [m_Namespace m]) (ob_Meta ob)) | _ \<Rightarrow> Inr None"
  let ?cands = "if ns = [] then if_List p ifm else filter (index_hit ?idx ns) (if_List p ifm)"
  have named: "well_named (if_List p ifm)" and set: "set (stored_objects (if_List p ifm)) = ran S"
    and idx: "\<And>v. if_ByIndex p ifm NamespaceIndex v = Inr (filter (index_hit ?idx v) (if_List p ifm))"
    using S unfolding holds_def indexed_def by blast+
  have "candidates p ifm ?opts = Inr ?cands"
    by (simp add: candidates_def idx)
  moreover have "filter_items c ?opts gvk ?cands = Some (Inr (map (\<lambda>ob. ob\<lparr>ob_GVK := gvk'\<rparr>)
      (filter (selected ns sel) (stored_objects ?cands))))"
    using filter_items_ok[OF gvk(4,3), of ?cands ?opts] named well_named_filter[OF named]
    by (cases "ns = []") simp_all
  moreover have "filter (selected ns sel) (stored_objects ?cands) = filter (selected ns sel) (stored_objects (if_List p ifm))"
    by (simp add: stored_filter_namespace[OF named] filter_filter)
      (auto simp: selected_def intro!: filter_cong split: option.splits)
  ultimately have "cache_List p c lst ?opts = Some (Inr (map (\<lambda>ob. ob\<lparr>ob_GVK := gvk'\<rparr>)
      (filter (selected ns sel) (stored_objects (if_List p ifm)))))"
    using gvk set_list by (simp add: cache_List_def)
  then show ?thesis by (auto simp: spec_list_def set)
qed

subsection \<open>Properties\<close>

text \<open>C31: In every cache that can arise, after any number of indexes and whatever its informers have received,
  \<open>AuditLogging\<close> and \<open>AuditLoggingList\<close> share one informer and every other kind goes to the fallback
  cache; no entry of the map points outside the informers; and \<open>Start\<close> runs the one informer twice,
  once for each of the two kinds.\<close>

theorem cache_informers:
  assumes "arises p c"
  shows "GetInformerForKind c gvk =
      (if gvk = audit_gvk \<or> gvk = audit_list_gvk then Inr (Own (hd (fc_informers c)))
       else map_sum id Fallback (fb_GetInformerForKind (fc_fallback c) gvk)) \<and>
    (\<forall>(k, n) \<in> set (fc_informerMap c). n < length (fc_informers c)) \<and>
    cache_Start c = ({#0, 0#}, fb_Start (fc_fallback c))"
proof -
  note shape = arises_shape[OF assms]
  then obtain ifm where "fc_informers c = [ifm]" by (auto simp: length_Suc_conv)
  then show ?thesis
    using shape arises_informer[OF assms, of gvk] by (simp add: GetInformerForKind_def cache_Start_def)
qed

lemma sample_arises: "arises memory_informers sample_cache"
  by (rule new[of _ sample_machinery Map.empty "\<lambda>_. Inr sample_fallback" "[''b'']" sample_config None])
    (simp add: NewAuditCache_Inr cached_gvks_def sample_machinery_def sample_cache_def memory_informers_def
      getClientForGVK_def Let_def)

theorem cache_informers_witness:
  "GetInformerForKind sample_cache (GVK [] ''v1'' ''Secret'') = Inr (Fallback 0) \<and>
   cache_Start sample_cache = ({#0, 0#}, None)"
  using cache_informers[OF sample_arises, of "GVK [] ''v1'' ''Secret''"]
  by (simp add: audit_gvk_def audit_list_gvk_def) (simp add: sample_cache_def sample_fallback_def)

text \<open>C10: The cache refines an abstract store. When the informer holds the objects \<open>S\<close>, a map from keys to
  objects, and these have the Go type that is asked for, \<open>Get\<close> returns what the map has under the key,
  and asks the API server when it has nothing there; \<open>List\<close> without a field selector returns exactly
  the objects of the map that lie in the namespace and match the labels. Each comes with the kind
  \<open>AuditLogging\<close>.\<close>

theorem cache_refines_store:
  assumes "arises p c" "holds p (hd (fc_informers c)) S" "plain_key key"
    and "am_GVKForObject (fc_machinery c) obj = Inr audit_gvk"
      "\<And>item. item \<in> ran S \<Longrightarrow> ob_GoType item = ob_GoType obj"
    and "am_GVKForObject (fc_machinery c) lst = Inr audit_list_gvk" "\<And>obs. am_SetList (fc_machinery c) lst obs = None"
  shows "cache_Get p c key obj =
      (case spec_get S key of
         Some item \<Rightarrow> Some (None, item\<lparr>ob_GVK := audit_gvk\<rparr>)
       | None \<Rightarrow> getFromClient c key obj audit_gvk) \<and>
    (\<exists>obs. cache_List p c lst \<lparr>lo_LabelSelector = sel, lo_FieldSelector = None, lo_Namespace = ns\<rparr> =
        Some (Inr obs) \<and> set obs = (\<lambda>ob. ob\<lparr>ob_GVK := audit_gvk\<rparr>) ` spec_list S ns sel)"
proof
  obtain ifm where ifm: "fc_informers c = [ifm]"
    using arises_shape[OF assms(1)] by (auto simp: length_Suc_conv)
  note informer = arises_informer[OF assms(1), unfolded ifm, simplified]
  have key: "if_GetByKey p ifm (store_key key) = Inr (map_option Obj (S key))"
    using assms(2,3) by (simp add: holds_def ifm)
  show "cache_Get p c key obj =
      (case spec_get S key of
         Some item \<Rightarrow> Some (None, item\<lparr>ob_GVK := audit_gvk\<rparr>)
       | None \<Rightarrow> getFromClient c key obj audit_gvk)"
    using assms(4,5) key informer
    by (auto simp: cache_Get_def getFromStore_def copy_out_def AssignableTo_def spec_get_def ranI
        split: option.splits)
  show "\<exists>obs. cache_List p c lst \<lparr>lo_LabelSelector = sel, lo_FieldSelector = None, lo_Namespace = ns\<rparr> =
        Some (Inr obs) \<and> set obs = (\<lambda>ob. ob\<lparr>ob_GVK := audit_gvk\<rparr>) ` spec_list S ns sel"
    by (rule list_of_store[OF assms(6) _ _ _ _ assms(7)])
      (use informer assms(2) arises_shape[OF assms(1)] ifm listToGVK_append[of _ _ "''AuditLogging''"]
       in \<open>simp_all add: audit_gvk_def audit_list_gvk_def\<close>)
qed

definition sample_objects :: "string store" where
  "sample_objects = [NamespacedName ''a'' ''x'' \<mapsto> sample_object ''a'' ''1'',
     NamespacedName ''b'' ''y'' \<mapsto> sample_object ''b'' ''1'', NamespacedName ''b'' ''z'' \<mapsto> sample_object ''b'' ''2'']"

definition started_cache :: "(string memory, nat, string) filteredCache" where
  "started_cache = sample_cache\<lparr>fc_informers := [sample_store]\<rparr>"

lemma sample_store_key:
  assumes "plain_key key" "ns \<noteq> []" "CHR ''/'' \<notin> set ns"
  shows "store_key key = ns @ ''/'' @ n \<longleftrightarrow> key = NamespacedName ns n"
proof -
  have "store_key key = (if key_ns key = [] then key_name key else key_ns key @ CHR ''/'' # key_name key)"
    by (simp add: store_key_def)
  then show ?thesis
    using assms split_at_first[of "CHR ''/''" "key_ns key" ns "key_name key" n]
    by (cases key) (auto simp: plain_key_def)
qed

lemma sample_holds: "holds memory_informers sample_store sample_objects"
proof -
  have "if_GetByKey memory_informers sample_store (store_key key) = Inr (map_option Obj (sample_objects key))"
    if "plain_key key" for key
    using sample_store_key[OF that, of "''a''" "''x''"] sample_store_key[OF that, of "''b''" "''y''"]
      sample_store_key[OF that, of "''b''" "''z''"]
    by (auto simp: memory_informers_def sample_store_def sample_objects_def)
  moreover have "well_named (if_List memory_informers sample_store)"
    by (simp add: memory_informers_def sample_store_def well_named_def sample_object_def namespace_name_def)
  moreover have "set (stored_objects (if_List memory_informers sample_store)) = ran sample_objects"
    by (auto simp: memory_informers_def sample_store_def sample_objects_def)
  moreover have "indexed memory_informers sample_store NamespaceIndex
       (\<lambda>it. case it of Obj ob \<Rightarrow> Inr (map_option (\<lambda>m. [m_Namespace m]) (ob_Meta ob)) | _ \<Rightarrow> Inr None)"
    by (auto simp: indexed_def memory_informers_def sample_store_def index_hit_def namespace_index_def
        sample_object_def)
  ultimately show ?thesis by (simp add: holds_def)
qed

theorem cache_refines_store_witness:
  "cache_Get memory_informers started_cache (NamespacedName ''b'' ''y'') (sample_object [] []) =
     Some (None, (sample_object ''b'' ''1'')\<lparr>ob_GVK := audit_gvk\<rparr>) \<and>
   (\<exists>obs. cache_List memory_informers started_cache ((sample_object [] [])\<lparr>ob_GoType := ''*v1alpha1.AuditLoggingList''\<rparr>)
       \<lparr>lo_LabelSelector = None, lo_FieldSelector = None, lo_Namespace = ''a''\<rparr> = Some (Inr obs) \<and>
     set obs = {(sample_object ''a'' ''1'')\<lparr>ob_GVK := audit_gvk\<rparr>})"
proof -
  have "spec_list sample_objects ''a'' None = {sample_object ''a'' ''1''}"
    by (auto simp: spec_list_def sample_objects_def selected_def sample_object_def)
  moreover have "spec_get sample_objects (NamespacedName ''b'' ''y'') = Some (sample_object ''b'' ''1'')"
    by (simp add: spec_get_def sample_objects_def)
  moreover have "arises memory_informers started_cache"
    unfolding started_cache_def by (rule received[OF sample_arises]) (simp add: sample_cache_def)
  moreover have "ob_GoType item = ob_GoType (sample_object [] [])" if "item \<in> ran sample_objects" for item
    using that by (auto simp: sample_objects_def sample_object_def)
  ultimately show ?thesis
    using cache_refines_store[of memory_informers started_cache sample_objects "NamespacedName ''b'' ''y''"
        "sample_object [] []" "(sample_object [] [])\<lparr>ob_GoType := ''*v1alpha1.AuditLoggingList''\<rparr>" None "''a''"]
      sample_holds
    by (simp add: started_cache_def sample_cache_def sample_machinery_def plain_key_def audit_gvk_def
        audit_list_gvk_def sample_object_def)
qed

end
