(* ===== verification/CommonAuditReconciler.thy ===== *)
theory CommonAuditReconciler
  imports Client
begin

text \<open>
  controllers/commonaudit_controller.go and controllers/reconcile_commonaudit.go: the controller of the
  namespace-scoped \<open>CommonAudit\<close> resource, one definition per method of \<open>CommonAuditReconciler\<close>.
\<close>

definition ca_owner :: "CommonAudit \<Rightarrow> owner_reference" where
  "ca_owner inst = \<lparr>or_Kind = ''CommonAudit'', or_Name = ca_Name inst, or_Namespace = ca_Namespace inst\<rparr>"

subsection \<open>ConfigMaps\<close>

definition ca_restartFluentdPods ::
    "'w reconciler \<Rightarrow> CommonAudit \<Rightarrow> 'w \<Rightarrow> api_error option \<times> 'w" where
  "ca_restartFluentdPods r inst =
     restart_pods r (ca_Namespace inst) (LabelsForSelector FluentdName (ca_Name inst))"

text \<open>The switch over the name of the ConfigMap.\<close>

definition ca_config_drift :: "CommonAudit \<Rightarrow> string \<Rightarrow> configmap \<Rightarrow> configmap \<Rightarrow> drift" where
  "ca_config_drift inst configName expected found =
     (if configName = cm_name ConfigName then
        drift_of (Option.bind (sync_key expected EnableAuditLogForwardKey (found, False))
                              (sync_key expected FluentdConfigKey))
      else if configName = cm_name SourceConfigName then
        drift_of (sync_key expected SourceConfigKey (found, False))
      else if configName = cm_name HTTPIngestName then
        drift_of (sync_key expected HTTPIngestURLKey (found, False))
      else if configName = cm_name SplunkConfigName \<or> configName = cm_name QRadarConfigName then
        (let (equal, missing) = EqualSIEMConfig inst found
         in if \<not> equal
            then if missing then Recreate
                 else let data = UpdateSIEMConfig inst found;
                          key = (if configName = cm_name SplunkConfigName
                                 then SplunkConfigKey else QRadarConfigKey)
                      in (case mset_at (cm_Data found) key data of
                            None \<Rightarrow> DriftPanic
                          | Some d \<Rightarrow> Repair (found\<lparr>cm_Data := d\<rparr>))
            else InSync)
      else InSync)"

definition ca_reconcileConfig ::
    "'w reconciler \<Rightarrow> CommonAudit \<Rightarrow> string \<Rightarrow> 'w \<Rightarrow> outcome \<times> 'w" where
  "ca_reconcileConfig r inst configName w =
     (case BuildFluentdConfigMap (r_yaml r) inst configName of
        Inl err \<Rightarrow> (Failed (OtherError err), w)
      | Inr expected \<Rightarrow>
          get_or_create (cl_configmaps (r_client r)) (NamespacedName (ca_Namespace inst) configName)
            (owned r (ca_owner inst) (cm_Meta expected) (\<lambda>m. expected\<lparr>cm_Meta := m\<rparr>))
            (\<lambda>found. settle_config r (ca_restartFluentdPods r inst) found
                       (ca_config_drift inst configName expected found)) w)"

definition ca_reconcileAuditConfigMaps :: "'w reconciler \<Rightarrow> CommonAudit \<Rightarrow> 'w \<Rightarrow> outcome \<times> 'w" where
  "ca_reconcileAuditConfigMaps r inst =
     run_reconcilers (map (ca_reconcileConfig r inst) FluentdConfigMaps)"

subsection \<open>Certificates and issuers\<close>

definition ca_reconcileIssuer ::
    "'w reconciler \<Rightarrow> (string \<Rightarrow> issuer) \<Rightarrow> CommonAudit \<Rightarrow> 'w \<Rightarrow> outcome \<times> 'w" where
  "ca_reconcileIssuer r f inst =
     (let expected = f (ca_Namespace inst)
      in get_or_create (cl_issuers (r_client r)) (meta_key (i_Meta expected))
           (owned r (ca_owner inst) (i_Meta expected) (\<lambda>m. expected\<lparr>i_Meta := m\<rparr>))
           (\<lambda>found w. if EqualIssuers expected found
              then change (op_update (cl_issuers (r_client r))) (found\<lparr>i_Spec := i_Spec expected\<rparr>) w
              else (Done, w)))"

definition ca_reconcileRootCACert :: "'w reconciler \<Rightarrow> CommonAudit \<Rightarrow> 'w \<Rightarrow> outcome \<times> 'w" where
  "ca_reconcileRootCACert r inst =
     (let expectedCert = BuildRootCACert (ca_Namespace inst)
      in get_or_create (cl_certs (r_client r)) (meta_key (ct_Meta expectedCert))
           (owned r (ca_owner inst) (ct_Meta expectedCert) (\<lambda>m. expectedCert\<lparr>ct_Meta := m\<rparr>))
           (\<lambda>found w. if EqualCerts expectedCert found
              then change (op_update (cl_certs (r_client r))) (found\<lparr>ct_Spec := ct_Spec expectedCert\<rparr>) w
              else (Done, w)))"

definition ca_reconcileCertPreReqs :: "'w reconciler \<Rightarrow> CommonAudit \<Rightarrow> 'w \<Rightarrow> outcome \<times> 'w" where
  "ca_reconcileCertPreReqs r inst =
     run_reconcilers
       [ca_reconcileIssuer r BuildGodIssuer inst, ca_reconcileRootCACert r inst,
        ca_reconcileIssuer r BuildRootCAIssuer inst]"

definition ca_reconcileAuditCertificate ::
    "'w reconciler \<Rightarrow> CommonAudit \<Rightarrow> string \<Rightarrow> 'w \<Rightarrow> outcome \<times> 'w" where
  "ca_reconcileAuditCertificate r inst name =
     (let issuer = (if ca_Issuer (ca_Spec inst) \<noteq> [] then ca_Issuer (ca_Spec inst) else RootIssuer);
          expectedCert = BuildCertsForAuditLogging (ca_Namespace inst) issuer name
      in get_or_create (cl_certs (r_client r)) (meta_key (ct_Meta expectedCert))
           (owned r (ca_owner inst) (ct_Meta expectedCert) (\<lambda>m. expectedCert\<lparr>ct_Meta := m\<rparr>))
           (\<lambda>found w. if EqualCerts expectedCert found
              then change (op_update (cl_certs (r_client r))) (found\<lparr>ct_Spec := ct_Spec expectedCert\<rparr>) w
              else (Done, w)))"

definition ca_reconcileAuditCerts :: "'w reconciler \<Rightarrow> CommonAudit \<Rightarrow> 'w \<Rightarrow> outcome \<times> 'w" where
  "ca_reconcileAuditCerts r inst =
     run_reconcilers [ca_reconcileAuditCertificate r inst AuditLoggingHTTPSCertName]"

subsection \<open>Secret, service account, service\<close>

definition ca_reconcileSecret :: "'w reconciler \<Rightarrow> CommonAudit \<Rightarrow> 'w \<Rightarrow> outcome \<times> 'w" where
  "ca_reconcileSecret r inst =
     (let expected = BuildSecret inst
      in get_or_create (cl_secrets (r_client r))
           (NamespacedName (ca_Namespace inst) (m_Name (se_Meta expected)))
           (owned r (ca_owner inst) (se_Meta expected) (\<lambda>m. expected\<lparr>se_Meta := m\<rparr>))
           (\<lambda>found w. (Done, w)))"

text \<open>Here the owner is set before the object is looked up.\<close>

definition ca_reconcileServiceAccount :: "'w reconciler \<Rightarrow> CommonAudit \<Rightarrow> 'w \<Rightarrow> outcome \<times> 'w" where
  "ca_reconcileServiceAccount r cr w =
     (let expectedRes = BuildServiceAccount (ca_Namespace cr)
      in case owned r (ca_owner cr) (sa_Meta expectedRes) (\<lambda>m. expectedRes\<lparr>sa_Meta := m\<rparr>) of
           Inl err \<Rightarrow> (Failed err, w)
         | Inr expectedRes \<Rightarrow>
             get_or_create (cl_accounts (r_client r))
               (NamespacedName (ca_Namespace cr) (m_Name (sa_Meta expectedRes)))
               (Inr expectedRes) (\<lambda>found w. (Done, w)) w)"

definition ca_reconcileService :: "'w reconciler \<Rightarrow> CommonAudit \<Rightarrow> 'w \<Rightarrow> outcome \<times> 'w" where
  "ca_reconcileService r inst =
     (let expected = BuildAuditService (ca_Name inst) (ca_Namespace inst)
      in get_or_create (cl_services (r_client r))
           (NamespacedName (ca_Namespace inst) (m_Name (sv_Meta expected)))
           (owned r (ca_owner inst) (sv_Meta expected) (\<lambda>m. expected\<lparr>sv_Meta := m\<rparr>))
           (\<lambda>found w. if EqualServices expected found
              then change (op_delete (cl_services (r_client r))) found w
              else (Done, w)))"

subsection \<open>The fluentd deployment\<close>

definition ca_reconcileFluentdDeployment ::
    "'w reconciler \<Rightarrow> CommonAudit \<Rightarrow> 'w state \<Rightarrow> outcome \<times> 'w state" where
  "ca_reconcileFluentdDeployment r inst s =
     (case BuildDeploymentForFluentd (r_env r) (r_quantity r) inst (snd s) of
        None \<Rightarrow> (Panicked, s)
      | Some (expected, g) \<Rightarrow>
          lift_world
            (get_or_create (cl_deployments (r_client r))
              (NamespacedName (ca_Namespace inst) FluentdDeploymentName)
              (owned r (ca_owner inst) (d_Meta expected) (\<lambda>m. expected\<lparr>d_Meta := m\<rparr>))
              (settle_deployment r expected False)) (fst s, g))"

subsection \<open>Status and events\<close>

definition ca_updateStatus :: "'w reconciler \<Rightarrow> CommonAudit \<Rightarrow> 'w \<Rightarrow> outcome \<times> 'w" where
  "ca_updateStatus r inst w =
     (case cl_list_pods (r_client r) (ca_Namespace inst) (LabelsForSelector FluentdName (ca_Name inst)) w of
        (Inl err, w) \<Rightarrow> (Failed err, w)
      | (Inr pods, w) \<Rightarrow>
          (let podNames = status_nodes pods
           in if podNames \<noteq> ca_Nodes (ca_Status inst)
                 \<or> opversion \<noteq> Reconciled (ca_Versions (ca_Status inst))
              then (case cr_status_common (r_cr r)
                           (inst\<lparr>ca_Status := \<lparr>ca_Nodes = podNames,
                                               ca_Versions = \<lparr>Reconciled = opversion\<rparr>\<rparr>\<rparr>) w of
                      (Inl err, w) \<Rightarrow> (Failed err, w)
                    | (Inr _, w) \<Rightarrow> (Done, w))
              else (Done, w)))"

definition ca_updateEvent ::
    "'w reconciler \<Rightarrow> CommonAudit \<Rightarrow> string \<Rightarrow> event_type \<Rightarrow> string \<Rightarrow> 'w \<Rightarrow> 'w" where
  "ca_updateEvent r inst message ty reason =
     cr_event (r_cr r) \<lparr>e_About = meta_key (ca_Meta inst), e_Type = ty, e_Reason = reason,
                        e_Message = message\<rparr>"

subsection \<open>Reconcile\<close>

definition ca_reconcilers :: "'w reconciler \<Rightarrow> CommonAudit \<Rightarrow> ('w state \<Rightarrow> outcome \<times> 'w state) list" where
  "ca_reconcilers r inst =
     [lift_world (ca_reconcileAuditConfigMaps r inst),
      lift_world (ca_reconcileCertPreReqs r inst),
      lift_world (ca_reconcileAuditCerts r inst),
      lift_world (ca_reconcileSecret r inst),
      lift_world (ca_reconcileServiceAccount r inst),
      lift_world (ca_reconcileService r inst),
      ca_reconcileFluentdDeployment r inst,
      lift_world (ca_updateStatus r inst)]"

definition msg_one_common :: string where
  "msg_one_common =
  ''Only one instance of CommonAudit per namespace. Delete other instances to proceed.''"

text \<open>The reconcilers in turn and, when all are quiet, the event that says so.\<close>

definition ca_run :: "'w reconciler \<Rightarrow> CommonAudit \<Rightarrow> 'w state \<Rightarrow> outcome \<times> 'w state" where
  "ca_run r inst s =
     (case run_reconcilers (ca_reconcilers r inst) s of
        (res, (w, g)) \<Rightarrow>
          if stops res then (res, (w, g))
          else (Done, (ca_updateEvent r inst msg_deployed EventTypeNormal ''Deployed'' w, g)))"

text \<open>
  From the namespace checks on, with the instance as it is after the default status. A list request
  that fails is taken for an empty list.
\<close>

definition ca_check_and_run ::
    "'w reconciler \<Rightarrow> nsname \<Rightarrow> CommonAudit \<Rightarrow> 'w state \<Rightarrow> outcome \<times> 'w state" where
  "ca_check_and_run r req inst s =
     (case GetCSNamespace (r_env r) of
        Inl err \<Rightarrow> (Failed (OtherError err), s)
      | Inr csNamespace \<Rightarrow>
          (case cr_list_audit (r_cr r) (fst s) of (auditLoggingList, w) \<Rightarrow>
             if (case auditLoggingList of Inl _ \<Rightarrow> False | Inr items \<Rightarrow> length items > 0)
                \<and> key_ns req = csNamespace
             then (Done, (ca_updateEvent r inst msg_alongside EventTypeWarning ''Not Allowed'' w, snd s))
             else
               (case cr_list_common (r_cr r) (key_ns req) w of (commonAuditList, w) \<Rightarrow>
                  if (case commonAuditList of Inl _ \<Rightarrow> False | Inr items \<Rightarrow> length items > 1)
                  then (Done, (ca_updateEvent r inst msg_one_common EventTypeWarning ''Not Allowed'' w, snd s))
                  else ca_run r inst
                         (ca_updateEvent r inst ''Instance found'' EventTypeNormal ''Initializing'' w, snd s))))"

definition ca_default_status :: "CommonAudit \<Rightarrow> CommonAudit" where
  "ca_default_status inst =
     inst\<lparr>ca_Status := \<lparr>ca_Nodes = DefaultStatusForCR, ca_Versions = \<lparr>Reconciled = opversion\<rparr>\<rparr>\<rparr>"

definition ca_Reconcile :: "'w reconciler \<Rightarrow> nsname \<Rightarrow> 'w state \<Rightarrow> outcome \<times> 'w state" where
  "ca_Reconcile r req s =
     (case cr_get_common (r_cr r) req (fst s) of
        (Inl err, w) \<Rightarrow> if IsNotFound err then (Done, (w, snd s)) else (Failed err, (w, snd s))
      | (Inr inst, w) \<Rightarrow>
          if length (elems (ca_Nodes (ca_Status inst))) = 0
          then (case cr_status_common (r_cr r) (ca_default_status inst) w of
                  (Inl err, w) \<Rightarrow> (Failed err, (w, snd s))
                | (Inr inst, w) \<Rightarrow> ca_check_and_run r req inst (w, snd s))
          else ca_check_and_run r req inst (w, snd s))"

end
