(* ===== verification/AuditLoggingReconciler.thy ===== *)
theory AuditLoggingReconciler
  imports Client
begin

text \<open>
  controllers/auditlogging_controller.go and controllers/reconcile_auditlogging.go: the controller of
  the cluster-scoped \<open>AuditLogging\<close> resource, one definition per method of \<open>AuditLoggingReconciler\<close>.
  Its operands live in the namespace that the environment names.
\<close>

definition al_owner :: "AuditLogging \<Rightarrow> owner_reference" where
  "al_owner inst = \<lparr>or_Kind = ''AuditLogging'', or_Name = al_Name inst,
                    or_Namespace = m_Namespace (al_Meta inst)\<rparr>"

subsection \<open>Service and job\<close>

definition al_reconcileService :: "'w reconciler \<Rightarrow> AuditLogging \<Rightarrow> string \<Rightarrow> 'w \<Rightarrow> outcome \<times> 'w" where
  "al_reconcileService r inst namespace =
     (let expected = BuildAuditService (al_Name inst) namespace
      in get_or_create (cl_services (r_client r)) (NamespacedName namespace (m_Name (sv_Meta expected)))
           (owned r (al_owner inst) (sv_Meta expected) (\<lambda>m. expected\<lparr>sv_Meta := m\<rparr>))
           (\<lambda>found w. if EqualServices expected found
              then change (op_delete (cl_services (r_client r))) found w
              else (Done, w)))"

definition al_reconcileJob :: "'w reconciler \<Rightarrow> AuditLogging \<Rightarrow> string \<Rightarrow> 'w \<Rightarrow> outcome \<times> 'w" where
  "al_reconcileJob r inst namespace =
     (let expected = BuildJobForAuditLogging (r_env r) inst namespace
      in get_or_create (cl_jobs (r_client r)) (meta_key (j_Meta expected))
           (owned r (al_owner inst) (j_Meta expected) (\<lambda>m. expected\<lparr>j_Meta := m\<rparr>))
           (\<lambda>found w. (Done, w)))"

subsection \<open>ConfigMaps\<close>

definition al_restartFluentdPods ::
    "'w reconciler \<Rightarrow> AuditLogging \<Rightarrow> string \<Rightarrow> 'w \<Rightarrow> api_error option \<times> 'w" where
  "al_restartFluentdPods r inst namespace =
     restart_pods r namespace (LabelsForSelector FluentdName (al_Name inst))"

definition al_config_drift :: "yaml_pkg \<Rightarrow> string \<Rightarrow> configmap \<Rightarrow> configmap \<Rightarrow> drift" where
  "al_config_drift yaml configName expected found =
     (if configName = cm_name ConfigName then
        drift_of (sync_key expected EnableAuditLogForwardKey (found, False))
      else if configName = cm_name SourceConfigName then
        drift_of (sync_key expected SourceConfigKey (found, False))
      else if configName = cm_name HTTPIngestName then
        drift_of (sync_key expected HTTPIngestURLKey (found, False))
      else if configName = cm_name SplunkConfigName \<or> configName = cm_name QRadarConfigName then
        (if \<not> EqualMatchTags found
         then case BuildWithSIEMConfigs yaml found of
                Inl err \<Rightarrow> DriftError err
              | Inr data \<Rightarrow>
                  (let key = (if configName = cm_name SplunkConfigName
                              then SplunkConfigKey else QRadarConfigKey)
                   in case mset_at (cm_Data found) key data of
                        None \<Rightarrow> DriftPanic
                      | Some d \<Rightarrow> Repair (found\<lparr>cm_Data := d\<rparr>))
         else InSync)
      else InSync)"

definition al_reconcileConfig ::
    "'w reconciler \<Rightarrow> AuditLogging \<Rightarrow> string \<Rightarrow> string \<Rightarrow> 'w \<Rightarrow> outcome \<times> 'w" where
  "al_reconcileConfig r inst configName namespace w =
     (case BuildConfigMap (r_yaml r) inst configName namespace of
        Inl err \<Rightarrow> (Failed (OtherError err), w)
      | Inr expected \<Rightarrow>
          get_or_create (cl_configmaps (r_client r)) (NamespacedName namespace configName)
            (owned r (al_owner inst) (cm_Meta expected) (\<lambda>m. expected\<lparr>cm_Meta := m\<rparr>))
            (\<lambda>found. settle_config r (al_restartFluentdPods r inst namespace) found
                       (al_config_drift (r_yaml r) configName expected found)) w)"

definition al_reconcileAuditConfigMaps ::
    "'w reconciler \<Rightarrow> AuditLogging \<Rightarrow> string \<Rightarrow> 'w \<Rightarrow> outcome \<times> 'w" where
  "al_reconcileAuditConfigMaps r inst namespace =
     run_reconcilers (map (\<lambda>cm. al_reconcileConfig r inst cm namespace) FluentdConfigMaps)"

subsection \<open>Workloads\<close>

text \<open>The update keeps the host aliases and the pod labels of the daemon set that was found.\<close>

definition with_daemonset_spec :: "daemonset \<Rightarrow> daemonset \<Rightarrow> daemonset" where
  "with_daemonset_spec expected found =
     (let temp = ps_HostAliases (pt_Spec (dss_Template (dset_Spec found)));
          tempPodLabels = m_Labels (pt_Meta (dss_Template (dset_Spec found)));
          template = dss_Template (dset_Spec expected)
      in found\<lparr>dset_Spec := (dset_Spec expected)
           \<lparr>dss_Template := template
              \<lparr>pt_Spec := (pt_Spec template)\<lparr>ps_HostAliases := temp\<rparr>,
               pt_Meta := (pt_Meta template)\<lparr>m_Labels := tempPodLabels\<rparr>\<rparr>\<rparr>\<rparr>)"

definition settle_daemonset ::
    "'w reconciler \<Rightarrow> daemonset \<Rightarrow> daemonset \<Rightarrow> 'w \<Rightarrow> outcome \<times> 'w" where
  "settle_daemonset r expected found w =
     (case EqualDaemonSets (r_quantity r) expected found of
        None \<Rightarrow> (Panicked, w)
      | Some equal \<Rightarrow>
          if \<not> equal
          then change (op_update (cl_daemonsets (r_client r))) (with_daemonset_spec expected found) w
          else (Done, w))"

definition al_reconcileFluentdDaemonSet ::
    "'w reconciler \<Rightarrow> AuditLogging \<Rightarrow> string \<Rightarrow> 'w state \<Rightarrow> outcome \<times> 'w state" where
  "al_reconcileFluentdDaemonSet r inst namespace s =
     (case BuildDaemonForFluentd (r_env r) (r_quantity r) inst namespace (snd s) of
        None \<Rightarrow> (Panicked, s)
      | Some (expected, g) \<Rightarrow>
          lift_world
            (get_or_create (cl_daemonsets (r_client r)) (NamespacedName namespace FluentdDaemonSetName)
              (owned r (al_owner inst) (dset_Meta expected) (\<lambda>m. expected\<lparr>dset_Meta := m\<rparr>))
              (settle_daemonset r expected)) (fst s, g))"

definition al_removeDisabledPolicyControllerDeploy ::
    "'w reconciler \<Rightarrow> string \<Rightarrow> 'w \<Rightarrow> outcome \<times> 'w" where
  "al_removeDisabledPolicyControllerDeploy r namespace w =
     (case op_get (cl_deployments (r_client r))
             (NamespacedName namespace AuditPolicyControllerDeploy) w of
        (Inr policyDeploy, w) \<Rightarrow> change (op_delete (cl_deployments (r_client r))) policyDeploy w
      | (Inl err, w) \<Rightarrow> if \<not> IsNotFound err then (Failed err, w) else (Done, w))"

definition al_reconcilePolicyControllerDeployment ::
    "'w reconciler \<Rightarrow> AuditLogging \<Rightarrow> string \<Rightarrow> 'w state \<Rightarrow> outcome \<times> 'w state" where
  "al_reconcilePolicyControllerDeployment r inst namespace s =
     (if EnableAuditPolicy (al_policy inst) = ''false''
      then lift_world (al_removeDisabledPolicyControllerDeploy r namespace) s
      else if EnableAuditPolicy (al_policy inst) = ''true''
      then (case BuildDeploymentForPolicyController (r_env r) inst namespace (snd s) of (expected, g) \<Rightarrow>
              lift_world
                (get_or_create (cl_deployments (r_client r))
                  (NamespacedName namespace AuditPolicyControllerDeploy)
                  (owned r (al_owner inst) (d_Meta expected) (\<lambda>m. expected\<lparr>d_Meta := m\<rparr>))
                  (settle_deployment r expected True)) (fst s, g))
      else (Done, s))"

subsection \<open>Certificates and service account\<close>

definition al_reconcileAuditCertificate ::
    "'w reconciler \<Rightarrow> AuditLogging \<Rightarrow> string \<Rightarrow> string \<Rightarrow> 'w \<Rightarrow> outcome \<times> 'w" where
  "al_reconcileAuditCertificate r inst name namespace =
     (let expectedCert = BuildCertsForAuditLogging namespace (alf_Issuer (al_Fluentd (al_Spec inst))) name
      in get_or_create (cl_certs (r_client r)) (meta_key (ct_Meta expectedCert))
           (owned r (al_owner inst) (ct_Meta expectedCert) (\<lambda>m. expectedCert\<lparr>ct_Meta := m\<rparr>))
           (\<lambda>foundCert w. if EqualCerts expectedCert foundCert
              then change (op_update (cl_certs (r_client r)))
                     (foundCert\<lparr>ct_Spec := ct_Spec expectedCert\<rparr>) w
              else (Done, w)))"

definition al_reconcileAuditCerts :: "'w reconciler \<Rightarrow> AuditLogging \<Rightarrow> string \<Rightarrow> 'w \<Rightarrow> outcome \<times> 'w" where
  "al_reconcileAuditCerts r inst namespace =
     run_reconcilers
       [al_reconcileAuditCertificate r inst AuditLoggingHTTPSCertName namespace,
        al_reconcileAuditCertificate r inst AuditLoggingCertName namespace]"

definition al_reconcileServiceAccount ::
    "'w reconciler \<Rightarrow> AuditLogging \<Rightarrow> string \<Rightarrow> 'w \<Rightarrow> outcome \<times> 'w" where
  "al_reconcileServiceAccount r cr namespace w =
     (let expectedRes = BuildServiceAccount namespace
      in case owned r (al_owner cr) (sa_Meta expectedRes) (\<lambda>m. expectedRes\<lparr>sa_Meta := m\<rparr>) of
           Inl err \<Rightarrow> (Failed err, w)
         | Inr expectedRes \<Rightarrow>
             get_or_create (cl_accounts (r_client r))
               (NamespacedName namespace (m_Name (sa_Meta expectedRes)))
               (Inr expectedRes) (\<lambda>found w. (Done, w)) w)"

subsection \<open>Status and events\<close>

definition al_updateStatus :: "'w reconciler \<Rightarrow> AuditLogging \<Rightarrow> string \<Rightarrow> 'w \<Rightarrow> outcome \<times> 'w" where
  "al_updateStatus r inst namespace w =
     (case cl_list_pods (r_client r) namespace (LabelsForSelector FluentdName (al_Name inst)) w of
        (Inl err, w) \<Rightarrow> (Failed err, w)
      | (Inr pods, w) \<Rightarrow>
          (case cl_list_pods (r_client r) namespace
                  (LabelsForSelector AuditPolicyControllerDeploy (al_Name inst)) w of
             (Inl err, w) \<Rightarrow> (Failed err, w)
           | (Inr policyPods, w) \<Rightarrow>
               (let podNames = status_nodes (pods @ policyPods)
                in if podNames \<noteq> al_Nodes (al_Status inst)
                      \<or> opversion \<noteq> Reconciled (al_Versions (al_Status inst))
                   then (case cr_status_audit (r_cr r)
                                (inst\<lparr>al_Status := \<lparr>al_Nodes = podNames,
                                                    al_Versions = \<lparr>Reconciled = opversion\<rparr>\<rparr>\<rparr>) w of
                           (Inl err, w) \<Rightarrow> (Failed err, w)
                         | (Inr _, w) \<Rightarrow> (Done, w))
                   else (Done, w))))"

definition al_updateEvent ::
    "'w reconciler \<Rightarrow> AuditLogging \<Rightarrow> string \<Rightarrow> event_type \<Rightarrow> string \<Rightarrow> 'w \<Rightarrow> 'w" where
  "al_updateEvent r inst message ty reason =
     cr_event (r_cr r) \<lparr>e_About = meta_key (al_Meta inst), e_Type = ty, e_Reason = reason,
                        e_Message = message\<rparr>"

subsection \<open>Reconcile\<close>

definition al_reconcilers ::
    "'w reconciler \<Rightarrow> AuditLogging \<Rightarrow> string \<Rightarrow> ('w state \<Rightarrow> outcome \<times> 'w state) list" where
  "al_reconcilers r inst namespace =
     [lift_world (al_reconcileJob r inst namespace),
      al_reconcilePolicyControllerDeployment r inst namespace,
      lift_world (al_reconcileAuditConfigMaps r inst namespace),
      lift_world (al_reconcileAuditCerts r inst namespace),
      lift_world (al_reconcileServiceAccount r inst namespace),
      lift_world (al_reconcileService r inst namespace),
      al_reconcileFluentdDaemonSet r inst namespace,
      lift_world (al_updateStatus r inst namespace)]"

definition msg_one_auditlogging :: string where
  "msg_one_auditlogging =
  ''Only one instance of AuditLogging per cluster. Delete other instances to proceed.''"

definition al_enablePolicyControllerByDefault ::
    "'w reconciler \<Rightarrow> AuditLogging \<Rightarrow> 'w \<Rightarrow> outcome \<times> 'w" where
  "al_enablePolicyControllerByDefault r inst w =
     (let spec = al_Spec inst;
          inst = inst\<lparr>al_Spec := spec\<lparr>al_PolicyController :=
                   (al_PolicyController spec)\<lparr>EnableAuditPolicy := DefaultEnablePolicyController\<rparr>\<rparr>\<rparr>
      in case cr_update_audit (r_cr r) inst w of
           (Some err, w) \<Rightarrow> (Failed err, w)
         | (None, w) \<Rightarrow> (Done, w))"

definition al_run :: "'w reconciler \<Rightarrow> AuditLogging \<Rightarrow> string \<Rightarrow> 'w state \<Rightarrow> outcome \<times> 'w state" where
  "al_run r inst csNamespace s =
     (case run_reconcilers (al_reconcilers r inst csNamespace) s of
        (res, (w, g)) \<Rightarrow>
          if stops res then (res, (w, g))
          else (Done, (al_updateEvent r inst msg_deployed EventTypeNormal ''Deployed'' w, g)))"

definition al_check_and_run :: "'w reconciler \<Rightarrow> AuditLogging \<Rightarrow> 'w state \<Rightarrow> outcome \<times> 'w state" where
  "al_check_and_run r inst s =
     (case cr_list_audit (r_cr r) (fst s) of (auditLoggingList, w) \<Rightarrow>
        if (case auditLoggingList of Inl _ \<Rightarrow> False | Inr items \<Rightarrow> length items > 1)
        then (Done, (al_updateEvent r inst msg_one_auditlogging EventTypeWarning ''Not Allowed'' w, snd s))
        else
          (case GetCSNamespace (r_env r) of
             Inl err \<Rightarrow> (Failed (OtherError err), (w, snd s))
           | Inr csNamespace \<Rightarrow>
               (case cr_list_common (r_cr r) csNamespace w of (commonAuditList, w) \<Rightarrow>
                  if (case commonAuditList of Inl _ \<Rightarrow> False | Inr items \<Rightarrow> length items > 0)
                  then (Done, (al_updateEvent r inst msg_alongside EventTypeWarning ''Not Allowed'' w, snd s))
                  else
                    (let w = al_updateEvent r inst ''Instance found'' EventTypeNormal ''Initializing'' w
                     in if EnableAuditPolicy (al_policy inst) = []
                        then lift_world (al_enablePolicyControllerByDefault r inst) (w, snd s)
                        else al_run r inst csNamespace (w, snd s)))))"

definition al_default_status :: "AuditLogging \<Rightarrow> AuditLogging" where
  "al_default_status inst =
     inst\<lparr>al_Status := \<lparr>al_Nodes = DefaultStatusForCR, al_Versions = \<lparr>Reconciled = opversion\<rparr>\<rparr>\<rparr>"

definition al_Reconcile :: "'w reconciler \<Rightarrow> nsname \<Rightarrow> 'w state \<Rightarrow> outcome \<times> 'w state" where
  "al_Reconcile r req s =
     (case cr_get_audit (r_cr r) req (fst s) of
        (Inl err, w) \<Rightarrow> if IsNotFound err then (Done, (w, snd s)) else (Failed err, (w, snd s))
      | (Inr inst, w) \<Rightarrow>
          if length (elems (al_Nodes (al_Status inst))) = 0
          then (case cr_status_audit (r_cr r) (al_default_status inst) w of
                  (Inl err, w) \<Rightarrow> (Failed err, (w, snd s))
                | (Inr inst, w) \<Rightarrow> al_check_and_run r inst (w, snd s))
          else al_check_and_run r inst (w, snd s))"

end
