(* ===== verification/ApiServer.thy ===== *)
theory ApiServer
  imports CommonAuditReconciler AuditLoggingReconciler
begin

text \<open>
  What the reconcilers rely on from the API server, stated as laws of the client parameter: a world has
  an abstract view, the cluster, and the requests act on it as the Kubernetes API documents: \<open>Get\<close>
  returns what is stored under the key or \<open>NotFound\<close>, \<open>Create\<close>, \<open>Update\<close> and \<open>Delete\<close> change the entry
  of the object's own key and no other, \<open>Status().Update\<close> changes only the status, listing pods,
  deleting a pod and recording an event leave the objects alone. The memory server at the end is an
  instance, at which the theorems about convergence are evaluated.
\<close>

subsection \<open>Clusters\<close>

datatype kind = KConfigMap | KSecret | KService | KAccount | KDeployment | KDaemonSet | KJob | KIssuer | KCert

datatype kobject =
    OConfigMap configmap
  | OSecret secret
  | OService service
  | OAccount service_account
  | ODeployment deployment
  | ODaemonSet daemonset
  | OJob job
  | OIssuer issuer
  | OCert certificate

type_synonym object_key = "kind \<times> nsname"

record cluster =
  objects :: "object_key \<Rightarrow> kobject option"
  commons :: "CommonAudit list"
  audits :: "AuditLogging list"

definition put :: "object_key \<Rightarrow> kobject option \<Rightarrow> cluster \<Rightarrow> cluster" where
  "put k v c = c\<lparr>objects := (objects c)(k := v)\<rparr>"

lemma put_simps [simp]:
  "objects (put k v c) = (objects c)(k := v)" "commons (put k v c) = commons c"
  "audits (put k v c) = audits c"
  by (simp_all add: put_def)

subsection \<open>The laws\<close>

text \<open>
  The requests for one kind of objects. The server may complete an object that it stores (defaults,
  resource version), which is the function \<open>adm\<close>; it keeps the object's name and namespace.

  That every update of an object that exists succeeds is an idealisation. A real server also refuses
  some: fields that it holds immutable, such as the selector of a Deployment, which the controller of
  CommonAudit sends again with the whole specification (\<open>reconcile_commonaudit.go:261\<close>). Under these laws
  an operand whose immutable fields somebody has set otherwise counts as repaired by the update; on a
  real cluster its update fails, in every round, until the operand is deleted.
\<close>

definition stores ::
    "('w \<Rightarrow> cluster) \<Rightarrow> ('w, 'o) ops \<Rightarrow> kind \<Rightarrow> ('o \<Rightarrow> kobject) \<Rightarrow> ('o \<Rightarrow> objmeta) \<Rightarrow> ('o \<Rightarrow> 'o) \<Rightarrow> bool" where
  "stores view ops K wrap meta adm \<longleftrightarrow>
     (\<forall>x. meta_key (meta (adm x)) = meta_key (meta x)) \<and>
     (\<forall>k w. case objects (view w) (K, k) of
        None \<Rightarrow> (\<exists>w'. op_get ops k w = (Inl NotFound, w') \<and> view w' = view w)
      | Some ob \<Rightarrow> (\<exists>x w'. ob = wrap x \<and> meta_key (meta x) = k \<and> op_get ops k w = (Inr x, w') \<and> view w' = view w)) \<and>
     (\<forall>x w. objects (view w) (K, meta_key (meta x)) = None \<longrightarrow>
        (\<exists>w'. op_create ops x w = (None, w') \<and> view w' = put (K, meta_key (meta x)) (Some (wrap (adm x))) (view w))) \<and>
     (\<forall>x w. objects (view w) (K, meta_key (meta x)) \<noteq> None \<longrightarrow>
        (\<exists>w'. op_update ops x w = (None, w') \<and> view w' = put (K, meta_key (meta x)) (Some (wrap (adm x))) (view w))) \<and>
     (\<forall>x w. objects (view w) (K, meta_key (meta x)) \<noteq> None \<longrightarrow>
        (\<exists>w'. op_delete ops x w = (None, w') \<and> view w' = put (K, meta_key (meta x)) None (view w)))"

text \<open>How the server completes the objects of each kind.\<close>

record admission =
  ad_configmap :: "configmap \<Rightarrow> configmap"
  ad_secret :: "secret \<Rightarrow> secret"
  ad_service :: "service \<Rightarrow> service"
  ad_account :: "service_account \<Rightarrow> service_account"
  ad_deployment :: "deployment \<Rightarrow> deployment"
  ad_daemonset :: "daemonset \<Rightarrow> daemonset"
  ad_job :: "job \<Rightarrow> job"
  ad_issuer :: "issuer \<Rightarrow> issuer"
  ad_cert :: "certificate \<Rightarrow> certificate"

text \<open>
  What the operator relies on: the server completes only what the operator's comparisons do not read.
  It may write a quantity in another way, and an empty list of host aliases becomes an absent one.
\<close>

definition same_amounts :: "quantity_pkg \<Rightarrow> resource_list \<Rightarrow> resource_list \<Rightarrow> bool" where
  "same_amounts q a b \<longleftrightarrow> q_Equal q (q_Cpu q a) (q_Cpu q b) \<and> q_Equal q (q_Memory q a) (q_Memory q b)"

definition same_read_container :: "quantity_pkg \<Rightarrow> container \<Rightarrow> container \<Rightarrow> bool" where
  "same_read_container q a b \<longleftrightarrow> c_Name a = c_Name b \<and> c_Image a = c_Image b \<and>
     c_ImagePullPolicy a = c_ImagePullPolicy b \<and> c_VolumeMounts a = c_VolumeMounts b \<and>
     c_SecurityContext a = c_SecurityContext b \<and> c_Ports a = c_Ports b \<and> c_Args a = c_Args b \<and>
     c_Env a = c_Env b \<and> same_amounts q (rr_Limits (c_Resources a)) (rr_Limits (c_Resources b)) \<and>
     same_amounts q (rr_Requests (c_Resources a)) (rr_Requests (c_Resources b))"

definition same_read_pods :: "quantity_pkg \<Rightarrow> pod_template \<Rightarrow> pod_template \<Rightarrow> bool" where
  "same_read_pods q a b \<longleftrightarrow> m_Annotations (pt_Meta a) = m_Annotations (pt_Meta b) \<and>
     ps_ServiceAccountName (pt_Spec a) = ps_ServiceAccountName (pt_Spec b) \<and>
     ps_HostAliases (pt_Spec a) =
       (if ps_HostAliases (pt_Spec b) = Some [] then None else ps_HostAliases (pt_Spec b)) \<and>
     list_all2 (same_read_container q) (elems (ps_Containers (pt_Spec a))) (elems (ps_Containers (pt_Spec b)))"

definition respectful :: "quantity_pkg \<Rightarrow> admission \<Rightarrow> bool" where
  "respectful q ad \<longleftrightarrow>
     (\<forall>x. cm_Data (ad_configmap ad x) = cm_Data x) \<and>
     (\<forall>x. sv_Ports (ad_service ad x) = sv_Ports x) \<and>
     (\<forall>x. ds_Replicas (d_Spec (ad_deployment ad x)) = ds_Replicas (d_Spec x) \<and>
          same_read_pods q (ds_Template (d_Spec (ad_deployment ad x))) (ds_Template (d_Spec x))) \<and>
     (\<forall>x. same_read_pods q (dss_Template (dset_Spec (ad_daemonset ad x))) (dss_Template (dset_Spec x))) \<and>
     (\<forall>x. i_Spec (ad_issuer ad x) = i_Spec x) \<and>
     (\<forall>x. ct_Spec (ad_cert ad x) = ct_Spec x)"

definition stores_objects :: "('w \<Rightarrow> cluster) \<Rightarrow> admission \<Rightarrow> 'w client \<Rightarrow> bool" where
  "stores_objects view ad c \<longleftrightarrow>
     stores view (cl_configmaps c) KConfigMap OConfigMap cm_Meta (ad_configmap ad) \<and>
     stores view (cl_secrets c) KSecret OSecret se_Meta (ad_secret ad) \<and>
     stores view (cl_services c) KService OService sv_Meta (ad_service ad) \<and>
     stores view (cl_accounts c) KAccount OAccount sa_Meta (ad_account ad) \<and>
     stores view (cl_deployments c) KDeployment ODeployment d_Meta (ad_deployment ad) \<and>
     stores view (cl_daemonsets c) KDaemonSet ODaemonSet dset_Meta (ad_daemonset ad) \<and>
     stores view (cl_jobs c) KJob OJob j_Meta (ad_job ad) \<and>
     stores view (cl_issuers c) KIssuer OIssuer i_Meta (ad_issuer ad) \<and>
     stores view (cl_certs c) KCert OCert ct_Meta (ad_cert ad) \<and>
     (\<forall>ns sel w. \<exists>pods w'. cl_list_pods c ns sel w = (Inr pods, w') \<and> view w' = view w) \<and>
     (\<forall>p w. \<exists>res w'. cl_delete_pod c p w = (res, w') \<and> view w' = view w)"

text \<open>The custom resources: two objects are the same resource when key and spec agree.\<close>

definition same_common :: "CommonAudit \<Rightarrow> CommonAudit \<Rightarrow> bool" where
  "same_common a b \<longleftrightarrow> meta_key (ca_Meta a) = meta_key (ca_Meta b) \<and> ca_Spec a = ca_Spec b"

definition serves_common :: "('w \<Rightarrow> cluster) \<Rightarrow> 'w cr_client \<Rightarrow> bool" where
  "serves_common view c \<longleftrightarrow>
     (\<forall>k w. case find (\<lambda>a. meta_key (ca_Meta a) = k) (commons (view w)) of
        None \<Rightarrow> (\<exists>w'. cr_get_common c k w = (Inl NotFound, w') \<and> view w' = view w)
      | Some a \<Rightarrow> (\<exists>b w'. cr_get_common c k w = (Inr b, w') \<and> same_common a b \<and> view w' = view w)) \<and>
     (\<forall>x w. (\<exists>a \<in> set (commons (view w)). same_common a x) \<longrightarrow>
        (\<exists>b w'. cr_status_common c x w = (Inr b, w') \<and> same_common x b \<and> ca_Status b = ca_Status x \<and>
           objects (view w') = objects (view w) \<and> audits (view w') = audits (view w) \<and>
           list_all2 same_common (commons (view w)) (commons (view w')))) \<and>
     (\<forall>ns w. \<exists>w'. cr_list_common c ns w =
        (Inr (filter (\<lambda>a. ns = [] \<or> ca_Namespace a = ns) (commons (view w))), w') \<and> view w' = view w) \<and>
     (\<forall>w. \<exists>w'. cr_list_audit c w = (Inr (audits (view w)), w') \<and> view w' = view w) \<and>
     (\<forall>e w. view (cr_event c e w) = view w)"

definition same_audit :: "AuditLogging \<Rightarrow> AuditLogging \<Rightarrow> bool" where
  "same_audit a b \<longleftrightarrow> meta_key (al_Meta a) = meta_key (al_Meta b) \<and> al_Spec a = al_Spec b"

definition serves_audit :: "('w \<Rightarrow> cluster) \<Rightarrow> 'w cr_client \<Rightarrow> bool" where
  "serves_audit view c \<longleftrightarrow>
     (\<forall>k w. case find (\<lambda>a. meta_key (al_Meta a) = k) (audits (view w)) of
        None \<Rightarrow> (\<exists>w'. cr_get_audit c k w = (Inl NotFound, w') \<and> view w' = view w)
      | Some a \<Rightarrow> (\<exists>b w'. cr_get_audit c k w = (Inr b, w') \<and> same_audit a b \<and> view w' = view w)) \<and>
     (\<forall>x w. (\<exists>a \<in> set (audits (view w)). same_audit a x) \<longrightarrow>
        (\<exists>b w'. cr_status_audit c x w = (Inr b, w') \<and> same_audit x b \<and> al_Status b = al_Status x \<and>
           objects (view w') = objects (view w) \<and> commons (view w') = commons (view w) \<and>
           list_all2 same_audit (audits (view w)) (audits (view w')))) \<and>
     (\<forall>ns w. \<exists>w'. cr_list_common c ns w =
        (Inr (filter (\<lambda>a. ns = [] \<or> ca_Namespace a = ns) (commons (view w))), w') \<and> view w' = view w) \<and>
     (\<forall>w. \<exists>w'. cr_list_audit c w = (Inr (audits (view w)), w') \<and> view w' = view w) \<and>
     (\<forall>e w. view (cr_event c e w) = view w)"

text \<open>An update of the resource itself stores the spec that is sent.\<close>

definition stores_spec :: "AuditLogging \<Rightarrow> AuditLogging \<Rightarrow> AuditLogging \<Rightarrow> bool" where
  "stores_spec x a b \<longleftrightarrow> meta_key (al_Meta b) = meta_key (al_Meta a) \<and>
     al_Spec b = (if meta_key (al_Meta a) = meta_key (al_Meta x) then al_Spec x else al_Spec a)"

definition updates_audit :: "('w \<Rightarrow> cluster) \<Rightarrow> 'w cr_client \<Rightarrow> bool" where
  "updates_audit view c \<longleftrightarrow>
     (\<forall>x w. (\<exists>a \<in> set (audits (view w)). meta_key (al_Meta a) = meta_key (al_Meta x)) \<longrightarrow>
        (\<exists>w'. cr_update_audit c x w = (None, w') \<and> objects (view w') = objects (view w) \<and>
           commons (view w') = commons (view w) \<and> list_all2 (stores_spec x) (audits (view w)) (audits (view w'))))"

lemma same_common_refl: "same_common a a"
  by (simp add: same_common_def)

lemma same_common_sym: "same_common a b \<Longrightarrow> same_common b a"
  by (simp add: same_common_def)

lemma same_common_trans: "same_common a b \<Longrightarrow> same_common b c \<Longrightarrow> same_common a c"
  by (simp add: same_common_def)

lemma same_audit_refl: "same_audit a a"
  by (simp add: same_audit_def)

lemma same_audit_sym: "same_audit a b \<Longrightarrow> same_audit b a"
  by (simp add: same_audit_def)

lemma same_audit_trans: "same_audit a b \<Longrightarrow> same_audit b c \<Longrightarrow> same_audit a c"
  by (simp add: same_audit_def)

text \<open>Two clusters with the same resources, whatever their status.\<close>

definition same_resources :: "cluster \<Rightarrow> cluster \<Rightarrow> bool" where
  "same_resources c c' \<longleftrightarrow> list_all2 same_common (commons c) (commons c') \<and> list_all2 same_audit (audits c) (audits c')"

lemma same_resources_refl [simp]: "same_resources c c"
  by (simp add: same_resources_def same_common_refl same_audit_refl list_all2_refl)

lemma same_resources_put [simp]: "same_resources c0 (put k v c) = same_resources c0 c"
  by (simp add: same_resources_def)

lemma same_resources_common:
  assumes "same_resources c0 c" "list_all2 same_common (commons c) (commons c')" "audits c' = audits c"
  shows "same_resources c0 c'"
  using assms list_all2_trans[of same_common same_common same_common] same_common_trans
  unfolding same_resources_def by metis

lemma same_resources_audit:
  assumes "same_resources c0 c" "list_all2 same_audit (audits c) (audits c')" "commons c' = commons c"
  shows "same_resources c0 c'"
  using assms list_all2_trans[of same_audit same_audit same_audit] same_audit_trans
  unfolding same_resources_def by metis

text \<open>\<open>SetControllerReference\<close> on a dependent in the namespace of its owner, or of a cluster-scoped owner.\<close>

definition sets_owner :: "(owner_reference \<Rightarrow> objmeta \<Rightarrow> api_error + objmeta) \<Rightarrow> bool" where
  "sets_owner f \<longleftrightarrow>
     (\<forall>owner m. or_Namespace owner = m_Namespace m \<or> or_Namespace owner = [] \<longrightarrow>
        (\<exists>refs. f owner m = Inr (m\<lparr>m_OwnerReferences := refs\<rparr>)))"

end
