(* ===== verification/Settling.thy ===== *)
theory Settling
  imports Client
begin

text \<open>
  The contract of a list of reconcilers, as a locale: each has a rank on the states, its distance from
  being settled; at rank 0 it changes nothing and returns quietly, otherwise it makes progress and asks
  for another round, and it never touches the rank of another. Running the list again and again as the
  controller runtime does then comes to rest.
\<close>

subsection \<open>Rounds\<close>

text \<open>The controller runtime: while a round asks for it, run another one; at most \<open>fuel\<close> of them.\<close>

fun rounds :: "nat \<Rightarrow> ('s \<Rightarrow> outcome \<times> 's) \<Rightarrow> 's \<Rightarrow> (outcome \<times> 's) option" where
  "rounds 0 f s = None"
| "rounds (Suc fuel) f s = (case f s of (Requeue, s') \<Rightarrow> rounds fuel f s' | r \<Rightarrow> Some r)"

text \<open>The controller runtime also runs another round after an error.\<close>

fun retries :: "nat \<Rightarrow> ('s \<Rightarrow> outcome \<times> 's) \<Rightarrow> 's \<Rightarrow> (outcome \<times> 's) option" where
  "retries 0 f s = None"
| "retries (Suc fuel) f s =
     (case f s of (Requeue, s') \<Rightarrow> retries fuel f s' | (Failed err, s') \<Rightarrow> retries fuel f s' | r \<Rightarrow> Some r)"

lemma run_reconcilers_append:
  "run_reconcilers (xs @ ys) s =
     (case run_reconcilers xs s of (res, s') \<Rightarrow> if stops res then (res, s') else run_reconcilers ys s')"
  by (induction xs arbitrary: s) (auto split: prod.splits simp: stops_def)

lemma run_reconcilers_Done: "run_reconcilers xs s = (res, s') \<Longrightarrow> \<not> stops res \<Longrightarrow> res = Done"
  by (simp add: stops_def)

lemma run_reconcilers_single [simp]: "run_reconcilers [f] s = f s"
  by (auto split: prod.splits simp: stops_def)

lemma run_reconcilers_concat:
  "run_reconcilers (map run_reconcilers fss) = run_reconcilers (concat fss)"
proof
  fix s show "run_reconcilers (map run_reconcilers fss) s = run_reconcilers (concat fss) s"
    by (induction fss arbitrary: s) (auto simp: run_reconcilers_append split: prod.splits)
qed

lemma run_and_finish:
  assumes "run_reconcilers recs = run_reconcilers (fs @ [g])" "run_reconcilers fs s0 = (res, s1)" "g s1 = (Done, s2)"
  shows "run_reconcilers recs s0 = (if stops res then (res, s1) else (Done, s2))"
  unfolding assms(1) run_reconcilers_append using assms(2,3) by simp

lemma run_reconcilers_one: "run_reconcilers [f] = f"
  by (rule ext) (rule run_reconcilers_single)

lemma lift_world_run:
  "lift_world (run_reconcilers fs) = run_reconcilers (map lift_world fs)"
proof
  fix s show "lift_world (run_reconcilers fs) s = run_reconcilers (map lift_world fs) s"
  proof (induction fs arbitrary: s)
    case Nil
    then show ?case by (simp add: lift_world_def)
  next
    case (Cons f fs)
    have "lift_world (run_reconcilers (f # fs)) s =
        (case lift_world f s of (res, s') \<Rightarrow> if stops res then (res, s') else lift_world (run_reconcilers fs) s')"
      by (auto simp: lift_world_def split: prod.splits)
    then show ?case unfolding list.map run_reconcilers.simps(2) Cons.IH .
  qed
qed

subsection \<open>The contract\<close>

locale ranked =
  fixes steps :: "('k \<times> ('s \<Rightarrow> outcome \<times> 's)) list"
    and rank :: "'k \<Rightarrow> 's \<Rightarrow> nat"
  assumes distinct_steps: "distinct (map fst steps)"
begin

definition total :: "'s \<Rightarrow> nat" where
  "total s = (\<Sum>k \<leftarrow> map fst steps. rank k s)"

definition settled :: "'s \<Rightarrow> bool" where
  "settled s \<longleftrightarrow> (\<forall>k \<in> fst ` set steps. rank k s = 0)"

lemma total_0_iff: "total s = 0 \<longleftrightarrow> settled s"
  by (auto simp: total_def settled_def)

lemma total_decreases:
  assumes "k \<in> fst ` set steps" "rank k s' < rank k s"
    and "\<forall>j \<in> fst ` set steps. j \<noteq> k \<longrightarrow> rank j s' = rank j s"
  shows "total s' < total s"
proof -
  have eq: "total t = (\<Sum>j \<in> fst ` set steps. rank j t)" for t
    unfolding total_def using sum_list_distinct_conv_sum_set[OF distinct_steps] by simp
  show ?thesis
    unfolding eq
  proof (rule sum_strict_mono_ex1)
    show "\<forall>j \<in> fst ` set steps. rank j s' \<le> rank j s"
      using assms(2,3) by (metis less_imp_le order_refl)
    show "\<exists>j \<in> fst ` set steps. rank j s' < rank j s" using assms(1,2) by blast
  qed simp
qed

lemma total_kept: "\<forall>j \<in> fst ` set steps. rank j s' = rank j s \<Longrightarrow> total s' = total s"
  by (simp add: total_def cong: map_cong)

end

locale settling = ranked steps rank
  for steps :: "('k \<times> ('s \<Rightarrow> outcome \<times> 's)) list" and rank :: "'k \<Rightarrow> 's \<Rightarrow> nat" +
  fixes inv :: "'s \<Rightarrow> bool"
  assumes quiet: "(k, f) \<in> set steps \<Longrightarrow> inv s \<Longrightarrow> rank k s = 0 \<Longrightarrow>
        \<exists>s'. f s = (Done, s') \<and> inv s' \<and> (\<forall>j \<in> fst ` set steps. rank j s' = rank j s)"
    and work: "(k, f) \<in> set steps \<Longrightarrow> inv s \<Longrightarrow> 0 < rank k s \<Longrightarrow>
        \<exists>s'. f s = (Requeue, s') \<and> inv s' \<and> rank k s' < rank k s \<and>
          (\<forall>j \<in> fst ` set steps. j \<noteq> k \<longrightarrow> rank j s' = rank j s)"
begin

lemma round_part:
  assumes "set part \<subseteq> set steps" "inv s"
  shows "(\<exists>s'. run_reconcilers (map snd part) s = (Done, s') \<and> inv s' \<and> (\<forall>k \<in> fst ` set part. rank k s = 0)
      \<and> (\<forall>j \<in> fst ` set steps. rank j s' = rank j s))
    \<or> (\<exists>s'. run_reconcilers (map snd part) s = (Requeue, s') \<and> inv s' \<and> total s' < total s)"
  using assms
proof (induction part arbitrary: s)
  case Nil
  then show ?case by simp
next
  case (Cons p part)
  obtain k f where p: "p = (k, f)" "(k, f) \<in> set steps" using Cons.prems(1) by (cases p) auto
  show ?case
  proof (cases "rank k s = 0")
    case True
    from quiet[OF p(2) Cons.prems(2) True] obtain s1 where
      s1: "f s = (Done, s1)" "inv s1" "\<forall>j \<in> fst ` set steps. rank j s1 = rank j s" by blast
    then have "total s1 = total s" using total_kept by blast
    with Cons.IH[OF _ s1(2)] Cons.prems(1) s1 p True show ?thesis
      by (simp add: stops_def) force
  next
    case False
    then have "0 < rank k s" by simp
    from work[OF p(2) Cons.prems(2) this] obtain s' where
      s': "f s = (Requeue, s')" "inv s'" "rank k s' < rank k s"
        "\<forall>j \<in> fst ` set steps. j \<noteq> k \<longrightarrow> rank j s' = rank j s" by blast
    moreover have "total s' < total s"
      using total_decreases[OF _ s'(3,4)] p(2) by force
    ultimately show ?thesis by (simp add: p(1) stops_def)
  qed
qed

lemma round:
  assumes "inv s"
  shows "(\<exists>s'. run_reconcilers (map snd steps) s = (Done, s') \<and> inv s' \<and> settled s \<and> settled s')
    \<or> (\<exists>s'. run_reconcilers (map snd steps) s = (Requeue, s') \<and> inv s' \<and> total s' < total s)"
  using round_part[OF subset_refl assms] by (auto simp: settled_def)

text \<open>
  A procedure whose rounds are rounds of the list comes to rest within \<open>total\<close> rounds and one; the last of them
  finds everything settled.
\<close>

lemma rounds_last:
  assumes step: "\<And>s. P s \<Longrightarrow> \<exists>s0. inv s0 \<and> total s0 = total s \<and>
      (\<forall>res s1. run_reconcilers (map snd steps) s0 = (res, s1) \<longrightarrow> inv s1 \<longrightarrow>
         (\<exists>s'. f s = (res, s') \<and> P s' \<and> total s' = total s1))"
    and "P s" "total s < fuel"
  shows "\<exists>s1 s'. rounds fuel f s = Some (Done, s') \<and> P s' \<and> settled s' \<and> P s1 \<and> settled s1 \<and> f s1 = (Done, s')"
  using assms(2,3)
proof (induction fuel arbitrary: s)
  case (Suc fuel)
  from step[OF Suc.prems(1)] obtain s0 where s0: "inv s0" "total s0 = total s"
    and f: "\<And>res s1. run_reconcilers (map snd steps) s0 = (res, s1) \<Longrightarrow> inv s1 \<Longrightarrow>
      \<exists>s'. f s = (res, s') \<and> P s' \<and> total s' = total s1" by blast
  from round[OF s0(1)] show ?case
  proof (elim disjE exE conjE)
    fix s1 assume s1: "run_reconcilers (map snd steps) s0 = (Done, s1)" "inv s1" "settled s0" "settled s1"
    from f[OF s1(1,2)] obtain s' where s': "f s = (Done, s')" "P s'" "total s' = total s1" by blast
    have "settled s'" "settled s" using s1(3,4) s'(3) s0(2) total_0_iff by metis+
    with s'(2) Suc.prems(1) show ?thesis by (auto simp: s'(1))
  next
    fix s1 assume s1: "run_reconcilers (map snd steps) s0 = (Requeue, s1)" "inv s1" "total s1 < total s0"
    from f[OF s1(1,2)] obtain s' where s': "f s = (Requeue, s')" "P s'" "total s' = total s1" by blast
    then have "total s' < fuel" using s1(3) s0(2) Suc.prems(2) by simp
    with Suc.IH[OF s'(2)] show ?thesis by (simp add: s'(1))
  qed
qed simp

end

subsection \<open>Requests that fail\<close>

text \<open>
  The weaker contract of a list whose steps may also fail, each failure at the cost of a budget: a step that
  is done was settled, a requeue is progress, and a failure leads no further away.
\<close>

locale resilient = ranked steps rank
  for steps :: "('k \<times> ('s \<Rightarrow> outcome \<times> 's)) list" and rank :: "'k \<Rightarrow> 's \<Rightarrow> nat" +
  fixes inv :: "'s \<Rightarrow> bool" and budget :: "'s \<Rightarrow> nat"
  assumes step: "(k, f) \<in> set steps \<Longrightarrow> inv s \<Longrightarrow> \<exists>res s'. f s = (res, s') \<and> inv s' \<and> budget s' \<le> budget s \<and>
      (\<forall>j \<in> fst ` set steps. j \<noteq> k \<longrightarrow> rank j s' = rank j s) \<and>
      (res = Done \<and> rank k s = 0 \<and> rank k s' = 0 \<or> res = Requeue \<and> rank k s' < rank k s \<or>
       (\<exists>err. res = Failed err) \<and> rank k s' \<le> rank k s \<and> budget s' < budget s)"
begin

text \<open>The verdict on a round from \<open>s\<close> to \<open>s'\<close>.\<close>

definition verdict :: "'s \<Rightarrow> outcome \<Rightarrow> 's \<Rightarrow> bool" where
  "verdict s res s' \<longleftrightarrow> budget s' \<le> budget s \<and>
     (res = Done \<and> total s' = total s \<and> settled s' \<or> res = Requeue \<and> total s' < total s \<or>
      (\<exists>err. res = Failed err) \<and> total s' \<le> total s \<and> budget s' < budget s)"

lemma round_part:
  assumes "set part \<subseteq> set steps" "inv s"
  shows "\<exists>res s'. run_reconcilers (map snd part) s = (res, s') \<and> inv s' \<and> budget s' \<le> budget s \<and>
    (res = Done \<and> (\<forall>k \<in> fst ` set part. rank k s' = 0) \<and> (\<forall>j \<in> fst ` set steps. rank j s' = rank j s) \<or>
     res = Requeue \<and> total s' < total s \<or>
     (\<exists>err. res = Failed err) \<and> total s' \<le> total s \<and> budget s' < budget s)"
  using assms
proof (induction part arbitrary: s)
  case Nil
  then show ?case by simp
next
  case (Cons p part)
  obtain k f where p: "p = (k, f)" "(k, f) \<in> set steps" using Cons.prems(1) by (cases p) auto
  then have k: "k \<in> fst ` set steps" by force
  obtain res s1 where s1: "f s = (res, s1)" "inv s1" "budget s1 \<le> budget s"
      "\<forall>j \<in> fst ` set steps. j \<noteq> k \<longrightarrow> rank j s1 = rank j s"
    and cases: "res = Done \<and> rank k s = 0 \<and> rank k s1 = 0 \<or> res = Requeue \<and> rank k s1 < rank k s \<or>
       (\<exists>err. res = Failed err) \<and> rank k s1 \<le> rank k s \<and> budget s1 < budget s"
    using step[OF p(2) Cons.prems(2)] by blast
  from cases show ?case
  proof (elim disjE conjE)
    assume res: "res = Done" "rank k s = 0" "rank k s1 = 0"
    then have same: "\<forall>j \<in> fst ` set steps. rank j s1 = rank j s" using s1(4) by metis
    from Cons.IH[OF _ s1(2)] Cons.prems(1) obtain res' s' where
      s': "run_reconcilers (map snd part) s1 = (res', s')" "inv s'" "budget s' \<le> budget s1"
        "res' = Done \<and> (\<forall>k \<in> fst ` set part. rank k s' = 0) \<and> (\<forall>j \<in> fst ` set steps. rank j s' = rank j s1) \<or>
         res' = Requeue \<and> total s' < total s1 \<or>
         (\<exists>err. res' = Failed err) \<and> total s' \<le> total s1 \<and> budget s' < budget s1" by auto
    have "run_reconcilers (map snd (p # part)) s = (res', s')"
      using p(1) s1(1) s'(1) res(1) by (simp add: stops_def)
    moreover have "budget s' \<le> budget s" using s'(3) s1(3) by simp
    moreover have "total s1 = total s" using total_kept[OF same] .
    moreover have "(\<forall>j \<in> fst ` set steps. rank j s' = rank j s1) \<Longrightarrow> rank k s' = 0" using k res(3) by metis
    ultimately show ?thesis using s'(2,4) same s1(3) p(1) by (intro exI[of _ res'] exI[of _ s']) auto
  next
    assume res: "res = Requeue" "rank k s1 < rank k s"
    then show ?thesis
      using s1 p(1) total_decreases[OF k res(2) s1(4)] by (simp add: stops_def)
  next
    assume res: "\<exists>err. res = Failed err" "rank k s1 \<le> rank k s" "budget s1 < budget s"
    have "total s1 \<le> total s"
    proof (cases "rank k s1 = rank k s")
      case True
      then have "total s1 = total s" using s1(4) total_kept by metis
      then show ?thesis by simp
    next
      case False
      then show ?thesis using total_decreases[OF k _ s1(4)] res(2) by simp
    qed
    then show ?thesis using s1 p(1) res by (auto simp: stops_def)
  qed
qed

lemma round:
  assumes "inv s"
  shows "\<exists>res s'. run_reconcilers (map snd steps) s = (res, s') \<and> inv s' \<and> verdict s res s'"
proof -
  obtain res s' where "run_reconcilers (map snd steps) s = (res, s')" "inv s'" "budget s' \<le> budget s"
    and "res = Done \<and> (\<forall>k \<in> fst ` set steps. rank k s' = 0) \<and> (\<forall>j \<in> fst ` set steps. rank j s' = rank j s) \<or>
       res = Requeue \<and> total s' < total s \<or>
       (\<exists>err. res = Failed err) \<and> total s' \<le> total s \<and> budget s' < budget s"
    using round_part[OF subset_refl assms] by blast
  then show ?thesis using total_kept[of s' s] unfolding verdict_def settled_def by blast
qed

text \<open>
  A procedure whose rounds have that verdict, run again after each requeue and each error, comes to rest: at
  most \<open>total\<close> requeues and \<open>budget\<close> errors are ahead.
\<close>

lemma retries_settle:
  assumes round: "\<And>s. P s \<Longrightarrow> \<exists>res s'. f s = (res, s') \<and> P s' \<and> verdict s res s'"
    and "P s" "total s + budget s < fuel"
  shows "\<exists>s'. retries fuel f s = Some (Done, s') \<and> P s' \<and> settled s'"
  using assms(2,3)
proof (induction fuel arbitrary: s)
  case (Suc fuel)
  from round[OF Suc.prems(1)] obtain res s' where s': "f s = (res, s')" "P s'" "verdict s res s'" by blast
  from s'(3) consider "res = Done" "settled s'" | "res = Requeue" "total s' < total s" "budget s' \<le> budget s"
    | err where "res = Failed err" "total s' \<le> total s" "budget s' < budget s"
    unfolding verdict_def by blast
  then show ?case
  proof cases
    case 1
    then show ?thesis using s' by simp
  next
    case 2
    with Suc.prems(2) have "total s' + budget s' < fuel" by linarith
    with Suc.IH[OF s'(2)] show ?thesis using 2(1) by (simp add: s'(1))
  next
    case 3
    with Suc.prems(2) have "total s' + budget s' < fuel" by linarith
    with Suc.IH[OF s'(2)] show ?thesis using 3(1) by (simp add: s'(1))
  qed
qed simp

end

text \<open>A list that settles is resilient, with nothing to spend on failures.\<close>

sublocale settling \<subseteq> reliable: resilient steps rank inv "\<lambda>_. 0"
proof
  fix k f s
  assume kf: "(k, f) \<in> set steps" and inv: "inv s"
  have k: "k \<in> fst ` set steps" using kf by force
  show "\<exists>res s'. f s = (res, s') \<and> inv s' \<and> (0::nat) \<le> 0 \<and>
      (\<forall>j \<in> fst ` set steps. j \<noteq> k \<longrightarrow> rank j s' = rank j s) \<and>
      (res = Done \<and> rank k s = 0 \<and> rank k s' = 0 \<or> res = Requeue \<and> rank k s' < rank k s \<or>
       (\<exists>err. res = Failed err) \<and> rank k s' \<le> rank k s \<and> (0::nat) < 0)"
  proof (cases "rank k s = 0")
    case True
    from quiet[OF kf inv True] k True show ?thesis by fastforce
  next
    case False
    then show ?thesis using work[OF kf inv] by fastforce
  qed
qed

end
