(* ===== verification/Gauges.thy ===== *)
theory Gauges
  imports ApiServer Settling
begin

text \<open>
  One reconcile function and the object it looks after: a gauge gives the key of the object, its rank
  when it is absent and when it is there, and what is assumed of it. The lemmas establish for the
  shared shapes \<open>get_or_create\<close> and \<open>change\<close> that a function settles its object under the laws of the
  API server.
\<close>

record gauge =
  g_key :: object_key
  g_absent :: nat
  g_rank :: "kobject \<Rightarrow> nat"
  g_wf :: "kobject \<Rightarrow> bool"

definition value_rank :: "gauge \<Rightarrow> kobject option \<Rightarrow> nat" where
  "value_rank g v = (case v of None \<Rightarrow> g_absent g | Some ob \<Rightarrow> g_rank g ob)"

definition value_wf :: "gauge \<Rightarrow> kobject option \<Rightarrow> bool" where
  "value_wf g v \<longleftrightarrow> (case v of None \<Rightarrow> True | Some ob \<Rightarrow> g_wf g ob)"

text \<open>The result of a step that finds the value \<open>v\<close> under the key of its gauge.\<close>

definition settles :: "('w \<Rightarrow> cluster) \<Rightarrow> gauge \<Rightarrow> kobject option \<Rightarrow> outcome \<times> 'w \<Rightarrow> 'w \<Rightarrow> bool" where
  "settles view g v res w \<longleftrightarrow>
     (if value_rank g v = 0 then \<exists>w'. res = (Done, w') \<and> view w' = view w
      else \<exists>w' v'. res = (Requeue, w') \<and> view w' = put (g_key g) v' (view w) \<and>
             value_wf g v' \<and> value_rank g v' < value_rank g v)"

definition measured :: "('w \<Rightarrow> cluster) \<Rightarrow> gauge \<Rightarrow> ('w \<Rightarrow> outcome \<times> 'w) \<Rightarrow> bool" where
  "measured view g f \<longleftrightarrow>
     (\<forall>w. let v = objects (view w) (g_key g) in value_wf g v \<longrightarrow> settles view g v (f w) w)"

lemma value_simps [simp]:
  "value_rank g None = g_absent g" "value_rank g (Some ob) = g_rank g ob"
  "value_wf g None" "value_wf g (Some ob) = g_wf g ob"
  by (simp_all add: value_rank_def value_wf_def)

lemma settlesI:
  "res = (Requeue, w') \<Longrightarrow> view w' = put (g_key g) v' (view w) \<Longrightarrow> value_wf g v' \<Longrightarrow>
   value_rank g v' < value_rank g v \<Longrightarrow> settles view g v res w"
  unfolding settles_def by auto

lemma settles_view: "settles view g v res w1 \<Longrightarrow> view w1 = view w \<Longrightarrow> settles view g v res w"
  by (simp only: settles_def)

lemma stores_get:
  assumes "stores view ops K wrap meta adm"
  shows "case objects (view w) (K, k) of
        None \<Rightarrow> (\<exists>w'. op_get ops k w = (Inl NotFound, w') \<and> view w' = view w)
      | Some ob \<Rightarrow> (\<exists>x w'. ob = wrap x \<and> meta_key (meta x) = k \<and> op_get ops k w = (Inr x, w') \<and> view w' = view w)"
  using assms unfolding stores_def by (elim conjE) (rule allE, assumption, erule allE)

lemma stores_get_None:
  assumes "stores view ops K wrap meta adm" "objects (view w) (K, k) = None"
  shows "\<exists>w'. op_get ops k w = (Inl NotFound, w') \<and> view w' = view w"
  using stores_get[OF assms(1), where w = w and k = k] unfolding assms(2) option.case .

lemma stores_get_Some:
  assumes "stores view ops K wrap meta adm" "objects (view w) (K, k) = Some ob"
  shows "\<exists>x w'. ob = wrap x \<and> meta_key (meta x) = k \<and> op_get ops k w = (Inr x, w') \<and> view w' = view w"
  using stores_get[OF assms(1), where w = w and k = k] unfolding assms(2) option.case .

lemma stores_write:
  assumes "stores view ops K wrap meta adm"
  shows stores_create: "objects (view w) (K, meta_key (meta x)) = None \<Longrightarrow>
      \<exists>w'. op_create ops x w = (None, w') \<and> view w' = put (K, meta_key (meta x)) (Some (wrap (adm x))) (view w)"
    and stores_update: "objects (view w) (K, meta_key (meta x)) \<noteq> None \<Longrightarrow>
      \<exists>w'. op_update ops x w = (None, w') \<and> view w' = put (K, meta_key (meta x)) (Some (wrap (adm x))) (view w)"
    and stores_delete: "objects (view w) (K, meta_key (meta x)) \<noteq> None \<Longrightarrow>
      \<exists>w'. op_delete ops x w = (None, w') \<and> view w' = put (K, meta_key (meta x)) None (view w)"
  using assms unfolding stores_def by blast+

lemma change_update:
  assumes "stores view ops K wrap meta adm" "objects (view w) (K, meta_key (meta x)) \<noteq> None"
  shows "\<exists>w'. change (op_update ops) x w = (Requeue, w') \<and>
    view w' = put (K, meta_key (meta x)) (Some (wrap (adm x))) (view w)"
  using stores_update[OF assms] by (auto simp: change_def)

lemma change_delete:
  assumes "stores view ops K wrap meta adm" "objects (view w) (K, meta_key (meta x)) \<noteq> None"
  shows "\<exists>w'. change (op_delete ops) x w = (Requeue, w') \<and>
    view w' = put (K, meta_key (meta x)) None (view w)"
  using stores_delete[OF assms] by (auto simp: change_def)

lemma measured_get_or_create:
  assumes st: "stores view ops K wrap meta adm" and key: "g_key g = (K, key)"
    and new: "obj = Inr e" "meta_key (meta e) = key" "g_wf g (wrap (adm e))"
      "g_rank g (wrap (adm e)) < g_absent g"
    and check: "\<And>x w. meta_key (meta x) = key \<Longrightarrow> g_wf g (wrap x) \<Longrightarrow>
        objects (view w) (K, key) = Some (wrap x) \<Longrightarrow>
        settles view g (Some (wrap x)) (check x w) w"
  shows "measured view g (get_or_create ops key obj check)"
  unfolding measured_def Let_def
proof (intro allI impI)
  fix w assume wf: "value_wf g (objects (view w) (g_key g))"
  show "settles view g (objects (view w) (g_key g)) (get_or_create ops key obj check w) w"
  proof (cases "objects (view w) (K, key)")
    case None
    from stores_get_None[OF st this] obtain w1 where
      w1: "op_get ops key w = (Inl NotFound, w1)" "view w1 = view w" by blast
    with None stores_create[OF st, of w1 e] new(2) obtain w2 where
      w2: "op_create ops e w1 = (None, w2)" "view w2 = put (K, key) (Some (wrap (adm e))) (view w)" by auto
    show ?thesis
      by (rule settlesI[of _ w2 _ _ "Some (wrap (adm e))"])
        (use w1 w2 new key None in \<open>simp_all add: get_or_create_def create_owned_def\<close>)
  next
    case (Some ob)
    from stores_get_Some[OF st this] obtain x w1 where
      x: "ob = wrap x" "meta_key (meta x) = key" "op_get ops key w = (Inr x, w1)" "view w1 = view w" by blast
    have "settles view g (Some (wrap x)) (check x w1) w1"
      by (rule check) (use x wf Some key in auto)
    then have "settles view g (Some (wrap x)) (check x w1) w" using x(4) by (rule settles_view)
    then show ?thesis
      using x key Some by (simp add: get_or_create_def)
  qed
qed

text \<open>An object that is only created.\<close>

lemma settles_quiet: "value_rank g v = 0 \<Longrightarrow> settles view g v (Done, w) w"
  by (auto simp: settles_def)

lemma settles_update:
  assumes "stores view ops K wrap meta adm" "objects (view w) (K, key) \<noteq> None" "g_key g = (K, key)"
    "meta_key (meta x) = key" "g_wf g (wrap (adm x))" "g_rank g (wrap (adm x)) < value_rank g v"
  shows "settles view g v (change (op_update ops) x w) w"
proof -
  have "\<exists>w'. change (op_update ops) x w = (Requeue, w') \<and> view w' = put (K, key) (Some (wrap (adm x))) (view w)"
    using change_update[OF assms(1), of w x] assms(2,4) by auto
  then obtain w' where "change (op_update ops) x w = (Requeue, w')"
    "view w' = put (K, key) (Some (wrap (adm x))) (view w)" by blast
  then show ?thesis
    using assms(3,5,6) by (intro settlesI[where v' = "Some (wrap (adm x))"]) simp_all
qed

lemma settles_delete:
  assumes "stores view ops K wrap meta adm" "objects (view w) (K, key) \<noteq> None" "g_key g = (K, key)"
    "meta_key (meta x) = key" "g_absent g < value_rank g v"
  shows "settles view g v (change (op_delete ops) x w) w"
proof -
  have "\<exists>w'. change (op_delete ops) x w = (Requeue, w') \<and> view w' = put (K, key) None (view w)"
    using change_delete[OF assms(1), of w x] assms(2,4) by auto
  then obtain w' where "change (op_delete ops) x w = (Requeue, w')"
    "view w' = put (K, key) None (view w)" by blast
  then show ?thesis
    using assms(3,5) by (intro settlesI[where v' = None]) simp_all
qed

subsection \<open>A list of measured steps\<close>

text \<open>
  A step on the state of a reconciler, world and package variables; \<open>ok\<close> is what it needs of the package
  variables and keeps.
\<close>

definition measured_state ::
    "('w \<Rightarrow> cluster) \<Rightarrow> (globals \<Rightarrow> bool) \<Rightarrow> gauge \<Rightarrow> ('w state \<Rightarrow> outcome \<times> 'w state) \<Rightarrow> bool" where
  "measured_state view ok g f \<longleftrightarrow>
     (\<forall>s. let v = objects (view (fst s)) (g_key g) in ok (snd s) \<longrightarrow> value_wf g v \<longrightarrow>
        settles (\<lambda>s. view (fst s)) g v (f s) s \<and> ok (snd (snd (f s))))"

lemma measured_lift_world:
  fixes view :: "'w \<Rightarrow> cluster"
  assumes "measured view g f"
  shows "measured_state view ok g (lift_world f)"
  unfolding measured_state_def Let_def
proof (intro allI impI conjI)
  fix s :: "'w state"
  assume "ok (snd s)" and "value_wf g (objects (view (fst s)) (g_key g))"
  then have "settles view g (objects (view (fst s)) (g_key g)) (f (fst s)) (fst s)"
    using assms unfolding measured_def Let_def by blast
  then show "settles (\<lambda>s. view (fst s)) g (objects (view (fst s)) (g_key g)) (lift_world f s) s"
    by (cases "value_rank g (objects (view (fst s)) (g_key g)) = 0") (auto simp: lift_world_def settles_def)
  show "ok (snd (snd (lift_world f s)))"
    using \<open>ok (snd s)\<close> by (simp add: lift_world_def split: prod.splits)
qed

text \<open>A step that first builds its object, which changes the package variables.\<close>

lemma measured_builder:
  fixes view :: "'w \<Rightarrow> cluster"
  assumes "measured view g f"
    and built: "\<And>s. ok (snd s) \<Longrightarrow> \<exists>g'. ok g' \<and> step s = lift_world f (fst s, g')"
  shows "measured_state view ok g step"
  unfolding measured_state_def Let_def
proof (intro allI impI)
  fix s :: "'w state"
  let ?v = "objects (view (fst s)) (g_key g)"
  assume s: "ok (snd s)" "value_wf g ?v"
  from built[OF s(1)] obtain g' where g': "ok g'" "step s = lift_world f (fst s, g')" by blast
  have "settles (\<lambda>s. view (fst s)) g ?v (lift_world f (fst s, g')) (fst s, g') \<and>
      ok (snd (snd (lift_world f (fst s, g'))))"
    using measured_lift_world[OF assms(1), of ok] g'(1) s(2) unfolding measured_state_def Let_def
    by (metis fst_conv snd_conv)
  then show "settles (\<lambda>s. view (fst s)) g ?v (step s) s \<and> ok (snd (snd (step s)))"
    unfolding g'(2) by (auto elim!: settles_view[where w = s and view = "\<lambda>s. view (fst s)"])
qed

text \<open>The rank that a list of gauges gives to the key of one of them, and what all of them assume.\<close>

definition steps_rank :: "('w \<Rightarrow> cluster) \<Rightarrow> gauge list \<Rightarrow> object_key \<Rightarrow> 'w state \<Rightarrow> nat" where
  "steps_rank view gs k s =
     (case find (\<lambda>g. g_key g = k) gs of None \<Rightarrow> 0 | Some g \<Rightarrow> value_rank g (objects (view (fst s)) k))"

definition steps_wf :: "('w \<Rightarrow> cluster) \<Rightarrow> gauge list \<Rightarrow> 'w \<Rightarrow> bool" where
  "steps_wf view gs w \<longleftrightarrow> (\<forall>g \<in> set gs. value_wf g (objects (view w) (g_key g)))"

lemma steps_rank_gauge:
  "distinct (map g_key gs) \<Longrightarrow> g \<in> set gs \<Longrightarrow>
   steps_rank view gs (g_key g) s = value_rank g (objects (view (fst s)) (g_key g))"
proof (induction gs)
  case (Cons h gs)
  then show ?case by (cases "g_key h = g_key g") (force simp: steps_rank_def)+
qed simp

lemma measured_step:
  assumes f: "measured_state view ok g f" "g \<in> set gs" and dist: "distinct (map g_key gs)"
    and s: "ok (snd s)" "steps_wf view gs (fst s)"
  shows "if steps_rank view gs (g_key g) s = 0
    then \<exists>s'. f s = (Done, s') \<and> ok (snd s') \<and> view (fst s') = view (fst s)
    else \<exists>s'. f s = (Requeue, s') \<and> ok (snd s') \<and> steps_wf view gs (fst s') \<and>
      (\<exists>v. view (fst s') = put (g_key g) v (view (fst s))) \<and>
      steps_rank view gs (g_key g) s' < steps_rank view gs (g_key g) s \<and>
      (\<forall>j. j \<noteq> g_key g \<longrightarrow> steps_rank view gs j s' = steps_rank view gs j s)"
proof -
  let ?v = "objects (view (fst s)) (g_key g)"
  note rank = steps_rank_gauge[OF dist f(2), of view]
  have "value_wf g ?v" using s(2) f(2) by (auto simp: steps_wf_def)
  then have settles: "settles (\<lambda>s. view (fst s)) g ?v (f s) s" and ok: "ok (snd (snd (f s)))"
    using f(1) s(1) unfolding measured_state_def Let_def by blast+
  show ?thesis
  proof (cases "value_rank g ?v = 0")
    case True
    then show ?thesis using settles ok by (auto simp: rank settles_def)
  next
    case False
    then obtain s' v' where s': "f s = (Requeue, s')" "view (fst s') = put (g_key g) v' (view (fst s))"
        "value_wf g v'" "value_rank g v' < value_rank g ?v"
      using settles by (auto simp: settles_def)
    have "steps_wf view gs (fst s')"
      unfolding steps_wf_def
    proof
      fix h assume "h \<in> set gs"
      then show "value_wf h (objects (view (fst s')) (g_key h))"
        using s' s(2) dist f(2) by (cases "g_key h = g_key g") (auto simp: steps_wf_def distinct_map inj_on_def)
    qed
    moreover have "steps_rank view gs j s' = steps_rank view gs j s" if "j \<noteq> g_key g" for j
      using that by (simp add: steps_rank_def s'(2) split: option.splits)
    ultimately show ?thesis using s' ok False by (simp add: rank) blast
  qed
qed

lemma steps_rank_view: "view (fst s') = view (fst s) \<Longrightarrow> steps_rank view gs k s' = steps_rank view gs k s"
  by (simp add: steps_rank_def split: option.splits)

lemma steps_wf_view: "view w' = view w \<Longrightarrow> steps_wf view gs w' = steps_wf view gs w"
  by (simp add: steps_wf_def)

lemma steps_objects:
  assumes "objects (view w') = objects (view w)"
  shows "steps_wf view gs w' = steps_wf view gs w" "steps_rank view gs k (w', g') = steps_rank view gs k (w, g)"
  using assms by (auto simp: steps_wf_def steps_rank_def split: option.splits)

text \<open>
  The contract \<open>settling\<close> of a list of measured steps, under hypotheses \<open>H\<close> about the client and the resource,
  and with a condition \<open>Q\<close> on the cluster that does not read the objects of the gauges.
\<close>

definition others_kept :: "gauge list \<Rightarrow> cluster \<Rightarrow> cluster \<Rightarrow> bool" where
  "others_kept gs c0 c \<longleftrightarrow>
     (\<forall>k. k \<notin> g_key ` set gs \<longrightarrow> objects c k = objects c0 k) \<and> same_resources c0 c"

lemma others_kept_put: "g \<in> set gs \<Longrightarrow> others_kept gs c0 c \<Longrightarrow> others_kept gs c0 (put (g_key g) v c)"
  by (auto simp: others_kept_def)

definition parts_inv ::
    "('w \<Rightarrow> cluster) \<Rightarrow> bool \<Rightarrow> (globals \<Rightarrow> bool) \<Rightarrow> gauge list \<Rightarrow> (cluster \<Rightarrow> bool) \<Rightarrow> 'w state \<Rightarrow> bool" where
  "parts_inv view H ok gs Q s \<longleftrightarrow> H \<and> ok (snd s) \<and> steps_wf view gs (fst s) \<and> Q (view (fst s))"

lemma parts_step:
  assumes measured: "H \<Longrightarrow> measured_state view ok g f" and g: "g \<in> set gs" and dist: "distinct (map g_key gs)"
    and Q: "\<And>c v. Q c \<Longrightarrow> Q (put (g_key g) v c)"
    and inv: "parts_inv view H ok gs Q s"
  shows "if steps_rank view gs (g_key g) s = 0
    then \<exists>s'. f s = (Done, s') \<and> parts_inv view H ok gs Q s' \<and> view (fst s') = view (fst s)
    else \<exists>s'. f s = (Requeue, s') \<and> parts_inv view H ok gs Q s' \<and>
      steps_rank view gs (g_key g) s' < steps_rank view gs (g_key g) s \<and>
      (\<forall>j. j \<noteq> g_key g \<longrightarrow> steps_rank view gs j s' = steps_rank view gs j s)"
proof -
  have s: "H" "ok (snd s)" "steps_wf view gs (fst s)" "Q (view (fst s))" using inv by (simp_all add: parts_inv_def)
  note step = measured_step[OF measured[OF s(1)] g dist s(2,3)]
  show ?thesis
  proof (cases "steps_rank view gs (g_key g) s = 0")
    case True
    with step obtain s' where s': "f s = (Done, s')" "ok (snd s')" "view (fst s') = view (fst s)" by auto
    then have "parts_inv view H ok gs Q s'" using s by (simp add: parts_inv_def steps_wf_def)
    with s' True show ?thesis by simp
  next
    case False
    with step obtain s' v where s': "f s = (Requeue, s')" "ok (snd s')" "steps_wf view gs (fst s')"
        "view (fst s') = put (g_key g) v (view (fst s))"
        "steps_rank view gs (g_key g) s' < steps_rank view gs (g_key g) s"
        "\<forall>j. j \<noteq> g_key g \<longrightarrow> steps_rank view gs j s' = steps_rank view gs j s"
      by (auto simp del: not_gr_zero)
    moreover have "Q (view (fst s'))" unfolding s'(4) by (rule Q[OF s(4)])
    ultimately have "parts_inv view H ok gs Q s'" using s(1) by (simp add: parts_inv_def)
    with s' False show ?thesis by auto
  qed
qed

lemma parts_settling:
  assumes measured: "\<And>g f. H \<Longrightarrow> (g, f) \<in> set parts \<Longrightarrow> measured_state view ok g f"
    and dist: "distinct (map g_key (map fst parts))"
    and Q: "\<And>c g v. g \<in> set (map fst parts) \<Longrightarrow> Q c \<Longrightarrow> Q (put (g_key g) v c)"
  shows "settling (map (\<lambda>(g, f). (g_key g, f)) parts) (steps_rank view (map fst parts))
    (parts_inv view H ok (map fst parts) Q)"
proof
  let ?steps = "map (\<lambda>(g, f). (g_key g, f)) parts" and ?rank = "steps_rank view (map fst parts)"
    and ?inv = "parts_inv view H ok (map fst parts) Q"
  show "distinct (map fst ?steps)" using dist by (simp add: comp_def split_def)
  fix k f s
  assume kf: "(k, f) \<in> set ?steps" and inv: "?inv s"
  obtain g where g: "(g, f) \<in> set parts" "k = g_key g" using kf by auto
  then have mem: "g \<in> set (map fst parts)" by force
  have step: "if ?rank k s = 0
    then \<exists>s'. f s = (Done, s') \<and> ?inv s' \<and> view (fst s') = view (fst s)
    else \<exists>s'. f s = (Requeue, s') \<and> ?inv s' \<and> ?rank k s' < ?rank k s \<and> (\<forall>j. j \<noteq> k \<longrightarrow> ?rank j s' = ?rank j s)"
    unfolding g(2) by (rule parts_step[OF measured[OF _ g(1)] mem dist Q[OF mem] inv])
  show "\<exists>s'. f s = (Done, s') \<and> ?inv s' \<and> (\<forall>j \<in> fst ` set ?steps. ?rank j s' = ?rank j s)" if "?rank k s = 0"
    using step steps_rank_view[of view _ s] unfolding that if_P[OF refl] by blast
  show "\<exists>s'. f s = (Requeue, s') \<and> ?inv s' \<and> ?rank k s' < ?rank k s \<and>
      (\<forall>j \<in> fst ` set ?steps. j \<noteq> k \<longrightarrow> ?rank j s' = ?rank j s)" if "0 < ?rank k s"
    using step unfolding if_not_P[OF less_imp_neq[OF that, symmetric]] by blast
qed

text \<open>Objects with the owner reference in place.\<close>

lemma owned_Inr:
  assumes "sets_owner (r_set_owner r)" "or_Namespace owner = m_Namespace m \<or> or_Namespace owner = []"
  shows "\<exists>refs. owned r owner m mk = Inr (mk (m\<lparr>m_OwnerReferences := refs\<rparr>))"
proof -
  obtain refs where "r_set_owner r owner m = Inr (m\<lparr>m_OwnerReferences := refs\<rparr>)"
    using assms unfolding sets_owner_def by metis
  then show ?thesis by (auto simp: owned_def)
qed

end
