(* ===== verification/SiemProps.thy ===== *)
theory SiemProps
  imports SiemSettings
begin

text \<open>
  The SIEM settings of a \<open>CommonAudit\<close> in the Splunk and syslog ConfigMaps: the code's
  \<open>EqualSIEMConfig\<close> and \<open>UpdateSIEMConfig\<close> in terms of the contract of SiemSettings, and what follows:
  an update is accepted by the next check, and everything else in the text is left alone.
\<close>

subsection \<open>The two resources in terms of the contract\<close>

abbreviation splunk_keys :: "string list" where
  "splunk_keys \<equiv> [hecHost, hecPort, hecToken, protocol]"

abbreviation syslog_keys :: "string list" where
  "syslog_keys \<equiv> [host, port, hostname, tls]"

definition splunk_values :: "CommonAudit \<Rightarrow> string list" where
  "splunk_values inst = [sk_Host (ca_splunk inst), Itoa (sint (sk_Port (ca_splunk inst))),
     sk_Token (ca_splunk inst), Protocols (sk_TLS (ca_splunk inst))]"

definition syslog_values :: "CommonAudit \<Rightarrow> string list" where
  "syslog_values inst = [sy_Host (ca_syslog inst), Itoa (sint (sy_Port (ca_syslog inst))),
     sy_Hostname (ca_syslog inst), FormatBool (sy_TLS (ca_syslog inst))]"

definition is_splunk :: "configmap \<Rightarrow> bool" where
  "is_splunk found \<longleftrightarrow> m_Name (cm_Meta found) = cm_name SplunkConfigName"

text \<open>Key, keys and values that the code works with for a ConfigMap: those of Splunk or of syslog.\<close>

definition siem_key :: "configmap \<Rightarrow> string" where
  "siem_key found = (if is_splunk found then SplunkConfigKey else QRadarConfigKey)"

definition siem_keys :: "configmap \<Rightarrow> string list" where
  "siem_keys found = (if is_splunk found then splunk_keys else syslog_keys)"

definition siem_values :: "CommonAudit \<Rightarrow> configmap \<Rightarrow> string list" where
  "siem_values inst found = (if is_splunk found then splunk_values inst else syslog_values inst)"

definition configured :: "CommonAudit \<Rightarrow> configmap \<Rightarrow> bool" where
  "configured inst found \<longleftrightarrow>
     (if is_splunk found then ca_splunk inst \<noteq> zero_splunk else ca_syslog inst \<noteq> zero_syslog)"

definition siem_text :: "configmap \<Rightarrow> string" where
  "siem_text found = mget (cm_Data found) (siem_key found)"

lemma length_siem_values [simp]: "length (siem_values inst found) = length (siem_keys found)"
  by (simp add: siem_values_def siem_keys_def splunk_values_def syslog_values_def)

lemmas regex_defs =
  RegexHecHost_def RegexHecPort_def RegexHecToken_def RegexProtocol_def
  RegexHost_def RegexPort_def RegexHostname_def RegexTLS_def

lemma UpdateSIEMConfig_eq:
  "UpdateSIEMConfig inst found =
     (if configured inst found
      then write_settings (zip (siem_keys found) (siem_values inst found)) (siem_text found) else [])"
  by (simp add: UpdateSIEMConfig_def configured_def is_splunk_def siem_keys_def siem_values_def
      siem_text_def siem_key_def splunk_values_def syslog_values_def write_settings_def regex_defs)

definition siem_names :: "configmap \<Rightarrow> string list" where
  "siem_names found =
     (if is_splunk found then [''Host'', ''Port'', ''Token'', ''Protocol'']
      else [''Host'', ''Port'', ''Hostname'', ''TLS''])"

lemma EqualSIEMConfig_eq:
  "EqualSIEMConfig inst found =
     (if configured inst found
      then check_configs (map2 setting (siem_names found) (zip (siem_keys found) (siem_values inst found)))
             (siem_text found) (True, False)
      else (True, False))"
  by (simp add: EqualSIEMConfig_def configured_def is_splunk_def siem_keys_def siem_values_def
      siem_text_def siem_key_def siem_names_def splunk_values_def syslog_values_def
      splunk_configs_def syslog_configs_def setting_def regex_defs)

text \<open>The settings of a text are the ones the resource asks for.\<close>

definition settings_read :: "CommonAudit \<Rightarrow> configmap \<Rightarrow> bool" where
  "settings_read inst found \<longleftrightarrow>
     (\<forall>(k, v) \<in> set (zip (siem_keys found) (siem_values inst found)).
        read_setting k (siem_text found) = Some v)"

lemma snd_zip_names:
  "map snd (zip (siem_names found) (zip (siem_keys found) (siem_values inst found))) =
     zip (siem_keys found) (siem_values inst found)"
  by (simp add: siem_names_def siem_keys_def siem_values_def splunk_values_def syslog_values_def)

lemma EqualSIEMConfig_True:
  "EqualSIEMConfig inst found = (True, m) \<longleftrightarrow>
     \<not> m \<and> (configured inst found \<longrightarrow> settings_read inst found)"
proof (cases "configured inst found")
  case True
  let ?kvs = "zip (siem_keys found) (siem_values inst found)"
  have sub: "set ?kvs \<subseteq> set (siem_keys found) \<times> UNIV" by (auto dest: set_zip_leftD)
  have "EqualSIEMConfig inst found =
      check_configs (map2 setting (siem_names found) ?kvs) (siem_text found) (True, False)"
    using True by (simp add: EqualSIEMConfig_eq)
  moreover have "check_configs (map2 setting (siem_names found) ?kvs) (siem_text found) (True, False)
      = (True, m) \<longleftrightarrow> \<not> m \<and> settings_read inst found"
  proof (cases "is_splunk found")
    case True
    then have keys: "siem_keys found = splunk_keys" by (simp add: siem_keys_def)
    show ?thesis
      using splunk.check_all_equal[OF sub[unfolded keys], of "siem_names found" "siem_text found" m]
      by (simp only: settings_read_def keys[symmetric] snd_zip_names)
  next
    case False
    then have keys: "siem_keys found = syslog_keys" by (simp add: siem_keys_def)
    show ?thesis
      using syslog.check_all_equal[OF sub[unfolded keys], of "siem_names found" "siem_text found" m]
      by (simp only: settings_read_def keys[symmetric] snd_zip_names)
  qed
  ultimately show ?thesis using True by simp
qed (auto simp: EqualSIEMConfig_eq)

subsection \<open>Updating\<close>

definition siem_updated :: "CommonAudit \<Rightarrow> configmap \<Rightarrow> (string, string) fmap \<Rightarrow> configmap" where
  "siem_updated inst found d =
     found\<lparr>cm_Data := Some (fmupd (siem_key found) (UpdateSIEMConfig inst found) d)\<rparr>"

lemma siem_updated_same [simp]:
  "is_splunk (siem_updated inst found d) = is_splunk found"
  "siem_key (siem_updated inst found d) = siem_key found"
  "siem_keys (siem_updated inst found d) = siem_keys found"
  "siem_values inst (siem_updated inst found d) = siem_values inst found"
  "configured inst (siem_updated inst found d) = configured inst found"
  "siem_text (siem_updated inst found d) = UpdateSIEMConfig inst found"
  "cm_Meta (siem_updated inst found d) = cm_Meta found"
  by (simp_all add: siem_updated_def is_splunk_def siem_key_def siem_keys_def siem_values_def
      configured_def siem_text_def)

lemma siem_keys_locale: "setting_keys (siem_keys found)"
  using splunk.setting_keys_axioms syslog.setting_keys_axioms by (simp add: siem_keys_def)

definition plain_values :: "CommonAudit \<Rightarrow> configmap \<Rightarrow> bool" where
  "plain_values inst found \<longleftrightarrow> (\<forall>v \<in> set (siem_values inst found). plain_value v)"

lemma plain_values_iff:
  "plain_values inst found \<longleftrightarrow>
     (if is_splunk found then plain_value (sk_Host (ca_splunk inst)) \<and> plain_value (sk_Token (ca_splunk inst))
      else plain_value (sy_Host (ca_syslog inst)) \<and> plain_value (sy_Hostname (ca_syslog inst)))"
  by (simp add: plain_values_def siem_values_def splunk_values_def syslog_values_def)

lemma sub_plain:
  "plain_values inst found \<Longrightarrow>
     set (zip (siem_keys found) (siem_values inst found)) \<subseteq> set (siem_keys found) \<times> Collect plain_value"
  by (auto simp: plain_values_def dest: set_zip_leftD set_zip_rightD)

lemma updated_settings_read:
  assumes "plain_values inst found" "configured inst found"
    and "separated (siem_keys found) (siem_text found)" "all_present (siem_keys found) (siem_text found)"
  shows "settings_read inst (siem_updated inst found d)"
proof -
  have "read_setting k (UpdateSIEMConfig inst found) = Some v"
    if "(k, v) \<in> set (zip (siem_keys found) (siem_values inst found))" for k v
    using setting_keys.read_written[OF siem_keys_locale _ _ assms(3,4) that] assms(1,2)
    by (simp add: UpdateSIEMConfig_eq plain_values_def)
  then show ?thesis by (auto simp: settings_read_def)
qed

lemma update_accepted:
  assumes "plain_values inst found" "separated (siem_keys found) (siem_text found)"
    "all_present (siem_keys found) (siem_text found)"
  shows "EqualSIEMConfig inst (siem_updated inst found d) = (True, False)"
  using updated_settings_read[OF assms(1) _ assms(2,3)] by (simp add: EqualSIEMConfig_True)

text \<open>A line keeps the set of keys it holds.\<close>

lemma lines_of_update:
  assumes "plain_values inst found" "configured inst found"
  shows "split_lines (UpdateSIEMConfig inst found) =
    map (write_line (zip (siem_keys found) (siem_values inst found))) (split_lines (siem_text found))"
  using setting_keys.split_write_settings[OF siem_keys_locale sub_plain[OF assms(1)]] assms(2)
  by (simp add: UpdateSIEMConfig_eq)

lemma updated_line_contains:
  assumes "plain_values inst found" "separated (siem_keys found) (siem_text found)"
    and "l \<in> set (split_lines (siem_text found))" "k \<in> set (siem_keys found)"
  shows "contains (write_line (zip (siem_keys found) (siem_values inst found)) l) k \<longleftrightarrow> contains l k"
proof -
  have "set (siem_keys found) = fst ` set (zip (siem_keys found) (siem_values inst found))"
    by (metis length_siem_values list.set_map map_fst_zip)
  then obtain v where "(k, v) \<in> set (zip (siem_keys found) (siem_values inst found))"
    using assms(4) by force
  from setting_keys.get_write_line[OF siem_keys_locale _ _ this, of l] assms(1-3)
  show ?thesis
    by (auto simp: separated_def plain_values_def get_line_def contains_def split: option.splits if_splits)
qed

lemma updated_separated:
  assumes "plain_values inst found" "separated (siem_keys found) (siem_text found)" "configured inst found"
  shows "separated (siem_keys found) (UpdateSIEMConfig inst found)"
  using assms(2) unfolding separated_def lines_of_update[OF assms(1,3)]
  by (auto simp: updated_line_contains[OF assms(1,2)])

lemma updated_all_present:
  assumes "plain_values inst found" "separated (siem_keys found) (siem_text found)" "configured inst found"
  shows "all_present (siem_keys found) (UpdateSIEMConfig inst found) \<longleftrightarrow>
    all_present (siem_keys found) (siem_text found)"
  unfolding all_present_def lines_of_update[OF assms(1,3)]
  by (auto simp: updated_line_contains[OF assms(1,2)])

subsection \<open>What a check reports\<close>

lemma present_read:
  assumes "all_present ks data" "k \<in> set ks"
  shows "read_setting k data \<noteq> None"
proof -
  have "first_field k ls \<noteq> None" if "l \<in> set ls" "contains l k" for l ls
    using that by (induction ls) (auto simp: get_line_def contains_def split: option.splits)
  then show ?thesis using assms by (auto simp: all_present_def read_setting_def)
qed

lemma zip_keys: "set (zip xs ys) \<subseteq> set xs \<times> UNIV"
  by (auto dest: set_zip_leftD)

lemma check_present:
  "setting_keys ks \<Longrightarrow> set kvs \<subseteq> set ks \<times> UNIV \<Longrightarrow> all_present ks data \<Longrightarrow> \<not> m \<Longrightarrow>
   \<not> snd (check_configs (map2 setting ns kvs) data (e, m))"
proof (induction ns kvs arbitrary: e m rule: list_induct2')
  case (4 n ns kv kvs)
  obtain k v where kv: "kv = (k, v)" by (cases kv)
  with "4.prems" have k: "k \<in> set ks" by simp
  show ?case
    using 4 setting_keys.check_config_read[OF "4.prems"(1) k, of n v data] present_read[OF "4.prems"(3) k]
    by (auto simp: kv split: option.splits)
qed auto

text \<open>With every setting in place a mismatch is repaired, not reported as missing.\<close>

lemma present_not_missing:
  "all_present (siem_keys found) (siem_text found) \<Longrightarrow> \<not> snd (EqualSIEMConfig inst found)"
  using check_present[OF siem_keys_locale zip_keys, where m = False] by (simp add: EqualSIEMConfig_eq)

text \<open>Once all settings that are there are right, a setting that is not there is what the check finds.\<close>

lemma check_missing:
  "setting_keys ks \<Longrightarrow> set kvs \<subseteq> set ks \<times> UNIV \<Longrightarrow> length ns = length kvs \<Longrightarrow>
   \<forall>(k, v) \<in> set kvs. read_setting k data = Some v \<or> read_setting k data = None \<Longrightarrow>
   \<exists>(k, v) \<in> set kvs. read_setting k data = None \<Longrightarrow>
   check_configs (map2 setting ns kvs) data acc = (False, True)"
proof (induction ns kvs arbitrary: acc rule: list_induct2')
  case (4 n ns kv kvs)
  obtain k v where kv: "kv = (k, v)" by (cases kv)
  with "4.prems" have k: "k \<in> set ks" by simp
  show ?case
    using 4 setting_keys.check_config_read[OF "4.prems"(1) k, of n v data]
    by (auto simp: kv split: option.splits)
qed auto

lemma update_missing:
  assumes "plain_values inst found" "separated (siem_keys found) (siem_text found)"
    "configured inst found" "\<not> all_present (siem_keys found) (siem_text found)"
  shows "EqualSIEMConfig inst (siem_updated inst found d) = (False, True)"
proof -
  let ?kvs = "zip (siem_keys found) (siem_values inst found)"
  let ?new = "UpdateSIEMConfig inst found"
  have read: "read_setting k ?new =
      (if \<exists>l \<in> set (split_lines (siem_text found)). contains l k then Some v else None)"
    if "(k, v) \<in> set ?kvs" for k v
    using setting_keys.read_written_any[OF siem_keys_locale _ _ assms(2) that] assms(1,3)
    by (simp add: UpdateSIEMConfig_eq plain_values_def)
  obtain k where k: "k \<in> set (siem_keys found)" "\<forall>l \<in> set (split_lines (siem_text found)). \<not> contains l k"
    using assms(4) by (auto simp: all_present_def)
  have "set (siem_keys found) = fst ` set ?kvs"
    by (metis length_siem_values list.set_map map_fst_zip)
  then obtain v where kv: "(k, v) \<in> set ?kvs" using k(1) by force
  with read k(2) have none: "read_setting k ?new = None" by simp
  have "length (siem_names found) = length ?kvs"
    by (simp add: siem_names_def siem_keys_def)
  moreover have "\<forall>(k, v) \<in> set ?kvs. read_setting k ?new = Some v \<or> read_setting k ?new = None"
    using read by (auto split: if_splits)
  moreover have "\<exists>(k, v) \<in> set ?kvs. read_setting k ?new = None"
    using kv none by blast
  ultimately have "check_configs (map2 setting (siem_names found) ?kvs) ?new (True, False) = (False, True)"
    by (rule check_missing[OF siem_keys_locale zip_keys])
  then show ?thesis
    using assms(3) by (simp add: EqualSIEMConfig_eq siem_names_def siem_updated_same)
qed

subsection \<open>Properties\<close>

text \<open>C8: The SIEM round trip. When the text of a Splunk or syslog ConfigMap holds each of its four
  settings, no line of it two different ones, and the values of the resource are plain (no blank, line
  break or dollar sign; ports and truth values always are), then writing the resource's settings into
  the text gives a ConfigMap that the next check accepts: equal, nothing missing.\<close>

theorem siem_round_trip:
  assumes "plain_values inst found" "separated (siem_keys found) (siem_text found)"
    "all_present (siem_keys found) (siem_text found)"
  shows "EqualSIEMConfig inst
     (found\<lparr>cm_Data := Some (fmupd (siem_key found) (UpdateSIEMConfig inst found) d)\<rparr>) = (True, False)"
  using update_accepted[OF assms] by (simp add: siem_updated_def)

definition sample_splunk :: CommonAudit where
  "sample_splunk = (let c = new_common ''ca'' ''ns'' in c\<lparr>ca_Spec := (ca_Spec c)\<lparr>ca_Outputs :=
     (ca_Outputs (ca_Spec c))\<lparr>Splunk :=
       \<lparr>sk_EnableSIEM = True, sk_Host = ''h1'', sk_Port = 8088, sk_Token = ''t1'', sk_TLS = True\<rparr>\<rparr>\<rparr>\<rparr>)"

definition sample_splunk_map :: configmap where
  "sample_splunk_map =
     \<lparr>cm_Meta = zero_meta\<lparr>m_Name := cm_name SplunkConfigName\<rparr>,
      cm_Data = maplit [(SplunkConfigKey, join_lines
        [''<store>'', ''  hec_host old'', ''  hec_port 1'', ''  hec_token x y'', ''  protocol http'',
         ''  my own line'', ''</store>''])]\<rparr>"

lemma sample_siem_facts:
  "siem_keys sample_splunk_map = splunk_keys" "siem_key sample_splunk_map = SplunkConfigKey"
  "siem_text sample_splunk_map = join_lines
        [''<store>'', ''  hec_host old'', ''  hec_port 1'', ''  hec_token x y'', ''  protocol http'',
         ''  my own line'', ''</store>'']"
  "plain_values sample_splunk sample_splunk_map"
  by (simp_all add: siem_keys_def siem_key_def siem_text_def is_splunk_def sample_splunk_map_def
      plain_values_iff sample_splunk_def new_common_def Let_def plain_value_def nl_def mget_def)

lemma sample_siem_text:
  "separated splunk_keys (join_lines
        [''<store>'', ''  hec_host old'', ''  hec_port 1'', ''  hec_token x y'', ''  protocol http'',
         ''  my own line'', ''</store>''])"
  "all_present splunk_keys (join_lines
        [''<store>'', ''  hec_host old'', ''  hec_port 1'', ''  hec_token x y'', ''  protocol http'',
         ''  my own line'', ''</store>''])"
  by code_simp+

lemma sample_values:
  "siem_values sample_splunk sample_splunk_map = [''h1'', ''8088'', ''t1'', ''https'']"
  "configured sample_splunk sample_splunk_map"
  by (simp_all add: siem_values_def is_splunk_def sample_splunk_map_def splunk_values_def sample_splunk_def
      new_common_def Let_def configured_def zero_splunk_def Itoa_def utoa.simps digit_char_def)

lemma sample_written:
  "write_settings (zip splunk_keys [''h1'', ''8088'', ''t1'', ''https'']) (join_lines
        [''<store>'', ''  hec_host old'', ''  hec_port 1'', ''  hec_token x y'', ''  protocol http'',
         ''  my own line'', ''</store>'']) =
   join_lines
        [''<store>'', ''  hec_host h1'', ''  hec_port 8088'', ''  hec_token t1'', ''  protocol https'',
         ''  my own line'', ''</store>'']"
  by code_simp

theorem siem_round_trip_witness:
  "EqualSIEMConfig sample_splunk
     (sample_splunk_map\<lparr>cm_Data := Some (fmupd SplunkConfigKey
        (UpdateSIEMConfig sample_splunk sample_splunk_map) fmempty)\<rparr>) = (True, False) \<and>
   UpdateSIEMConfig sample_splunk sample_splunk_map = join_lines
        [''<store>'', ''  hec_host h1'', ''  hec_port 8088'', ''  hec_token t1'', ''  protocol https'',
         ''  my own line'', ''</store>'']"
proof
  show "EqualSIEMConfig sample_splunk
     (sample_splunk_map\<lparr>cm_Data := Some (fmupd SplunkConfigKey
        (UpdateSIEMConfig sample_splunk sample_splunk_map) fmempty)\<rparr>) = (True, False)"
    using siem_round_trip[of sample_splunk sample_splunk_map fmempty] sample_siem_facts sample_siem_text
    by simp
  show "UpdateSIEMConfig sample_splunk sample_splunk_map = join_lines
        [''<store>'', ''  hec_host h1'', ''  hec_port 8088'', ''  hec_token t1'', ''  protocol https'',
         ''  my own line'', ''</store>'']"
    using sample_siem_facts sample_values sample_written by (simp add: UpdateSIEMConfig_eq)
qed

text \<open>C19: An update leaves the customer's lines alone. With plain values, \<open>UpdateSIEMConfig\<close> returns a
  text of as many lines as it was given, and each line that holds none of the four settings is the
  line that was there before.\<close>

theorem siem_update_keeps_lines:
  assumes "plain_values inst found" "configured inst found"
  shows "length (split_lines (UpdateSIEMConfig inst found)) = length (split_lines (siem_text found)) \<and>
    (\<forall>i < length (split_lines (siem_text found)).
       list_all (\<lambda>k. \<not> contains (split_lines (siem_text found) ! i) k) (siem_keys found) \<longrightarrow>
       split_lines (UpdateSIEMConfig inst found) ! i = split_lines (siem_text found) ! i)"
proof
  show "length (split_lines (UpdateSIEMConfig inst found)) = length (split_lines (siem_text found))"
    by (simp add: lines_of_update[OF assms])
  show "\<forall>i < length (split_lines (siem_text found)).
       list_all (\<lambda>k. \<not> contains (split_lines (siem_text found) ! i) k) (siem_keys found) \<longrightarrow>
       split_lines (UpdateSIEMConfig inst found) ! i = split_lines (siem_text found) ! i"
    using setting_keys.other_lines_kept[OF siem_keys_locale sub_plain[OF assms(1)]] assms(2)
    by (simp add: UpdateSIEMConfig_eq list_all_iff)
qed

theorem siem_update_keeps_lines_witness:
  "split_lines (UpdateSIEMConfig sample_splunk sample_splunk_map) ! 5 = ''  my own line''"
proof -
  have lines: "split_lines (siem_text sample_splunk_map) =
      [''<store>'', ''  hec_host old'', ''  hec_port 1'', ''  hec_token x y'', ''  protocol http'',
       ''  my own line'', ''</store>'']"
    unfolding sample_siem_facts by code_simp
  have no_key: "list_all (\<lambda>k. \<not> contains ''  my own line'' k) splunk_keys"
    by code_simp
  show ?thesis
    using siem_update_keeps_lines[OF sample_siem_facts(4) sample_values(2)] no_key
    unfolding lines sample_siem_facts(1) by (auto dest: spec[of _ 5])
qed

text \<open>A value with a blank is never accepted: \<open>EqualSIEMConfig\<close> rejects every content of the ConfigMap, also the
  one that \<open>UpdateSIEMConfig\<close> has just written.\<close>

lemma blank_rejected:
  assumes "configured inst found" "v \<in> set (siem_values inst found)" "CHR '' '' \<in> set v"
  shows "\<not> fst (EqualSIEMConfig inst found)"
proof
  assume "fst (EqualSIEMConfig inst found)"
  then have "settings_read inst found"
    using assms(1) by (metis EqualSIEMConfig_True prod.collapse)
  moreover have "set (siem_values inst found) = snd ` set (zip (siem_keys found) (siem_values inst found))"
    by (metis length_siem_values list.set_map map_snd_zip)
  then obtain k where "(k, v) \<in> set (zip (siem_keys found) (siem_values inst found))"
    using assms(2) by force
  ultimately have "read_setting k (siem_text found) = Some v"
    by (auto simp: settings_read_def)
  then show False
    using assms(3) by (auto simp: read_setting_def dest: set_takeWhileD)
qed

definition sample_blank :: CommonAudit where
  "sample_blank = sample_splunk\<lparr>ca_Spec := (ca_Spec sample_splunk)\<lparr>ca_Outputs :=
     (ca_Outputs (ca_Spec sample_splunk))\<lparr>Splunk := (ca_splunk sample_splunk)\<lparr>sk_Token := ''a b''\<rparr>\<rparr>\<rparr>\<rparr>"

end
