(* ===== verification/FreshConfig.thy ===== *)
theory FreshConfig
  imports SiemProps
begin

text \<open>
  What BuildFluentdConfigMap puts into a new ConfigMap. The YAML decoder is a parameter of the model;
  the law \<open>yaml_literal\<close> says of it what the builders rely on: a document with one block scalar
  \<open>key: |-\<close> decodes to the lines of the block without their common indentation and without trailing
  empty lines.
\<close>

subsection \<open>Block scalars\<close>

definition printable :: "string \<Rightarrow> bool" where
  "printable l \<longleftrightarrow> list_all (\<lambda>c. 32 \<le> (of_char c :: nat) \<and> (of_char c :: nat) < 127) l"

definition block_doc :: "string \<Rightarrow> nat \<Rightarrow> string list \<Rightarrow> string" where
  "block_doc key n ls =
     join_lines ([[], key @ '': |-''] @ map (\<lambda>l. if l = [] then [] else replicate n (CHR '' '') @ l) ls)"

definition chomp :: "string list \<Rightarrow> string list" where
  "chomp ls = rev (dropWhile (\<lambda>l. l = []) (rev ls))"

definition block_lines :: "string list \<Rightarrow> bool" where
  "block_lines ls \<longleftrightarrow> ls \<noteq> [] \<and> hd ls \<noteq> [] \<and> hd (hd ls) \<noteq> CHR '' ''
     \<and> list_all (\<lambda>l. printable l \<and> (l = [] \<or> list_ex (\<lambda>c. c \<noteq> CHR '' '') l)) ls"

definition config_keys :: "string list" where
  "config_keys = [FluentdConfigKey, SourceConfigKey, SplunkConfigKey, QRadarConfigKey]"

definition yaml_literal :: "yaml_pkg \<Rightarrow> bool" where
  "yaml_literal yaml \<longleftrightarrow>
     (\<forall>key n ls. key \<in> set config_keys \<and> 0 < n \<and> block_lines ls \<longrightarrow>
        yaml key (block_doc key n ls) = Inr (join_lines (chomp ls)))"

text \<open>A decoder for documents of this form, at which the law holds.\<close>

definition yaml_block :: yaml_pkg where
  "yaml_block key doc =
     (case split_lines doc of
        e # h # d # ds \<Rightarrow>
          if e = [] \<and> h = key @ '': |-''
          then (let n = length (takeWhile (\<lambda>c. c = CHR '' '') d)
                in Inr (join_lines (chomp (map (drop n) (d # ds)))))
          else Inl ''yaml: not a block scalar of this key''
      | _ \<Rightarrow> Inl ''yaml: empty document'')"

lemma printable_no_nl: "printable l \<Longrightarrow> nl \<notin> set l"
  by (auto simp: printable_def list_all_iff nl_def)

lemma takeWhile_blanks:
  "l \<noteq> [] \<Longrightarrow> hd l \<noteq> CHR '' '' \<Longrightarrow> takeWhile (\<lambda>c. c = CHR '' '') (replicate n (CHR '' '') @ l) = replicate n (CHR '' '')"
  by (induction n) (auto simp: neq_Nil_conv)

lemma config_key_no_nl: "key \<in> set config_keys \<Longrightarrow> nl \<notin> set key"
  by (auto simp: config_keys_def FluentdConfigKey_def SourceConfigKey_def SplunkConfigKey_def
      QRadarConfigKey_def nl_def)

lemma split_block_doc:
  assumes "key \<in> set config_keys" "block_lines ls"
  shows "split_lines (block_doc key n ls) =
    [[], key @ '': |-''] @ map (\<lambda>l. if l = [] then [] else replicate n (CHR '' '') @ l) ls"
proof -
  have "nl \<notin> set l" if "l \<in> set ls" for l
    using that assms(2) printable_no_nl[of l] by (auto simp: block_lines_def list_all_iff)
  moreover have "nl \<notin> set (key @ '': |-'')" "nl \<noteq> CHR '' ''"
    using config_key_no_nl[OF assms(1)] by (simp_all add: nl_def)
  ultimately show ?thesis unfolding block_doc_def by (intro split_lines_join) auto
qed

lemma yaml_block_literal: "yaml_literal yaml_block"
  unfolding yaml_literal_def
proof (intro allI impI)
  fix key ls and n :: nat
  assume h: "key \<in> set config_keys \<and> 0 < n \<and> block_lines ls"
  then obtain l ls' where ls: "ls = l # ls'" "l \<noteq> []" "hd l \<noteq> CHR '' ''"
    by (cases ls) (auto simp: block_lines_def)
  have "drop n (if x = [] then [] else replicate n (CHR '' '') @ x) = x" for x :: string
    by simp
  then have "map (drop n) (map (\<lambda>l. if l = [] then [] else replicate n (CHR '' '') @ l) ls) = ls"
    by (simp add: comp_def)
  then show "yaml_block key (block_doc key n ls) = Inr (join_lines (chomp ls))"
    using split_block_doc[of key ls n] h ls
    by (simp add: yaml_block_def takeWhile_blanks)
qed

lemma chomp_last: "ls \<noteq> [] \<Longrightarrow> last ls \<noteq> [] \<Longrightarrow> chomp ls = ls"
  by (cases ls rule: rev_cases) (auto simp: chomp_def)

subsection \<open>The text of a new SIEM ConfigMap\<close>

text \<open>The lines, each as what the operator writes and a value of the resource after it.\<close>

definition splunk_lines :: "CommonAudit \<Rightarrow> (string \<times> string) list" where
  "splunk_lines inst =
     (let sk = ca_splunk inst; full = (sk_Host sk \<noteq> [] \<and> sk_Port sk \<noteq> 0 \<and> sk_Token sk \<noteq> [])
      in [(''<store>'', []), (''    @type splunk_hec'', []),
          (''    '' @ hecHost, if full then sk_Host sk else ''SPLUNK_SERVER_HOSTNAME''),
          (''    '' @ hecPort, if full then Itoa (sint (sk_Port sk)) else ''SPLUNK_PORT''),
          (''    '' @ hecToken, if full then sk_Token sk else ''SPLUNK_HEC_TOKEN''),
          (''    '' @ protocol, Protocols (sk_TLS sk)),
          (''    ca_file /fluentd/etc/tls/splunkCA.pem'', []),
          (''    source ${tag}'', []),
          (''</store>'', [])])"

definition syslog_lines :: "CommonAudit \<Rightarrow> (string \<times> string) list" where
  "syslog_lines inst =
     (let sy = ca_syslog inst; full = (sy_Host sy \<noteq> [] \<and> sy_Port sy \<noteq> 0 \<and> sy_Hostname sy \<noteq> [])
      in [(''<store>'', []), (''    @type remote_syslog'', []),
          (''    '' @ host, if full then sy_Host sy else ''QRADAR_SERVER_HOSTNAME''),
          (''    '' @ port, if full then Itoa (sint (sy_Port sy)) else ''QRADAR_PORT_FOR_icp-audit''),
          (''    '' @ hostname,
             if full then sy_Hostname sy else ''QRADAR_LOG_SOURCE_IDENTIFIER_FOR_icp-audit''),
          (''    '' @ tls, FormatBool (sy_TLS sy)),
          (''    protocol tcp'', []),
          (''    ca_file /fluentd/etc/tls/qradar.crt'', []),
          (''    packet_size 4096'', []),
          (''    program fluentd'', []),
          (''    <format>'', []),
          (''        @type single_value'', []),
          (''        message_key message'', []),
          (''    </format>'', []),
          (''</store>'', [])])"

abbreviation glue :: "(string \<times> string) list \<Rightarrow> string list" where
  "glue \<equiv> map (\<lambda>(x, v). x @ v)"

text \<open>The three lines that depend on whether the resource is complete.\<close>

lemma if_lines:
  "(if c then yamlLine n (a @ x) True @ yamlLine n (b @ y) True @ yamlLine n (d @ z) True
    else yamlLine n (a @ x') True @ yamlLine n (b @ y') True @ yamlLine n (d @ z') True) =
   yamlLine n (a @ (if c then x else x')) True @ yamlLine n (b @ (if c then y else y')) True
   @ yamlLine n (d @ (if c then z else z')) True"
  by simp

lemma yamlLine_2: "yamlLine 2 l b = ''        '' @ l @ (if b then newline else [])"
  by (simp add: yamlLine_def Repeat_def eval_nat_numeral)

lemma replicate_4: "replicate 4 c = [c, c, c, c]"
  by (simp add: eval_nat_numeral)

lemma splunk_text:
  "splunkConfigV1Data1 @ (yamlLine 2 (hecHost @ h) True @ yamlLine 2 (hecPort @ p) True
     @ yamlLine 2 (hecToken @ t) True) @ yamlLine 2 (protocol @ q) False @ splunkConfigV1Data2 =
   block_doc SplunkConfigKey 4 (glue
     [(''<store>'', []), (''    @type splunk_hec'', []), (''    '' @ hecHost, h), (''    '' @ hecPort, p),
      (''    '' @ hecToken, t), (''    '' @ protocol, q), (''    ca_file /fluentd/etc/tls/splunkCA.pem'', []),
      (''    source ${tag}'', []), (''</store>'', [])])"
  by (simp add: block_doc_def yamlLine_2 replicate_4 splunkConfigV1Data1_def splunkConfigV1Data2_def
      SplunkConfigKey_def)

lemma syslog_text:
  "qRadarConfigV1Data1 @ (yamlLine 2 (host @ h) True @ yamlLine 2 (port @ p) True
     @ yamlLine 2 (hostname @ n) True) @ yamlLine 2 (tls @ q) False @ qRadarConfigV1Data2 =
   block_doc QRadarConfigKey 4 (glue
     [(''<store>'', []), (''    @type remote_syslog'', []), (''    '' @ host, h), (''    '' @ port, p),
      (''    '' @ hostname, n), (''    '' @ tls, q), (''    protocol tcp'', []),
      (''    ca_file /fluentd/etc/tls/qradar.crt'', []), (''    packet_size 4096'', []),
      (''    program fluentd'', []), (''    <format>'', []), (''        @type single_value'', []),
      (''        message_key message'', []), (''    </format>'', []), (''</store>'', [])])"
  by (simp add: block_doc_def yamlLine_2 replicate_4 qRadarConfigV1Data1_def qRadarConfigV1Data2_def
      QRadarConfigKey_def)

lemma splunk_doc: "buildFluentdSplunkConfig inst = block_doc SplunkConfigKey 4 (glue (splunk_lines inst))"
  by (simp only: buildFluentdSplunkConfig_def splunk_lines_def Let_def if_lines splunk_text)

lemma syslog_doc: "buildFluentdQRadarConfig inst = block_doc QRadarConfigKey 4 (glue (syslog_lines inst))"
  by (simp only: buildFluentdQRadarConfig_def syslog_lines_def Let_def if_lines syslog_text)

subsection \<open>Texts made of prefixes and values\<close>

definition prefix_ok :: "string list \<Rightarrow> string \<Rightarrow> bool" where
  "prefix_ok ks x \<longleftrightarrow> printable x \<and> list_ex (\<lambda>c. c \<noteq> CHR '' '') x
     \<and> list_all (\<lambda>k. list_all (\<lambda>k'. contains x k \<and> contains x k' \<longrightarrow> k = k') ks) ks
     \<and> list_all (\<lambda>k. case cut k x of None \<Rightarrow> True | Some (a, b) \<Rightarrow> b = []) ks"

definition prefixes_ok :: "string list \<Rightarrow> string list \<Rightarrow> bool" where
  "prefixes_ok ks xs \<longleftrightarrow> xs \<noteq> [] \<and> hd xs \<noteq> [] \<and> hd (hd xs) \<noteq> CHR '' '' \<and> last xs \<noteq> []
     \<and> list_all (prefix_ok ks) xs \<and> list_all (\<lambda>k. list_ex (\<lambda>x. contains x k) xs) ks"

definition value_ok :: "string \<Rightarrow> bool" where
  "value_ok v \<longleftrightarrow> plain_value v \<and> printable v"

lemma prefix_okD:
  assumes "prefixes_ok ks (map fst ps)" "(x, v) \<in> set ps"
  shows "prefix_ok ks x"
  using assms by (force simp: prefixes_ok_def list_all_iff)

lemma prefix_no_nl: "prefixes_ok ks (map fst ps) \<Longrightarrow> (x, v) \<in> set ps \<Longrightarrow> nl \<notin> set x"
  by (metis prefix_okD prefix_ok_def printable_no_nl)

lemma split_glue:
  assumes "prefixes_ok ks (map fst ps)" "\<forall>v \<in> set (map snd ps). value_ok v"
  shows "split_lines (join_lines (glue ps)) = glue ps"
proof (rule split_lines_join)
  show "glue ps \<noteq> []" using assms(1) by (auto simp: prefixes_ok_def)
  show "\<forall>l \<in> set (glue ps). nl \<notin> set l"
    using prefix_no_nl[OF assms(1)] assms(2) by (fastforce simp: value_ok_def plain_value_def)
qed

lemma glue_block_lines:
  assumes "prefixes_ok ks (map fst ps)" "\<forall>v \<in> set (map snd ps). value_ok v"
  shows "block_lines (glue ps)" "chomp (glue ps) = glue ps"
proof -
  obtain x v ps' where ps: "ps = (x, v) # ps'" "x \<noteq> []" "hd x \<noteq> CHR '' ''"
    using assms(1) by (cases ps) (auto simp: prefixes_ok_def)
  have "printable (y @ w) \<and> list_ex (\<lambda>c. c \<noteq> CHR '' '') (y @ w)" if "(y, w) \<in> set ps" for y w
    using that assms by (force simp: prefixes_ok_def prefix_ok_def list_all_iff value_ok_def printable_def)
  then show "block_lines (glue ps)" using ps by (auto simp: block_lines_def list_all_iff)
  have "last (map fst ps) \<noteq> []" "ps \<noteq> []" using assms(1) by (auto simp: prefixes_ok_def)
  then show "chomp (glue ps) = glue ps" by (intro chomp_last) (auto simp: last_map split: prod.splits)
qed

lemma glue_contains:
  assumes "prefixes_ok ks (map fst ps)" "\<forall>v \<in> set (map snd ps). value_ok v"
    and "\<forall>k \<in> set ks. key_form k" "(x, v) \<in> set ps" "k \<in> set ks"
  shows "contains (x @ v) k \<longleftrightarrow> contains x k"
  using contains_after_set[of k v x] contains_prefix[of x k v] assms
  by (force simp: value_ok_def plain_value_def)

lemma glue_separated:
  assumes "prefixes_ok ks (map fst ps)" "\<forall>v \<in> set (map snd ps). value_ok v" "\<forall>k \<in> set ks. key_form k"
  shows "separated ks (join_lines (glue ps))"
  unfolding separated_def split_glue[OF assms(1,2)]
proof (intro ballI impI)
  fix l k k'
  assume h: "l \<in> set (glue ps)" "k \<in> set ks" "k' \<in> set ks" "contains l k \<and> contains l k'"
  then obtain x v where xv: "(x, v) \<in> set ps" "l = x @ v" by auto
  with h have "contains x k" "contains x k'" using glue_contains[OF assms xv(1)] by auto
  then show "k = k'" using h(2,3) prefix_okD[OF assms(1) xv(1)] by (auto simp: prefix_ok_def list_all_iff)
qed

lemma glue_all_present:
  assumes "prefixes_ok ks (map fst ps)" "\<forall>v \<in> set (map snd ps). value_ok v"
  shows "all_present ks (join_lines (glue ps))"
  unfolding all_present_def split_glue[OF assms]
proof
  fix k assume "k \<in> set ks"
  then obtain x v where "(x, v) \<in> set ps" "contains x k"
    using assms(1) by (force simp: prefixes_ok_def list_all_iff list_ex_iff)
  then show "\<exists>l \<in> set (glue ps). contains l k" by (force intro: contains_prefix)
qed

lemma first_field_glue:
  "key_form k \<Longrightarrow> \<forall>(x, v) \<in> set ps. CHR '' '' \<notin> set v \<and> (case cut k x of None \<Rightarrow> True | Some (a, b) \<Rightarrow> b = []) \<Longrightarrow>
   first_field k (glue ps) = map_option snd (find (\<lambda>(x, v). contains x k) ps)"
proof (induction ps)
  case (Cons p ps)
  obtain x v where p: "p = (x, v)" by (cases p)
  show ?case
  proof (cases "cut k x")
    case None
    then have no: "\<not> contains x k" by (simp add: not_contains)
    then have "\<not> contains (x @ v) k"
      using contains_after_set[of k v x] Cons.prems by (auto simp: p)
    then have "get_line k (x @ v) = None" by (simp add: not_contains get_line_def)
    then show ?thesis using Cons no by (simp add: p)
  next
    case (Some ab)
    then obtain a where c: "cut k x = Some (a, [])" using Cons.prems(2) by (cases ab) (auto simp: p)
    then have x: "x = a @ k" using cut_SomeD by force
    have "cut k (a @ k @ v) = Some (a, v)"
      by (rule cut_set_line[OF Cons.prems(1) _ c]) (use Cons.prems(2) in \<open>auto simp: p\<close>)
    then show ?thesis using c by (simp add: p x get_line_def contains_def)
  qed
qed simp

lemma glue_read:
  assumes "prefixes_ok ks (map fst ps)" "\<forall>v \<in> set (map snd ps). value_ok v" "\<forall>k \<in> set ks. key_form k"
    and "k \<in> set ks" "find (\<lambda>(x, v). contains x k) ps = Some (x, v)"
  shows "read_setting k (join_lines (glue ps)) = Some v"
proof -
  have "(x, v) \<in> set ps" using assms(5) by (metis find_Some_iff nth_mem)
  then have "CHR '' '' \<notin> set v" using assms(2) by (force simp: value_ok_def plain_value_def)
  moreover have "first_field k (glue ps) = map_option snd (find (\<lambda>(x, v). contains x k) ps)"
    using assms(1-4)
    by (intro first_field_glue)
      (fastforce simp: prefixes_ok_def prefix_ok_def list_all_iff value_ok_def plain_value_def)+
  ultimately show ?thesis
    by (simp add: read_setting_def split_glue[OF assms(1,2)] assms(5) takeWhile_absent)
qed

subsection \<open>The two SIEM ConfigMaps\<close>

definition siem_lines :: "CommonAudit \<Rightarrow> configmap \<Rightarrow> (string \<times> string) list" where
  "siem_lines inst found = (if is_splunk found then splunk_lines inst else syslog_lines inst)"

definition splunk_prefixes :: "string list" where
  "splunk_prefixes = [''<store>'', ''    @type splunk_hec'', ''    hec_host '', ''    hec_port '',
     ''    hec_token '', ''    protocol '', ''    ca_file /fluentd/etc/tls/splunkCA.pem'',
     ''    source ${tag}'', ''</store>'']"

definition syslog_prefixes :: "string list" where
  "syslog_prefixes = [''<store>'', ''    @type remote_syslog'', ''    host '', ''    port '',
     ''    hostname '', ''    tls '', ''    protocol tcp'', ''    ca_file /fluentd/etc/tls/qradar.crt'',
     ''    packet_size 4096'', ''    program fluentd'', ''    <format>'', ''        @type single_value'',
     ''        message_key message'', ''    </format>'', ''</store>'']"

lemma prefixes_splunk: "map fst (splunk_lines inst) = splunk_prefixes"
  by (simp add: splunk_lines_def splunk_prefixes_def Let_def hecHost_def hecPort_def hecToken_def protocol_def)

lemma prefixes_syslog: "map fst (syslog_lines inst) = syslog_prefixes"
  by (simp add: syslog_lines_def syslog_prefixes_def Let_def host_def port_def hostname_def tls_def)

lemma splunk_prefixes_ok: "prefixes_ok splunk_keys splunk_prefixes"
  by code_simp

lemma syslog_prefixes_ok: "prefixes_ok syslog_keys syslog_prefixes"
  by code_simp

lemma siem_prefixes_ok: "prefixes_ok (siem_keys found) (map fst (siem_lines inst found))"
  by (simp add: siem_keys_def siem_lines_def prefixes_splunk prefixes_syslog splunk_prefixes_ok
      syslog_prefixes_ok)

lemma siem_keys_form: "\<forall>k \<in> set (siem_keys found). key_form k"
  using setting_keys.key_form[OF siem_keys_locale] by blast

text \<open>The resource sets all the values of a SIEM, and they are plain and printable.\<close>

definition complete :: "CommonAudit \<Rightarrow> configmap \<Rightarrow> bool" where
  "complete inst found \<longleftrightarrow>
     (if is_splunk found
      then sk_Host (ca_splunk inst) \<noteq> [] \<and> sk_Port (ca_splunk inst) \<noteq> 0 \<and> sk_Token (ca_splunk inst) \<noteq> []
      else sy_Host (ca_syslog inst) \<noteq> [] \<and> sy_Port (ca_syslog inst) \<noteq> 0 \<and> sy_Hostname (ca_syslog inst) \<noteq> [])"

definition values_ok :: "CommonAudit \<Rightarrow> bool" where
  "values_ok inst \<longleftrightarrow> value_ok (sk_Host (ca_splunk inst)) \<and> value_ok (sk_Token (ca_splunk inst))
     \<and> value_ok (sy_Host (ca_syslog inst)) \<and> value_ok (sy_Hostname (ca_syslog inst))"

lemma values_ok_plain: "values_ok inst \<Longrightarrow> plain_values inst found"
  by (simp add: values_ok_def plain_values_iff value_ok_def)

lemma printable_digits: "c \<in> insert (CHR ''-'') digits \<Longrightarrow> 32 \<le> (of_char c :: nat) \<and> (of_char c :: nat) < 127"
  unfolding digits_def by simp (elim disjE; simp)

lemma value_ok_Itoa: "value_ok (Itoa i)"
  using set_Itoa[of i] printable_digits by (auto simp: value_ok_def printable_def list_all_iff)

lemma value_ok_words:
  "value_ok (FormatBool b)" "value_ok (Protocols b)" "value_ok []"
  "value_ok ''SPLUNK_SERVER_HOSTNAME''" "value_ok ''SPLUNK_PORT''" "value_ok ''SPLUNK_HEC_TOKEN''"
  "value_ok ''QRADAR_SERVER_HOSTNAME''" "value_ok ''QRADAR_PORT_FOR_icp-audit''"
  "value_ok ''QRADAR_LOG_SOURCE_IDENTIFIER_FOR_icp-audit''"
  by (cases b; simp add: value_ok_def plain_value_def printable_def nl_def)+

lemma siem_lines_ok:
  assumes "values_ok inst"
  shows "\<forall>v \<in> set (map snd (siem_lines inst found)). value_ok v"
  using assms
  by (simp add: values_ok_def siem_lines_def splunk_lines_def syslog_lines_def Let_def value_ok_words
      value_ok_Itoa)

definition siem_name :: "string \<Rightarrow> bool" where
  "siem_name name \<longleftrightarrow> name = cm_name SplunkConfigName \<or> name = cm_name QRadarConfigName"

text \<open>The map that BuildFluentdConfigMap makes for a SIEM, under the law of the decoder.\<close>

definition fresh_siem :: "CommonAudit \<Rightarrow> string \<Rightarrow> configmap" where
  "fresh_siem inst name =
     (let m = \<lparr>cm_Meta = zero_meta\<lparr>m_Name := name, m_Namespace := ca_Namespace inst,
                             m_Labels := LabelsForMetadata FluentdName\<rparr>, cm_Data = None\<rparr>
      in m\<lparr>cm_Data := Some (fmupd (siem_key m) (join_lines (glue (siem_lines inst m))) fmempty)\<rparr>)"

lemma fresh_siem_same [simp]:
  "is_splunk (fresh_siem inst name) \<longleftrightarrow> name = cm_name SplunkConfigName"
  "siem_text (fresh_siem inst name) = join_lines (glue (siem_lines inst (fresh_siem inst name)))"
  "m_Name (cm_Meta (fresh_siem inst name)) = name"
  by (simp_all add: fresh_siem_def Let_def is_splunk_def siem_text_def siem_key_def siem_lines_def)

lemma BuildFluentdConfigMap_siem:
  assumes "yaml_literal yaml" "siem_name name" "values_ok inst"
  shows "BuildFluentdConfigMap yaml inst name = Inr (fresh_siem inst name)"
proof -
  let ?m = "fresh_siem inst name"
  have ok: "block_lines (glue (siem_lines inst ?m))"
      "chomp (glue (siem_lines inst ?m)) = glue (siem_lines inst ?m)"
    using glue_block_lines[OF siem_prefixes_ok[of ?m inst] siem_lines_ok[OF assms(3)]] by simp_all
  have "yaml key (block_doc key 4 (glue (siem_lines inst ?m))) = Inr (join_lines (glue (siem_lines inst ?m)))"
    if "key \<in> set config_keys" for key
    using assms(1) that ok by (simp add: yaml_literal_def)
  then have yaml: "yaml SplunkConfigKey (block_doc SplunkConfigKey 4 (glue (siem_lines inst ?m))) =
        Inr (join_lines (glue (siem_lines inst ?m)))"
      "yaml QRadarConfigKey (block_doc QRadarConfigKey 4 (glue (siem_lines inst ?m))) =
        Inr (join_lines (glue (siem_lines inst ?m)))"
    by (simp_all add: config_keys_def)
  show ?thesis
  proof (cases "name = cm_name SplunkConfigName")
    case True
    then have "siem_lines inst ?m = splunk_lines inst" by (simp add: siem_lines_def)
    with yaml(1) True show ?thesis
      by (simp add: BuildFluentdConfigMap_def splunk_doc fresh_siem_def Let_def siem_lines_def
          is_splunk_def siem_key_def)
  next
    case False
    then have "siem_lines inst ?m = syslog_lines inst" "name = cm_name QRadarConfigName"
      using assms(2) by (auto simp: siem_lines_def siem_name_def)
    with yaml(2) False show ?thesis
      by (simp add: BuildFluentdConfigMap_def syslog_doc fresh_siem_def Let_def siem_lines_def
          is_splunk_def siem_key_def)
  qed
qed

lemma fresh_siem_text:
  assumes "values_ok inst"
  shows "separated (siem_keys (fresh_siem inst name)) (siem_text (fresh_siem inst name))"
    "all_present (siem_keys (fresh_siem inst name)) (siem_text (fresh_siem inst name))"
  using glue_separated[OF siem_prefixes_ok siem_lines_ok[OF assms] siem_keys_form, of "fresh_siem inst name"]
    glue_all_present[OF siem_prefixes_ok siem_lines_ok[OF assms], of "fresh_siem inst name"]
  by simp_all

lemma contains_find_hit: "contains (x @ k) k"
  by (metis append.right_neutral append_assoc contains_iff)

lemma fresh_splunk_found:
  "\<forall>(k, v) \<in> set (zip splunk_keys (splunk_values inst)).
     complete inst (fresh_siem inst (cm_name SplunkConfigName)) \<longrightarrow>
     (\<exists>x. find (\<lambda>(x, v). contains x k) (splunk_lines inst) = Some (x, v))"
proof -
  have no: "\<not> contains ''<store>'' hecHost" "\<not> contains ''<store>'' hecPort"
    "\<not> contains ''<store>'' hecToken" "\<not> contains ''<store>'' protocol"
    "\<not> contains ''    @type splunk_hec'' hecHost" "\<not> contains ''    @type splunk_hec'' hecPort"
    "\<not> contains ''    @type splunk_hec'' hecToken" "\<not> contains ''    @type splunk_hec'' protocol"
    "\<not> contains (''    '' @ hecHost) hecPort" "\<not> contains (''    '' @ hecHost) hecToken"
    "\<not> contains (''    '' @ hecHost) protocol" "\<not> contains (''    '' @ hecPort) hecToken"
    "\<not> contains (''    '' @ hecPort) protocol" "\<not> contains (''    '' @ hecToken) protocol"
    by code_simp+
  show ?thesis
    using no contains_find_hit
    by (simp add: splunk_values_def splunk_lines_def Let_def complete_def del: append_Cons append_Nil)
qed

lemma fresh_syslog_found:
  "\<forall>(k, v) \<in> set (zip syslog_keys (syslog_values inst)).
     complete inst (fresh_siem inst (cm_name QRadarConfigName)) \<longrightarrow>
     (\<exists>x. find (\<lambda>(x, v). contains x k) (syslog_lines inst) = Some (x, v))"
proof -
  have no: "\<not> contains ''<store>'' host" "\<not> contains ''<store>'' port"
    "\<not> contains ''<store>'' hostname" "\<not> contains ''<store>'' tls"
    "\<not> contains ''    @type remote_syslog'' host" "\<not> contains ''    @type remote_syslog'' port"
    "\<not> contains ''    @type remote_syslog'' hostname" "\<not> contains ''    @type remote_syslog'' tls"
    "\<not> contains (''    '' @ host) port" "\<not> contains (''    '' @ host) hostname"
    "\<not> contains (''    '' @ host) tls" "\<not> contains (''    '' @ port) hostname"
    "\<not> contains (''    '' @ port) tls" "\<not> contains (''    '' @ hostname) tls"
    by code_simp+
  show ?thesis
    using no contains_find_hit
    by (simp add: syslog_values_def syslog_lines_def Let_def complete_def del: append_Cons append_Nil)
qed

lemma fresh_settings_read:
  assumes "siem_name name" "values_ok inst" "complete inst (fresh_siem inst name)"
  shows "settings_read inst (fresh_siem inst name)"
proof -
  let ?m = "fresh_siem inst name"
  have found: "\<exists>x. find (\<lambda>(x, v). contains x k) (siem_lines inst ?m) = Some (x, v)"
    if "(k, v) \<in> set (zip (siem_keys ?m) (siem_values inst ?m))" for k v
  proof (cases "name = cm_name SplunkConfigName")
    case True
    then show ?thesis
      using bspec[OF fresh_splunk_found[of inst], of "(k, v)"] that assms(3)
      by (simp add: siem_keys_def siem_values_def siem_lines_def)
  next
    case False
    then have "name = cm_name QRadarConfigName" using assms(1) by (simp add: siem_name_def)
    then show ?thesis
      using bspec[OF fresh_syslog_found[of inst], of "(k, v)"] that assms(3)
      by (simp add: siem_keys_def siem_values_def siem_lines_def)
  qed
  have "read_setting k (siem_text ?m) = Some v"
    if kv: "(k, v) \<in> set (zip (siem_keys ?m) (siem_values inst ?m))" for k v
    using found[OF kv] set_zip_leftD[OF kv]
      glue_read[OF siem_prefixes_ok siem_lines_ok[OF assms(2)] siem_keys_form, of k ?m]
    by auto
  then show ?thesis by (auto simp: settings_read_def)
qed

subsection \<open>The other texts\<close>

definition main_lines :: "CommonAudit \<Rightarrow> string list" where
  "main_lines inst =
     [''# Input plugins (Supports Systemd and HTTP)'', ''@include /fluentd/etc/source.conf'',
      ''# Output plugins (Supports Splunk and Syslog)''] @
     (if sk_EnableSIEM (ca_splunk inst) \<or> sy_EnableSIEM (ca_syslog inst)
      then [''<match icp-audit icp-audit.** syslog syslog.**>'', ''    @type copy''] @
           (if sk_EnableSIEM (ca_splunk inst) then [''    '' @ SplunkPlugin] else []) @
           (if sy_EnableSIEM (ca_syslog inst) then [''    '' @ QradarPlugin] else []) @ [''</match>'']
      else [])"

lemma main_doc: "buildFluentdConfig inst = block_doc FluentdConfigKey 4 (main_lines inst)"
  by (cases "sk_EnableSIEM (ca_splunk inst)"; cases "sy_EnableSIEM (ca_syslog inst)")
    (simp_all add: buildFluentdConfig_def main_lines_def block_doc_def replicate_4 yamlLine_2
      yamlLine_def[of "Suc 0"] Repeat_def fluentdMainConfigV1Data_def fluentdOutputConfigV1Data_def
      FluentdConfigKey_def SplunkPlugin_def QradarPlugin_def)

lemma main_block_lines: "block_lines (main_lines inst)"
  by (simp add: main_lines_def block_lines_def printable_def SplunkPlugin_def QradarPlugin_def)

definition source_doc :: string where
  "source_doc = sourceConfigDataKey @ sourceConfigDataHTTP1 @ Itoa defaultHTTPPort
     @ sourceConfigDataHTTP2 @ sourceConfigSyslog @ filterHTTP @ filterSyslog"

definition source_lines :: "string list" where
  "source_lines =
    [''<source>'', ''    @type http'',
     ''    # Tag is not supported in yaml, must be set by request path (/icp-audit.http is required for validation and export)'',
     ''    port 9880'', ''    bind 0.0.0.0'', ''    body_size_limit 32m'', ''    keepalive_timeout 10s'',
     ''    <transport tls>'', ''      ca_path /fluentd/etc/https/ca.crt'',
     ''      cert_path /fluentd/etc/https/tls.crt'', ''      private_key_path /fluentd/etc/https/tls.key'',
     ''    </transport>'', ''    <parse>'', ''      @type json'', ''    </parse>'', ''</source>'', [],
     ''<source>'', ''    @type syslog'', ''    port 5140'', ''    bind 0.0.0.0'', ''    tag syslog'',
     ''    <transport tls>'', ''        ca_path /fluentd/etc/https/ca.crt'',
     ''        cert_path /fluentd/etc/https/tls.crt'', ''        private_key_path /fluentd/etc/https/tls.key'',
     ''    </transport>'', ''    <parse>'', ''        @type regexp'',
     ''        expression /^[^{]*(?<message>{.*})'' @ [CHR 0x5C] @ ''s*$/'',
     ''        types message:string'', ''    </parse>'', ''</source>'', [],
     ''<filter icp-audit.*>'', ''    @type record_transformer'', ''    enable_ruby true'', ''    <record>'',
     ''      tag ${tag}'', ''      message ${record.to_json}'', ''    </record>'', ''</filter>'', [],
     ''<filter syslog syslog.**>'', ''    @type parser'', ''    format json'', ''    key_name message'',
     ''    reserve_data true'', ''</filter>'', []]"

lemma default_port: "Itoa defaultHTTPPort = ''9880''"
  by (simp add: defaultHTTPPort_def Itoa_def utoa.simps digit_char_def)

lemma source_doc_block: "source_doc = block_doc SourceConfigKey 4 source_lines"
  by (simp add: source_doc_def source_lines_def block_doc_def replicate_4 default_port sourceConfigDataKey_def
      sourceConfigDataHTTP1_def sourceConfigDataHTTP2_def sourceConfigSyslog_def filterHTTP_def
      filterSyslog_def SourceConfigKey_def)

lemma source_block_lines: "block_lines source_lines"
  by (simp add: source_lines_def block_lines_def printable_def)

lemma yaml_block_Inr:
  "yaml_literal yaml \<Longrightarrow> key \<in> set config_keys \<Longrightarrow> block_lines ls \<Longrightarrow>
   yaml key (block_doc key 4 ls) = Inr (join_lines (chomp ls))"
  by (simp add: yaml_literal_def)

text \<open>Every ConfigMap of the operator can be built, and has data.\<close>

lemma BuildFluentdConfigMap_total:
  assumes yaml: "yaml_literal yaml" and "values_ok inst" "name \<in> set FluentdConfigMaps"
  shows "\<exists>cm. BuildFluentdConfigMap yaml inst name = Inr cm \<and>
    meta_key (cm_Meta cm) = NamespacedName (ca_Namespace inst) name \<and> cm_Data cm \<noteq> None"
proof -
  have main: "yaml FluentdConfigKey (buildFluentdConfig inst) = Inr (join_lines (chomp (main_lines inst)))"
    unfolding main_doc by (rule yaml_block_Inr[OF yaml _ main_block_lines]) (simp add: config_keys_def)
  have source: "yaml SourceConfigKey source_doc = Inr (join_lines (chomp source_lines))"
    unfolding source_doc_block by (rule yaml_block_Inr[OF yaml _ source_block_lines]) (simp add: config_keys_def)
  consider "name = cm_name ConfigName" | "name = cm_name SourceConfigName" | "siem_name name"
    | "name = cm_name HTTPIngestName"
    using assms(3) by (auto simp: FluentdConfigMaps_def siem_name_def)
  then show ?thesis
  proof cases
    case 1
    then show ?thesis by (simp add: BuildFluentdConfigMap_def Let_def main meta_key_def)
  next
    case 2
    then show ?thesis
      using source by (simp add: BuildFluentdConfigMap_def Let_def source_doc_def meta_key_def)
  next
    case 3
    then show ?thesis
      using BuildFluentdConfigMap_siem[OF yaml 3 assms(2)] by (simp add: fresh_siem_def Let_def meta_key_def)
  next
    case 4
    then show ?thesis by (simp add: BuildFluentdConfigMap_def Let_def meta_key_def)
  qed
qed

subsection \<open>Properties\<close>

text \<open>C18: A new SIEM ConfigMap. With plain and printable values and a decoder that keeps the law of
  block scalars, \<open>BuildFluentdConfigMap\<close> succeeds for the Splunk and the syslog ConfigMap; each of the
  four settings is in the text and no line holds two (so that it is never taken for damaged); and when
  the resource sets host, port and token (or host name), the new ConfigMap is accepted as it is.\<close>

theorem new_siem_config:
  assumes "yaml_literal yaml" "siem_name name" "values_ok inst"
  shows "\<exists>cm. BuildFluentdConfigMap yaml inst name = Inr cm \<and> m_Name (cm_Meta cm) = name
    \<and> separated (siem_keys cm) (siem_text cm) \<and> all_present (siem_keys cm) (siem_text cm)
    \<and> \<not> snd (EqualSIEMConfig inst cm)
    \<and> (complete inst cm \<longrightarrow> EqualSIEMConfig inst cm = (True, False))"
proof (intro exI conjI impI)
  let ?m = "fresh_siem inst name"
  show "BuildFluentdConfigMap yaml inst name = Inr ?m" using assms by (rule BuildFluentdConfigMap_siem)
  show "separated (siem_keys ?m) (siem_text ?m)" "all_present (siem_keys ?m) (siem_text ?m)"
    using fresh_siem_text[OF assms(3)] by blast+
  then show "\<not> snd (EqualSIEMConfig inst ?m)" by (intro present_not_missing)
  show "EqualSIEMConfig inst ?m = (True, False)" if "complete inst ?m"
    using fresh_settings_read[OF assms(2,3) that] by (simp add: EqualSIEMConfig_True)
qed simp

lemma sample_splunk_ok: "values_ok sample_splunk"
  by (simp add: values_ok_def value_ok_def sample_splunk_def new_common_def Let_def zero_common_spec_def
      zero_syslog_def plain_value_def printable_def nl_def)

theorem new_siem_config_witness:
  "\<exists>cm. BuildFluentdConfigMap yaml_block sample_splunk (cm_name SplunkConfigName) = Inr cm
     \<and> EqualSIEMConfig sample_splunk cm = (True, False)"
proof -
  obtain cm where cm: "BuildFluentdConfigMap yaml_block sample_splunk (cm_name SplunkConfigName) = Inr cm"
      "m_Name (cm_Meta cm) = cm_name SplunkConfigName"
      "complete sample_splunk cm \<longrightarrow> EqualSIEMConfig sample_splunk cm = (True, False)"
    using new_siem_config[OF yaml_block_literal _ sample_splunk_ok, of "cm_name SplunkConfigName"]
    by (auto simp: siem_name_def)
  from cm(2) have "complete sample_splunk cm"
    by (simp add: complete_def is_splunk_def sample_splunk_def new_common_def Let_def)
  with cm show ?thesis by blast
qed

end
