(* ===== verification/WorkloadProps.thy ===== *)
theory WorkloadProps
  imports AuditLoggingReconciler
begin

text \<open>
  Correctness of deployments.go, containers.go and job.go: the builders do not depend on what was built
  before, although they share package variables; they never panic; what the comparisons accept; and an
  update makes the next comparison succeed.
\<close>

subsection \<open>Package state\<close>

text \<open>The states of the package variables that calls of the builders lead to.\<close>

inductive built :: "globals \<Rightarrow> bool" where
  init: "built init_globals"
| policy: "built g \<Longrightarrow> built (snd (BuildDeploymentForPolicyController env inst ns g))"
| deployment: "built g \<Longrightarrow> BuildDeploymentForFluentd env q ca g = Some (d, g') \<Longrightarrow> built g'"
| daemon: "built g \<Longrightarrow> BuildDaemonForFluentd env q inst ns g = Some (ds, g') \<Longrightarrow> built g'"

text \<open>What no builder writes.\<close>

definition same_fixed :: "container \<Rightarrow> container \<Rightarrow> bool" where
  "same_fixed c d \<longleftrightarrow> c_Name c = c_Name d \<and> c_Command c = c_Command d \<and> c_Env c = c_Env d
     \<and> c_Ports c = c_Ports d \<and> c_LivenessProbe c = c_LivenessProbe d
     \<and> c_ReadinessProbe c = c_ReadinessProbe d \<and> c_other c = c_other d"

definition fluentd_fixed :: "globals \<Rightarrow> bool" where
  "fluentd_fixed g \<longleftrightarrow> same_fixed (fluentdMainContainer g) init_fluentdMainContainer
     \<and> c_Args (fluentdMainContainer g) = c_Args init_fluentdMainContainer"

definition policy_fixed :: "globals \<Rightarrow> bool" where
  "policy_fixed g \<longleftrightarrow> same_fixed (policyControllerMainContainer g) init_policyControllerMainContainer
     \<and> c_VolumeMounts (policyControllerMainContainer g) = c_VolumeMounts init_policyControllerMainContainer
     \<and> c_SecurityContext (policyControllerMainContainer g)
         = c_SecurityContext init_policyControllerMainContainer
     \<and> c_Resources (policyControllerMainContainer g) = c_Resources init_policyControllerMainContainer"

lemma fluentd_container_cong:
  "same_fixed c d \<Longrightarrow> c_Args c = c_Args d \<Longrightarrow>
   c\<lparr>c_VolumeMounts := v, c_Image := i, c_ImagePullPolicy := p, c_SecurityContext := s, c_Resources := r\<rparr> =
   d\<lparr>c_VolumeMounts := v, c_Image := i, c_ImagePullPolicy := p, c_SecurityContext := s, c_Resources := r\<rparr>"
  by (cases c; cases d; simp add: same_fixed_def)

lemma policy_container_cong:
  "same_fixed c d \<Longrightarrow> c_VolumeMounts c = c_VolumeMounts d \<Longrightarrow> c_SecurityContext c = c_SecurityContext d \<Longrightarrow>
   c_Resources c = c_Resources d \<Longrightarrow>
   c\<lparr>c_Image := i, c_ImagePullPolicy := p, c_Args := a\<rparr> = d\<lparr>c_Image := i, c_ImagePullPolicy := p, c_Args := a\<rparr>"
  by (cases c; cases d; simp add: same_fixed_def)

lemma fluentd_builder_cong:
  assumes "fluentd_fixed g"
  shows "map_option fst (BuildDeploymentForFluentd env q ca g) =
      map_option fst (BuildDeploymentForFluentd env q ca init_globals)"
    and "map_option fst (BuildDaemonForFluentd env q inst ns g) =
      map_option fst (BuildDaemonForFluentd env q inst ns init_globals)"
  using assms fluentd_container_cong[of "fluentdMainContainer g" init_fluentdMainContainer]
  by (simp_all add: BuildDeploymentForFluentd_def BuildDaemonForFluentd_def fluentd_fixed_def
      init_globals_def Let_def split: option.splits)

lemma policy_builder_cong:
  "policy_fixed g \<Longrightarrow> fst (BuildDeploymentForPolicyController env inst ns g) =
     fst (BuildDeploymentForPolicyController env inst ns init_globals)"
  using policy_container_cong[of "policyControllerMainContainer g" init_policyControllerMainContainer]
  by (simp add: BuildDeploymentForPolicyController_def policy_fixed_def init_globals_def Let_def)

lemma built_fixed: "built g \<Longrightarrow> fluentd_fixed g \<and> policy_fixed g"
proof (induction rule: built.induct)
  case init
  then show ?case by (simp add: fluentd_fixed_def policy_fixed_def same_fixed_def init_globals_def)
next
  case policy
  then show ?case
    by (simp add: BuildDeploymentForPolicyController_def Let_def fluentd_fixed_def policy_fixed_def
        same_fixed_def)
next
  case deployment
  then show ?case
    by (auto simp: BuildDeploymentForFluentd_def Let_def fluentd_fixed_def policy_fixed_def
        same_fixed_def split: option.splits)
next
  case daemon
  then show ?case
    by (auto simp: BuildDaemonForFluentd_def Let_def fluentd_fixed_def policy_fixed_def
        same_fixed_def split: option.splits)
qed

subsection \<open>Resources\<close>

text \<open>What a limit or a request becomes: the value asked for unless it is absent or zero.\<close>

definition chosen :: "quantity_pkg \<Rightarrow> resource_list \<Rightarrow> quantity \<Rightarrow> quantity \<Rightarrow> quantity" where
  "chosen q requested asked dflt = (if requested = None \<or> q_IsZero q asked then dflt else asked)"

lemma override_resources_Some:
  "override_resources q requested (Some t) =
     Some (Some ((if requested = None \<or> q_IsZero q (q_Memory q requested) then id
                  else fmupd ResourceMemory (q_Memory q requested))
            ((if requested = None \<or> q_IsZero q (q_Cpu q requested) then id
              else fmupd ResourceCPU (q_Cpu q requested)) t)))"
  by (auto simp: override_resources_def Let_def)

lemma buildResources_total:
  "rr_Limits d \<noteq> None \<Longrightarrow> rr_Requests d \<noteq> None \<Longrightarrow> \<exists>r. buildResources q want d = Some r"
  by (auto simp: buildResources_def override_resources_Some)

lemma default_resources_total: "\<exists>r. buildResources q want defaultFluentdResources = Some r"
  by (rule buildResources_total) (simp_all add: defaultFluentdResources_def)

definition resource :: "resource_list \<Rightarrow> resource_name \<Rightarrow> quantity option" where
  "resource rl n = (case rl of None \<Rightarrow> None | Some f \<Rightarrow> fmlookup f n)"

lemma override_resource:
  "override_resources q want (Some t) = Some t' \<Longrightarrow>
   resource t' ResourceCPU =
     (if want = None \<or> q_IsZero q (q_Cpu q want) then fmlookup t ResourceCPU else Some (q_Cpu q want)) \<and>
   resource t' ResourceMemory =
     (if want = None \<or> q_IsZero q (q_Memory q want) then fmlookup t ResourceMemory else Some (q_Memory q want)) \<and>
   resource t' (OtherResource n) = fmlookup t (OtherResource n)"
  by (auto simp: override_resources_Some resource_def)

lemma fluentd_builders_total:
  "\<exists>d g'. BuildDeploymentForFluentd env q ca g = Some (d, g')"
  "\<exists>ds g'. BuildDaemonForFluentd env q inst ns g = Some (ds, g')"
  using default_resources_total[of q "caf_Resources (ca_Fluentd (ca_Spec ca))"]
    default_resources_total[of q "alf_Resources (al_Fluentd (al_Spec inst))"]
  by (auto simp: BuildDeploymentForFluentd_def BuildDaemonForFluentd_def Let_def)

subsection \<open>Comparison and update\<close>

text \<open>What the comparison of a container's resources relies on: every quantity equals itself.\<close>

definition quantity_refl :: "quantity_pkg \<Rightarrow> bool" where
  "quantity_refl q \<longleftrightarrow> (\<forall>x. q_Equal q x x)"

lemma host_aliases_loop_eq: "length f = length e \<Longrightarrow> host_aliases_loop f e \<longleftrightarrow> f = e"
proof (induction f e rule: host_aliases_loop.induct)
  case (1 f found e expected)
  then show ?case by (cases f; cases e; auto)
qed auto

lemma equalHostAliases_iff: "equalHostAliases found expected \<longleftrightarrow> found = expected"
  by (cases found; cases expected; auto simp: equalHostAliases_def host_aliases_loop_eq)

definition pods_agree :: "quantity_pkg \<Rightarrow> pod_template \<Rightarrow> pod_template \<Rightarrow> bool \<Rightarrow> bool" where
  "pods_agree q e f allowModify \<longleftrightarrow>
     m_Annotations (pt_Meta f) = m_Annotations (pt_Meta e) \<and>
     ps_ServiceAccountName (pt_Spec f) = ps_ServiceAccountName (pt_Spec e) \<and>
     (allowModify \<or> ps_HostAliases (pt_Spec f) = ps_HostAliases (pt_Spec e)) \<and>
     length (elems (ps_Containers (pt_Spec f))) = length (elems (ps_Containers (pt_Spec e))) \<and>
     EqualContainers q (hd (elems (ps_Containers (pt_Spec e)))) (hd (elems (ps_Containers (pt_Spec f))))
       allowModify"

lemma EqualPods_eq:
  "elems (ps_Containers (pt_Spec e)) \<noteq> [] \<Longrightarrow> EqualPods q e f m = Some (pods_agree q e f m)"
  by (auto simp: EqualPods_def pods_agree_def EqualAnnotations_def equalHostAliases_iff split: list.splits)

lemma EqualContainers_refl: "quantity_refl q \<Longrightarrow> EqualContainers q c c m"
  by (simp add: EqualContainers_iff equalResources_def quantity_refl_def)

definition has_container :: "pod_template \<Rightarrow> bool" where
  "has_container t \<longleftrightarrow> elems (ps_Containers (pt_Spec t)) \<noteq> []"

lemma EqualDeployments_eq:
  "has_container (ds_Template (d_Spec e)) \<Longrightarrow>
   EqualDeployments q e f m =
     Some (ds_Replicas (d_Spec e) = ds_Replicas (d_Spec f) \<and>
       pods_agree q (ds_Template (d_Spec e)) (ds_Template (d_Spec f)) m)"
  by (simp add: EqualDeployments_def EqualPods_eq has_container_def)

lemma deployment_update_equal:
  "has_container (ds_Template (d_Spec e)) \<Longrightarrow> quantity_refl q \<Longrightarrow>
   EqualDeployments q e (with_deployment_spec e f) m = Some True"
  by (simp add: EqualDeployments_eq with_deployment_spec_def Let_def pods_agree_def EqualContainers_refl)

lemma daemonset_update_equal:
  "has_container (dss_Template (dset_Spec e)) \<Longrightarrow> quantity_refl q \<Longrightarrow>
   EqualDaemonSets q e (with_daemonset_spec e f) = Some True"
  by (simp add: EqualDaemonSets_def EqualPods_eq has_container_def with_daemonset_spec_def Let_def
      pods_agree_def EqualContainers_refl)

lemma deployment_refl:
  "has_container (ds_Template (d_Spec e)) \<Longrightarrow> quantity_refl q \<Longrightarrow> EqualDeployments q e e m = Some True"
  by (simp add: EqualDeployments_eq pods_agree_def EqualContainers_refl)

lemma fluentd_has_container:
  "BuildDeploymentForFluentd env q ca g = Some (d, g') \<Longrightarrow> has_container (ds_Template (d_Spec d))"
  "BuildDaemonForFluentd env q inst ns g = Some (ds, g') \<Longrightarrow> has_container (dss_Template (dset_Spec ds))"
  "has_container (ds_Template (d_Spec (fst (BuildDeploymentForPolicyController env inst ns g))))"
  by (auto simp: BuildDeploymentForFluentd_def BuildDaemonForFluentd_def has_container_def
      BuildDeploymentForPolicyController_def Let_def split: option.splits)

subsection \<open>Host aliases\<close>

lemma valid_host_aliases_eq:
  "valid_host_aliases hs =
     map (\<lambda>h. \<lparr>ha_IP = HostIP h, ha_Hostnames = Hostnames h\<rparr>) (filter (\<lambda>h. ParseIP (HostIP h)) hs)"
  by (induction hs) auto

lemma fluentd_deployment_aliases:
  "BuildDeploymentForFluentd env q ca g = Some (d, g') \<Longrightarrow>
   ps_HostAliases (pt_Spec (ds_Template (d_Spec d))) =
     build_host_aliases (HostAliases (ca_Outputs (ca_Spec ca)))"
  by (auto simp: BuildDeploymentForFluentd_def Let_def split: option.splits)

lemma fluentd_deployment_labels:
  "BuildDeploymentForFluentd env q ca g = Some (d, g') \<Longrightarrow>
   ds_MatchLabels (d_Spec d) = LabelsForSelector FluentdName (ca_Name ca) \<and>
   m_Labels (pt_Meta (ds_Template (d_Spec d))) = LabelsForPodMetadata FluentdName (ca_Name ca)"
  by (auto simp: BuildDeploymentForFluentd_def Let_def split: option.splits)

lemma fluentd_daemon_labels:
  "BuildDaemonForFluentd env q inst ns g = Some (d, g') \<Longrightarrow>
   dss_MatchLabels (dset_Spec d) = LabelsForSelector FluentdName (al_Name inst) \<and>
   m_Labels (pt_Meta (dss_Template (dset_Spec d))) = LabelsForPodMetadata FluentdName (al_Name inst)"
  by (auto simp: BuildDaemonForFluentd_def Let_def split: option.splits)

subsection \<open>Properties\<close>

text \<open>C16: The builders do not depend on what was built before. They write to the package variables
  \<open>fluentdMainContainer\<close>, \<open>policyControllerMainContainer\<close> and \<open>commonVolumes\<close>, which both controllers
  share; in every state of these variables that any sequence of builder calls leads to, each builder
  returns an object (it never panics), and the same one as in the initial state.\<close>

theorem builders_independent:
  assumes "built g"
  shows "\<exists>d g1 g2 ds g3 g4.
    BuildDeploymentForFluentd env q ca g = Some (d, g1) \<and>
    BuildDeploymentForFluentd env q ca init_globals = Some (d, g2) \<and>
    BuildDaemonForFluentd env q inst ns g = Some (ds, g3) \<and>
    BuildDaemonForFluentd env q inst ns init_globals = Some (ds, g4) \<and>
    fst (BuildDeploymentForPolicyController env inst ns g) =
      fst (BuildDeploymentForPolicyController env inst ns init_globals)"
proof -
  have fixed: "fluentd_fixed g" "policy_fixed g" using built_fixed[OF assms] by blast+
  obtain d g1 d' g2 where d: "BuildDeploymentForFluentd env q ca g = Some (d, g1)"
      "BuildDeploymentForFluentd env q ca init_globals = Some (d', g2)"
    using fluentd_builders_total(1) by metis
  moreover obtain ds g3 ds' g4 where ds: "BuildDaemonForFluentd env q inst ns g = Some (ds, g3)"
      "BuildDaemonForFluentd env q inst ns init_globals = Some (ds', g4)"
    using fluentd_builders_total(2) by metis
  moreover have "d = d'" "ds = ds'"
    using fluentd_builder_cong(1)[OF fixed(1), of env q ca]
      fluentd_builder_cong(2)[OF fixed(1), of env q inst ns] d ds by simp_all
  ultimately show ?thesis using policy_builder_cong[OF fixed(2)] by blast
qed

definition sample_quantity :: quantity_pkg where
  "sample_quantity =
     \<lparr>q_IsZero = \<lambda>x. (case x of NewMilliQuantity n _ \<Rightarrow> n = 0 | NewQuantity n _ \<Rightarrow> n = 0
        | ParsedQuantity s \<Rightarrow> s = ''0'' | ZeroQuantity _ \<Rightarrow> True),
      q_Equal = (\<lambda>x y. x = y),
      q_Cpu = (\<lambda>rl. case rl of None \<Rightarrow> ZeroQuantity DecimalSI
        | Some f \<Rightarrow> (case fmlookup f ResourceCPU of None \<Rightarrow> ZeroQuantity DecimalSI | Some x \<Rightarrow> x)),
      q_Memory = (\<lambda>rl. case rl of None \<Rightarrow> ZeroQuantity BinarySI
        | Some f \<Rightarrow> (case fmlookup f ResourceMemory of None \<Rightarrow> ZeroQuantity BinarySI | Some x \<Rightarrow> x))\<rparr>"

lemma sample_quantity_refl: "quantity_refl sample_quantity"
  by (simp add: quantity_refl_def sample_quantity_def)

theorem builders_independent_witness:
  "\<exists>d g1 g2. BuildDeploymentForFluentd Map.empty sample_quantity (new_common ''ca'' ''ns'')
      (snd (the (BuildDaemonForFluentd Map.empty sample_quantity (new_auditlogging ''al'') ''ns''
        init_globals))) = Some (d, g1) \<and>
    BuildDeploymentForFluentd Map.empty sample_quantity (new_common ''ca'' ''ns'') init_globals = Some (d, g2)"
proof -
  obtain ds g' where "BuildDaemonForFluentd Map.empty sample_quantity (new_auditlogging ''al'') ''ns''
      init_globals = Some (ds, g')"
    using fluentd_builders_total(2) by blast
  moreover from built.daemon[OF built.init this] have "built g'" .
  from builders_independent[OF this, of Map.empty sample_quantity "new_common ''ca'' ''ns''"
      "new_auditlogging ''al''" "''ns''"]
  have "\<exists>d g1 g2. BuildDeploymentForFluentd Map.empty sample_quantity (new_common ''ca'' ''ns'') g' = Some (d, g1) \<and>
    BuildDeploymentForFluentd Map.empty sample_quantity (new_common ''ca'' ''ns'') init_globals = Some (d, g2)"
    by blast
  ultimately show ?thesis by simp
qed

text \<open>C25: The resources of the fluentd container. \<open>BuildDeploymentForFluentd\<close> gives its one container the
  CPU and memory, as limit and as request, that the resource asks for, and the defaults 300m/400Mi and
  25m/100Mi for each that is absent or zero; no other resource gets in.\<close>

theorem fluentd_resources:
  "\<exists>d g' c. BuildDeploymentForFluentd env q ca g = Some (d, g') \<and>
     elems (ps_Containers (pt_Spec (ds_Template (d_Spec d)))) = [c] \<and>
     (let want = caf_Resources (ca_Fluentd (ca_Spec ca));
          lim = rr_Limits want; req = rr_Requests want
      in resource (rr_Limits (c_Resources c)) ResourceCPU = Some (chosen q lim (q_Cpu q lim) cpu300) \<and>
         resource (rr_Limits (c_Resources c)) ResourceMemory = Some (chosen q lim (q_Memory q lim) memory400) \<and>
         resource (rr_Requests (c_Resources c)) ResourceCPU = Some (chosen q req (q_Cpu q req) cpu25) \<and>
         resource (rr_Requests (c_Resources c)) ResourceMemory = Some (chosen q req (q_Memory q req) memory100) \<and>
         resource (rr_Limits (c_Resources c)) (OtherResource n) = None \<and>
         resource (rr_Requests (c_Resources c)) (OtherResource n) = None)"
proof -
  obtain d g' where d: "BuildDeploymentForFluentd env q ca g = Some (d, g')"
    using fluentd_builders_total(1) by blast
  then obtain r c where r: "buildResources q (caf_Resources (ca_Fluentd (ca_Spec ca))) defaultFluentdResources = Some r"
      and c: "elems (ps_Containers (pt_Spec (ds_Template (d_Spec d)))) = [c]" "c_Resources c = r"
    by (auto simp: BuildDeploymentForFluentd_def Let_def split: option.splits)
  from r have lim: "override_resources q (rr_Limits (caf_Resources (ca_Fluentd (ca_Spec ca))))
      (maplit [(ResourceCPU, cpu300), (ResourceMemory, memory400)]) = Some (rr_Limits r)"
    and req: "override_resources q (rr_Requests (caf_Resources (ca_Fluentd (ca_Spec ca))))
      (maplit [(ResourceCPU, cpu25), (ResourceMemory, memory100)]) = Some (rr_Requests r)"
    by (auto simp: buildResources_def defaultFluentdResources_def split: option.splits)
  show ?thesis
    using d c(1) override_resource[OF lim, of n] override_resource[OF req, of n] unfolding c(2)[symmetric]
    by (intro exI[of _ d] exI[of _ g'] exI[of _ c]) (simp add: chosen_def Let_def)
qed

text \<open>C20: An update of the fluentd deployment is accepted by the next comparison, whatever was found; it
  keeps the metadata and the pod labels that were found and takes everything else from the expected
  deployment.\<close>

theorem deployment_update_accepted:
  assumes "BuildDeploymentForFluentd env q ca g = Some (expected, g')" "quantity_refl q"
  shows "EqualDeployments q expected (with_deployment_spec expected found) False = Some True \<and>
    d_Meta (with_deployment_spec expected found) = d_Meta found \<and>
    m_Labels (pt_Meta (ds_Template (d_Spec (with_deployment_spec expected found)))) =
      m_Labels (pt_Meta (ds_Template (d_Spec found))) \<and>
    pt_Spec (ds_Template (d_Spec (with_deployment_spec expected found))) =
      pt_Spec (ds_Template (d_Spec expected))"
  using deployment_update_equal[OF fluentd_has_container(1)[OF assms(1)] assms(2)]
  by (simp add: with_deployment_spec_def Let_def)

theorem deployment_update_accepted_witness:
  "let expected = fst (the (BuildDeploymentForFluentd Map.empty sample_quantity (new_common ''ca'' ''ns'') init_globals));
       found = expected\<lparr>d_Spec := (d_Spec expected)\<lparr>ds_Replicas := None\<rparr>\<rparr>
   in EqualDeployments sample_quantity expected found False = Some False \<and>
      EqualDeployments sample_quantity expected (with_deployment_spec expected found) False = Some True"
proof -
  obtain d g' where d: "BuildDeploymentForFluentd Map.empty sample_quantity (new_common ''ca'' ''ns'') init_globals = Some (d, g')"
    using fluentd_builders_total(1) by blast
  then have "ds_Replicas (d_Spec d) \<noteq> None"
    by (auto simp: BuildDeploymentForFluentd_def Let_def split: option.splits)
  then have "EqualDeployments sample_quantity d
      (d\<lparr>d_Spec := (d_Spec d)\<lparr>ds_Replicas := None\<rparr>\<rparr>) False = Some False"
    by (simp add: EqualDeployments_def)
  moreover have "EqualDeployments sample_quantity d (with_deployment_spec d f) False = Some True" for f
    by (rule conjunct1[OF deployment_update_accepted[OF d sample_quantity_refl]])
  ultimately show ?thesis unfolding d option.sel fst_conv Let_def by blast
qed

text \<open>C21: An update of the fluentd daemon set is accepted by the next comparison, whatever was found, and
  keeps the host aliases and the pod labels that were found.\<close>

theorem daemonset_update_accepted:
  assumes "BuildDaemonForFluentd env q inst ns g = Some (expected, g')" "quantity_refl q"
  shows "EqualDaemonSets q expected (with_daemonset_spec expected found) = Some True \<and>
    ps_HostAliases (pt_Spec (dss_Template (dset_Spec (with_daemonset_spec expected found)))) =
      ps_HostAliases (pt_Spec (dss_Template (dset_Spec found))) \<and>
    m_Labels (pt_Meta (dss_Template (dset_Spec (with_daemonset_spec expected found)))) =
      m_Labels (pt_Meta (dss_Template (dset_Spec found))) \<and>
    ps_Containers (pt_Spec (dss_Template (dset_Spec (with_daemonset_spec expected found)))) =
      ps_Containers (pt_Spec (dss_Template (dset_Spec expected)))"
  using daemonset_update_equal[OF fluentd_has_container(2)[OF assms(1)] assms(2)]
  by (simp add: with_daemonset_spec_def Let_def)

theorem daemonset_update_accepted_witness:
  "let expected = fst (the (BuildDaemonForFluentd Map.empty sample_quantity (new_auditlogging ''al'') ''ns'' init_globals));
       found = expected\<lparr>dset_Spec := (dset_Spec expected)\<lparr>dss_Template :=
         \<lparr>pt_Meta = zero_meta, pt_Spec = zero_pod_spec\<lparr>ps_HostAliases := Some []\<rparr>\<rparr>\<rparr>\<rparr>
   in EqualDaemonSets sample_quantity expected (with_daemonset_spec expected found) = Some True \<and>
      ps_HostAliases (pt_Spec (dss_Template (dset_Spec (with_daemonset_spec expected found)))) = Some []"
proof -
  obtain d g' where d: "BuildDaemonForFluentd Map.empty sample_quantity (new_auditlogging ''al'') ''ns'' init_globals = Some (d, g')"
    using fluentd_builders_total(2) by blast
  show ?thesis
    using daemonset_update_accepted[OF d sample_quantity_refl] d by simp
qed

text \<open>C33: Host aliases of which none has a valid address keep the deployment from ever being accepted:
  the builder makes an empty list of them, which the comparison tells from the absent list that the
  API server returns, whatever else the deployment found looks like.\<close>

theorem invalid_aliases_rejected:
  assumes "BuildDeploymentForFluentd env q ca g = Some (expected, g')"
    and "elems (HostAliases (ca_Outputs (ca_Spec ca))) \<noteq> []"
    and "list_all (\<lambda>h. \<not> ParseIP (HostIP h)) (elems (HostAliases (ca_Outputs (ca_Spec ca))))"
    and "ps_HostAliases (pt_Spec (ds_Template (d_Spec found))) = None"
  shows "EqualDeployments q expected found False = Some False"
proof -
  have "ps_HostAliases (pt_Spec (ds_Template (d_Spec expected))) = Some []"
    using assms(2,3)
    by (simp add: fluentd_deployment_aliases[OF assms(1)] build_host_aliases_def valid_host_aliases_eq
        list_all_iff filter_empty_conv)
  then show ?thesis
    using assms(4) EqualDeployments_eq[OF fluentd_has_container(1)[OF assms(1)]]
    by (simp add: pods_agree_def)
qed

definition sample_aliases :: CommonAudit where
  "sample_aliases = (let c = new_common ''ca'' ''ns'' in c\<lparr>ca_Spec := (ca_Spec c)\<lparr>ca_Outputs :=
     (ca_Outputs (ca_Spec c))\<lparr>HostAliases := Some
       [\<lparr>HostIP = ''example'', Hostnames = Some [''h'']\<rparr>]\<rparr>\<rparr>\<rparr>)"

theorem invalid_aliases_rejected_witness:
  "let expected = fst (the (BuildDeploymentForFluentd Map.empty sample_quantity sample_aliases init_globals));
       stored = expected\<lparr>d_Spec := (d_Spec expected)\<lparr>ds_Template := (ds_Template (d_Spec expected))
         \<lparr>pt_Spec := (pt_Spec (ds_Template (d_Spec expected)))\<lparr>ps_HostAliases := None\<rparr>\<rparr>\<rparr>\<rparr>
   in EqualDeployments sample_quantity expected stored False = Some False"
proof -
  obtain d g' where d: "BuildDeploymentForFluentd Map.empty sample_quantity sample_aliases init_globals = Some (d, g')"
    using fluentd_builders_total(1) by blast
  have "\<not> ParseIP ''example''" by (simp add: ParseIP_def)
  then have "list_all (\<lambda>h. \<not> ParseIP (HostIP h)) (elems (HostAliases (ca_Outputs (ca_Spec sample_aliases))))"
      "elems (HostAliases (ca_Outputs (ca_Spec sample_aliases))) \<noteq> []"
    by (simp_all add: sample_aliases_def Let_def)
  from invalid_aliases_rejected[OF d this(2,1)] show ?thesis
    unfolding d option.sel fst_conv Let_def by simp
qed

text \<open>The pods of every workload match its selector: in what the four builders return, the labels of
  the selector are among the labels of the pod template, so that the API server takes the object and
  the workload finds its pods.\<close>

theorem selectors_match_pods:
  "(\<exists>d g'. BuildDeploymentForFluentd env q ca g = Some (d, g') \<and>
      label_le (ds_MatchLabels (d_Spec d)) (m_Labels (pt_Meta (ds_Template (d_Spec d))))) \<and>
   (\<exists>ds g'. BuildDaemonForFluentd env q inst ns g = Some (ds, g') \<and>
      label_le (dss_MatchLabels (dset_Spec ds)) (m_Labels (pt_Meta (dss_Template (dset_Spec ds))))) \<and>
   (let d = fst (BuildDeploymentForPolicyController env inst ns g)
    in label_le (ds_MatchLabels (d_Spec d)) (m_Labels (pt_Meta (ds_Template (d_Spec d))))) \<and>
   (let d = fst (BuildDeploymentForPolicyController env inst ns g)
    in ds_MatchLabels (d_Spec d) = LabelsForSelector AuditPolicyControllerDeploy (al_Name inst))"
proof (intro conjI)
  obtain d g' where d: "BuildDeploymentForFluentd env q ca g = Some (d, g')"
    using fluentd_builders_total(1) by blast
  show "\<exists>d g'. BuildDeploymentForFluentd env q ca g = Some (d, g') \<and>
      label_le (ds_MatchLabels (d_Spec d)) (m_Labels (pt_Meta (ds_Template (d_Spec d))))"
    using d fluentd_deployment_labels[OF d] selector_le_pod_labels by metis
  obtain ds g' where ds: "BuildDaemonForFluentd env q inst ns g = Some (ds, g')"
    using fluentd_builders_total(2) by blast
  show "\<exists>ds g'. BuildDaemonForFluentd env q inst ns g = Some (ds, g') \<and>
      label_le (dss_MatchLabels (dset_Spec ds)) (m_Labels (pt_Meta (dss_Template (dset_Spec ds))))"
    using ds fluentd_daemon_labels[OF ds] selector_le_pod_labels by metis
qed (simp_all add: BuildDeploymentForPolicyController_def Let_def selector_le_pod_labels)

end
