(* ===== verification/LawfulServer.thy ===== *)
theory LawfulServer
  imports Gauges FreshConfig WorkloadProps
begin

text \<open>
  What the methods of both controllers share: the laws of the server in one place, and the three shapes
  of their operands with the lemma that a method of the shape is measured: a ConfigMap that is repaired or
  recreated, an object that is updated or deleted when it differs, an object that is only created.
\<close>

subsection \<open>The laws\<close>

definition lawful :: "('w \<Rightarrow> cluster) \<Rightarrow> admission \<Rightarrow> 'w reconciler \<Rightarrow> bool" where
  "lawful view ad r \<longleftrightarrow> stores_objects view ad (r_client r) \<and> respectful (r_quantity r) ad \<and>
     sets_owner (r_set_owner r) \<and> yaml_literal (r_yaml r)"

lemma lawful_stores:
  assumes "lawful view ad r"
  shows "stores view (cl_configmaps (r_client r)) KConfigMap OConfigMap cm_Meta (ad_configmap ad)"
    "stores view (cl_secrets (r_client r)) KSecret OSecret se_Meta (ad_secret ad)"
    "stores view (cl_services (r_client r)) KService OService sv_Meta (ad_service ad)"
    "stores view (cl_accounts (r_client r)) KAccount OAccount sa_Meta (ad_account ad)"
    "stores view (cl_deployments (r_client r)) KDeployment ODeployment d_Meta (ad_deployment ad)"
    "stores view (cl_issuers (r_client r)) KIssuer OIssuer i_Meta (ad_issuer ad)"
    "stores view (cl_certs (r_client r)) KCert OCert ct_Meta (ad_cert ad)"
  using assms unfolding lawful_def stores_objects_def by blast+

lemma lawful_admission:
  assumes "lawful view ad r"
  shows "cm_Data (ad_configmap ad cm) = cm_Data cm" "sv_Ports (ad_service ad sv) = sv_Ports sv"
    "i_Spec (ad_issuer ad i) = i_Spec i" "ct_Spec (ad_cert ad ct) = ct_Spec ct"
    "ds_Replicas (d_Spec (ad_deployment ad d)) = ds_Replicas (d_Spec d)"
    "same_read_pods (r_quantity r) (ds_Template (d_Spec (ad_deployment ad d))) (ds_Template (d_Spec d))"
    "same_read_pods (r_quantity r) (dss_Template (dset_Spec (ad_daemonset ad ds))) (dss_Template (dset_Spec ds))"
  using assms unfolding lawful_def respectful_def by blast+

lemma lawful_owned:
  assumes "lawful view ad r" "or_Namespace owner = m_Namespace m \<or> or_Namespace owner = []"
  obtains refs where "owned r owner m mk = Inr (mk (m\<lparr>m_OwnerReferences := refs\<rparr>))"
  using owned_Inr[of r owner m mk] assms unfolding lawful_def by blast

lemma stores_key: "stores view ops K wrap meta adm \<Longrightarrow> meta_key (meta (adm x)) = meta_key (meta x)"
  unfolding stores_def by blast

lemma delete_pods_view:
  assumes "lawful view ad r"
  shows "view (snd (delete_pods r pods w)) = view w"
proof (induction pods arbitrary: w)
  case (Cons p pods)
  obtain res w' where "cl_delete_pod (r_client r) p w = (res, w')" "view w' = view w"
    using assms unfolding lawful_def stores_objects_def by blast
  with Cons show ?case by (auto split: option.splits)
qed simp

lemma restart_pods_view:
  assumes "lawful view ad r"
  shows "view (snd (restart_pods r ns sel w)) = view w"
proof -
  obtain pods w' where "cl_list_pods (r_client r) ns sel w = (Inr pods, w')" "view w' = view w"
    using assms unfolding lawful_def stores_objects_def by blast
  then show ?thesis using delete_pods_view[OF assms, of pods w'] by (simp add: restart_pods_def)
qed

subsection \<open>ConfigMaps that are repaired\<close>

lemma repairs_measured:
  assumes law: "lawful view ad r" and key: "g_key g = (KConfigMap, key)" "meta_key (cm_Meta e) = key"
    and restart: "\<And>w. view (snd (restart w)) = view w"
    and new: "g_wf g (OConfigMap (ad_configmap ad e))" "g_rank g (OConfigMap (ad_configmap ad e)) < g_absent g"
    and drift: "\<And>cm. meta_key (cm_Meta cm) = key \<Longrightarrow> g_wf g (OConfigMap cm) \<Longrightarrow>
      (case drift cm of
         InSync \<Rightarrow> g_rank g (OConfigMap cm) = 0
       | Recreate \<Rightarrow> g_absent g < g_rank g (OConfigMap cm)
       | Repair cm' \<Rightarrow> cm_Meta cm' = cm_Meta cm \<and> g_wf g (OConfigMap (ad_configmap ad cm')) \<and>
           g_rank g (OConfigMap (ad_configmap ad cm')) < g_rank g (OConfigMap cm)
       | _ \<Rightarrow> False)"
  shows "measured view g (get_or_create (cl_configmaps (r_client r)) key (Inr e)
      (\<lambda>found. settle_config r restart found (drift found)))"
proof (rule measured_get_or_create[OF lawful_stores(1)[OF law] key(1) refl key(2) new])
  note st = lawful_stores(1)[OF law]
  fix cm w
  assume cm: "meta_key (cm_Meta cm) = key" "g_wf g (OConfigMap cm)"
    and there: "objects (view w) (KConfigMap, key) = Some (OConfigMap cm)"
  note d = drift[OF cm]
  show "settles view g (Some (OConfigMap cm)) (settle_config r restart cm (drift cm) w) w"
  proof (cases "drift cm")
    case InSync
    then show ?thesis using d by (simp add: settle_config_def settles_quiet)
  next
    case Recreate
    then show ?thesis
      using d settles_delete[OF st, of w key g cm "Some (OConfigMap cm)"] there cm(1) key(1)
      by (simp add: settle_config_def)
  next
    case (Repair cm')
    obtain w1 where w1: "op_update (cl_configmaps (r_client r)) cm' w = (None, w1)"
        "view w1 = put (KConfigMap, key) (Some (OConfigMap (ad_configmap ad cm'))) (view w)"
      using stores_update[OF st, of w cm'] there d cm(1) Repair by auto
    then show ?thesis
      using d Repair restart key(1)
      by (intro settlesI[where v' = "Some (OConfigMap (ad_configmap ad cm'))" and w' = "snd (restart w1)"])
        (simp_all add: settle_config_def)
  qed (use d in simp_all)
qed

subsection \<open>Objects that are created once, updated or deleted\<close>

text \<open>Rank 1 when the object is absent, 0 when it is as expected, \<open>bad\<close> when it is not.\<close>

definition object_gauge :: "object_key \<Rightarrow> ('o \<Rightarrow> kobject) \<Rightarrow> ('o \<Rightarrow> bool) \<Rightarrow> nat \<Rightarrow> gauge" where
  "object_gauge key wrap equal bad =
     \<lparr>g_key = key, g_absent = 1, g_rank = (\<lambda>ob. if \<exists>x. ob = wrap x \<and> equal x then 0 else bad),
      g_wf = (\<lambda>_. True)\<rparr>"

lemma object_rank:
  "(\<And>x y. wrap x = wrap y \<Longrightarrow> x = y) \<Longrightarrow>
   g_rank (object_gauge key wrap equal bad) (wrap x) = (if equal x then 0 else bad)"
  unfolding object_gauge_def by (auto dest: meta_spec)

lemma object_gauge_simps [simp]:
  "g_key (object_gauge key wrap equal bad) = key" "g_absent (object_gauge key wrap equal bad) = 1"
  "g_wf (object_gauge key wrap equal bad) ob"
  by (simp_all add: object_gauge_def)

lemma object_measured:
  assumes st: "stores view ops K wrap meta adm" and wrap: "\<And>x y. wrap x = wrap y \<Longrightarrow> x = y"
    and e: "meta_key (meta e) = key" "equal (adm e)"
    and check: "\<And>x w. meta_key (meta x) = key \<Longrightarrow> check x w =
      (if equal x then (Done, w)
       else if update then change (op_update ops) (repair x) w else change (op_delete ops) x w)"
    and repair: "\<And>x. meta_key (meta (repair x)) = meta_key (meta x)" "\<And>x. equal (adm (repair x))"
  shows "measured view (object_gauge (K, key) wrap equal 2) (get_or_create ops key (Inr e) check)"
proof (rule measured_get_or_create[OF st])
  show "g_rank (object_gauge (K, key) wrap equal 2) (wrap (adm e)) < g_absent (object_gauge (K, key) wrap equal 2)"
    using e(2) by (simp add: object_rank[OF wrap])
next
  fix x w
  let ?g = "object_gauge (K, key) wrap equal 2"
  assume x: "meta_key (meta x) = key" "objects (view w) (K, key) = Some (wrap x)"
  show "settles view ?g (Some (wrap x)) (check x w) w"
  proof (cases "equal x")
    case True
    then show ?thesis
      using check[OF x(1)] by (simp add: settles_quiet object_rank[OF wrap])
  next
    case False
    have upd: "settles view ?g (Some (wrap x)) (change (op_update ops) (repair x) w) w"
      by (rule settles_update[OF st])
        (use x repair False in \<open>simp_all add: object_rank[OF wrap]\<close>)
    have del: "settles view ?g (Some (wrap x)) (change (op_delete ops) x w) w"
      by (rule settles_delete[OF st]) (use x False in \<open>simp_all add: object_rank[OF wrap]\<close>)
    show ?thesis using check[OF x(1)] False upd del by simp
  qed
qed (use e in simp_all)

text \<open>An object that the method only creates.\<close>

lemma created_measured:
  assumes law: "lawful view ad r" and st: "stores view ops K wrap meta adm"
    and wrap: "\<And>x y. wrap x = wrap y \<Longrightarrow> x = y" and mk: "\<And>m. meta (mk m) = m"
    and owner: "or_Namespace owner = m_Namespace (meta e) \<or> or_Namespace owner = []" and key: "meta_key (meta e) = key"
  shows "measured view (object_gauge (K, key) wrap (\<lambda>_. True) 2)
    (get_or_create ops key (owned r owner (meta e) mk) (\<lambda>found w. (Done, w)))"
proof -
  obtain refs where own: "owned r owner (meta e) mk = Inr (mk ((meta e)\<lparr>m_OwnerReferences := refs\<rparr>))"
    using lawful_owned[OF law owner, of mk] .
  show ?thesis
    unfolding own
    by (rule object_measured[OF st wrap, where update = True and repair = "\<lambda>x. x"])
      (use key in \<open>simp_all add: mk meta_key_def\<close>)
qed

subsection \<open>Certificates, services and pods\<close>

definition cert_gauge :: "certificate \<Rightarrow> gauge" where
  "cert_gauge expected =
     object_gauge (KCert, meta_key (ct_Meta expected)) OCert (\<lambda>x. ct_Spec x = ct_Spec expected) 2"

lemma cert_measured:
  assumes law: "lawful view ad r" and ns: "or_Namespace owner = m_Namespace (ct_Meta e) \<or> or_Namespace owner = []"
    and f: "f = get_or_create (cl_certs (r_client r)) (meta_key (ct_Meta e))
      (owned r owner (ct_Meta e) (\<lambda>m. e\<lparr>ct_Meta := m\<rparr>))
      (\<lambda>found w. if EqualCerts e found
         then change (op_update (cl_certs (r_client r))) (found\<lparr>ct_Spec := ct_Spec e\<rparr>) w else (Done, w))"
  shows "measured view (cert_gauge e) f"
proof -
  obtain refs where own: "owned r owner (ct_Meta e) (\<lambda>m. e\<lparr>ct_Meta := m\<rparr>) =
      Inr (e\<lparr>ct_Meta := (ct_Meta e)\<lparr>m_OwnerReferences := refs\<rparr>\<rparr>)"
    using lawful_owned[OF law ns, of "\<lambda>m. e\<lparr>ct_Meta := m\<rparr>"] .
  show ?thesis
    unfolding f own cert_gauge_def
    by (rule object_measured[OF lawful_stores(7)[OF law], where update = True
          and repair = "\<lambda>found. found\<lparr>ct_Spec := ct_Spec e\<rparr>"])
      (auto simp: lawful_admission(4)[OF law] EqualCerts_def meta_key_def)
qed

definition service_gauge :: "service \<Rightarrow> gauge" where
  "service_gauge e = object_gauge (KService, meta_key (sv_Meta e)) OService (\<lambda>x. sv_Ports x = sv_Ports e) 2"

lemma service_key: "meta_key (sv_Meta (BuildAuditService name ns)) = NamespacedName ns AuditLoggingComponentName"
  by (simp add: BuildAuditService_def Let_def meta_key_def)

lemma service_measured:
  assumes law: "lawful view ad r" and ns: "or_Namespace owner = m_Namespace (sv_Meta e) \<or> or_Namespace owner = []"
    and f: "f = get_or_create (cl_services (r_client r)) (meta_key (sv_Meta e))
      (owned r owner (sv_Meta e) (\<lambda>m. e\<lparr>sv_Meta := m\<rparr>))
      (\<lambda>found w. if EqualServices e found then change (op_delete (cl_services (r_client r))) found w else (Done, w))"
  shows "measured view (service_gauge e) f"
proof -
  obtain refs where own: "owned r owner (sv_Meta e) (\<lambda>m. e\<lparr>sv_Meta := m\<rparr>) =
      Inr (e\<lparr>sv_Meta := (sv_Meta e)\<lparr>m_OwnerReferences := refs\<rparr>\<rparr>)"
    using lawful_owned[OF law ns, of "\<lambda>m. e\<lparr>sv_Meta := m\<rparr>"] .
  show ?thesis
    unfolding f own service_gauge_def
    by (rule object_measured[OF lawful_stores(3)[OF law], where update = False
          and repair = "\<lambda>x. e\<lparr>sv_Meta := sv_Meta x\<rparr>"])
      (simp_all add: meta_key_def lawful_admission(2)[OF law] EqualServices_def)
qed

text \<open>
  The server stores the pods of a builder in a form that the comparison accepts; host aliases count only
  where they may not be modified.
\<close>

lemma stored_pods_agree:
  assumes "same_read_pods q a f" "m \<or> ps_HostAliases (pt_Spec e) \<noteq> Some []" "has_container e"
    and "m_Annotations (pt_Meta f) = m_Annotations (pt_Meta e)"
      "pt_Spec f = (pt_Spec e)\<lparr>ps_HostAliases := al\<rparr>" "m \<or> al = ps_HostAliases (pt_Spec e)"
  shows "pods_agree q e a m"
proof -
  have len: "list_all2 (same_read_container q) (elems (ps_Containers (pt_Spec a))) (elems (ps_Containers (pt_Spec e)))"
    using assms(1,5) by (simp add: same_read_pods_def)
  then have "same_read_container q (hd (elems (ps_Containers (pt_Spec a)))) (hd (elems (ps_Containers (pt_Spec e))))"
    using assms(3) by (cases "elems (ps_Containers (pt_Spec a))"; cases "elems (ps_Containers (pt_Spec e))")
      (auto simp: has_container_def)
  then have "EqualContainers q (hd (elems (ps_Containers (pt_Spec e)))) (hd (elems (ps_Containers (pt_Spec a)))) m"
    by (simp add: EqualContainers_iff same_read_container_def same_amounts_def equalResources_def)
  then show ?thesis
    using assms list_all2_lengthD[OF len] by (cases m) (auto simp: pods_agree_def same_read_pods_def)
qed

lemma stored_deployment_equal:
  assumes law: "lawful view ad r" and e: "has_container (ds_Template (d_Spec e))"
      "m \<or> ps_HostAliases (pt_Spec (ds_Template (d_Spec e))) \<noteq> Some []"
    and x: "ds_Replicas (d_Spec x) = ds_Replicas (d_Spec e)"
      "m_Annotations (pt_Meta (ds_Template (d_Spec x))) = m_Annotations (pt_Meta (ds_Template (d_Spec e)))"
      "pt_Spec (ds_Template (d_Spec x)) = pt_Spec (ds_Template (d_Spec e))"
  shows "EqualDeployments (r_quantity r) e (ad_deployment ad x) m = Some True"
  using stored_pods_agree[OF lawful_admission(6)[OF law] e(2,1) x(2), of "ps_HostAliases (pt_Spec (ds_Template (d_Spec e)))"] x(3) lawful_admission(5)[OF law, of x] x(1)
  by (simp add: EqualDeployments_eq[OF e(1)])

text \<open>The two workloads that are updated when the comparison finds a difference.\<close>

lemma deployment_measured:
  assumes law: "lawful view ad r" and e: "has_container (ds_Template (d_Spec e))"
      "m \<or> ps_HostAliases (pt_Spec (ds_Template (d_Spec e))) \<noteq> Some []"
    and ns: "or_Namespace owner = m_Namespace (d_Meta e) \<or> or_Namespace owner = []"
    and key: "meta_key (d_Meta e) = key"
  shows "measured view
    (object_gauge (KDeployment, key) ODeployment (\<lambda>x. EqualDeployments (r_quantity r) e x m = Some True) 2)
    (get_or_create (cl_deployments (r_client r)) key (owned r owner (d_Meta e) (\<lambda>m. e\<lparr>d_Meta := m\<rparr>))
      (settle_deployment r e m))"
proof -
  let ?equal = "\<lambda>x. EqualDeployments (r_quantity r) e x m = Some True"
  note stored = stored_deployment_equal[OF law e]
  obtain refs where own: "owned r owner (d_Meta e) (\<lambda>m. e\<lparr>d_Meta := m\<rparr>) =
      Inr (e\<lparr>d_Meta := (d_Meta e)\<lparr>m_OwnerReferences := refs\<rparr>\<rparr>)"
    using lawful_owned[OF law ns, of "\<lambda>m. e\<lparr>d_Meta := m\<rparr>"] .
  have settle: "settle_deployment r e m x w = (if ?equal x then (Done, w)
      else if True then change (op_update (cl_deployments (r_client r))) (with_deployment_spec e x) w
      else change (op_delete (cl_deployments (r_client r))) x w)" for x w
    by (simp add: settle_deployment_def EqualDeployments_eq[OF e(1)])
  have created: "?equal (ad_deployment ad (e\<lparr>d_Meta := mt\<rparr>))" for mt
    by (rule stored) simp_all
  have updated: "?equal (ad_deployment ad (with_deployment_spec e x))" for x
    by (rule stored) (simp_all add: with_deployment_spec_def Let_def)
  have meta: "d_Meta (with_deployment_spec e x) = d_Meta x" for x
    by (simp add: with_deployment_spec_def Let_def)
  show ?thesis
    unfolding own
    by (rule object_measured[OF lawful_stores(5)[OF law], where update = True and repair = "with_deployment_spec e"])
      (use settle created updated meta key in \<open>simp_all add: meta_key_def\<close>)
qed

lemma daemonset_measured:
  assumes law: "lawful view ad r" and e: "has_container (dss_Template (dset_Spec e))"
    and ns: "or_Namespace owner = m_Namespace (dset_Meta e) \<or> or_Namespace owner = []"
    and key: "meta_key (dset_Meta e) = key"
  shows "measured view
    (object_gauge (KDaemonSet, key) ODaemonSet (\<lambda>x. EqualDaemonSets (r_quantity r) e x = Some True) 2)
    (get_or_create (cl_daemonsets (r_client r)) key (owned r owner (dset_Meta e) (\<lambda>m. e\<lparr>dset_Meta := m\<rparr>))
      (settle_daemonset r e))"
proof -
  let ?equal = "\<lambda>x. EqualDaemonSets (r_quantity r) e x = Some True"
  have eq: "EqualDaemonSets (r_quantity r) e x =
      Some (pods_agree (r_quantity r) (dss_Template (dset_Spec e)) (dss_Template (dset_Spec x)) True)" for x
    using e EqualPods_eq by (simp add: EqualDaemonSets_def has_container_def)
  have stored: "?equal (ad_daemonset ad x)"
    if "m_Annotations (pt_Meta (dss_Template (dset_Spec x))) = m_Annotations (pt_Meta (dss_Template (dset_Spec e)))"
      "pt_Spec (dss_Template (dset_Spec x)) = (pt_Spec (dss_Template (dset_Spec e)))\<lparr>ps_HostAliases := al\<rparr>" for x al
    using stored_pods_agree[OF lawful_admission(7)[OF law] disjI1 e that] by (simp add: eq)
  obtain refs where own: "owned r owner (dset_Meta e) (\<lambda>m. e\<lparr>dset_Meta := m\<rparr>) =
      Inr (e\<lparr>dset_Meta := (dset_Meta e)\<lparr>m_OwnerReferences := refs\<rparr>\<rparr>)"
    using lawful_owned[OF law ns, of "\<lambda>m. e\<lparr>dset_Meta := m\<rparr>"] .
  have settle: "settle_daemonset r e x w = (if ?equal x then (Done, w)
      else if True then change (op_update (cl_daemonsets (r_client r))) (with_daemonset_spec e x) w
      else change (op_delete (cl_daemonsets (r_client r))) x w)" for x w
    by (simp add: settle_daemonset_def eq)
  have created: "?equal (ad_daemonset ad (e\<lparr>dset_Meta := mt\<rparr>))" for mt
    by (rule stored[where al = "ps_HostAliases (pt_Spec (dss_Template (dset_Spec e)))"]) simp_all
  have updated: "?equal (ad_daemonset ad (with_daemonset_spec e x))" for x
    by (rule stored[where al = "ps_HostAliases (pt_Spec (dss_Template (dset_Spec x)))"])
      (simp_all add: with_daemonset_spec_def Let_def)
  have meta: "dset_Meta (with_daemonset_spec e x) = dset_Meta x" for x
    by (simp add: with_daemonset_spec_def Let_def)
  have st: "stores view (cl_daemonsets (r_client r)) KDaemonSet ODaemonSet dset_Meta (ad_daemonset ad)"
    using law unfolding lawful_def stores_objects_def by blast
  show ?thesis
    unfolding own
    by (rule object_measured[OF st, where update = True and repair = "with_daemonset_spec e"])
      (use settle created updated meta key in \<open>simp_all add: meta_key_def\<close>)
qed

subsection \<open>What rank 0 means\<close>

lemma object_in_place:
  "value_rank (object_gauge key wrap equal 2) v = 0 \<longleftrightarrow> (\<exists>x. v = Some (wrap x) \<and> equal x)"
  by (cases v) (auto simp: value_rank_def object_gauge_def)

lemma object_rank_bound: "value_rank (object_gauge key wrap equal 2) v \<le> 2"
  by (cases v) (simp_all add: object_gauge_def)

definition cert_in_place :: "cluster \<Rightarrow> certificate \<Rightarrow> bool" where
  "cert_in_place c e \<longleftrightarrow>
     (\<exists>x. objects c (KCert, meta_key (ct_Meta e)) = Some (OCert x) \<and> ct_Spec x = ct_Spec e)"

end
