(* ===== verification/CommonAuditSettles.thy ===== *)
theory CommonAuditSettles
  imports LawfulServer
begin

text \<open>
  Every reconcile method of the \<open>CommonAudit\<close> controller settles the object it looks after: the gauges
  of its operands, and for each the lemma that the method is \<open>measured\<close> by it under the laws of the API
  server.
\<close>

subsection \<open>ConfigMaps\<close>

definition config_rank :: "CommonAudit \<Rightarrow> string \<Rightarrow> configmap \<Rightarrow> kobject \<Rightarrow> nat" where
  "config_rank inst name expected ob =
     (case ob of
        OConfigMap cm \<Rightarrow>
          (case ca_config_drift inst name expected cm of
             InSync \<Rightarrow> 0
           | Recreate \<Rightarrow> 3
           | Repair _ \<Rightarrow> (if siem_name name \<and> \<not> all_present (siem_keys cm) (siem_text cm) then 4 else 1)
           | _ \<Rightarrow> 5)
      | _ \<Rightarrow> 5)"

definition config_wf :: "CommonAudit \<Rightarrow> string \<Rightarrow> kobject \<Rightarrow> bool" where
  "config_wf inst name ob =
     (case ob of
        OConfigMap cm \<Rightarrow> m_Name (cm_Meta cm) = name \<and> cm_Data cm \<noteq> None \<and>
          (siem_name name \<and> configured inst cm \<longrightarrow> separated (siem_keys cm) (siem_text cm))
      | _ \<Rightarrow> False)"

definition config_gauge :: "CommonAudit \<Rightarrow> string \<Rightarrow> configmap \<Rightarrow> gauge" where
  "config_gauge inst name expected =
     \<lparr>g_key = (KConfigMap, NamespacedName (ca_Namespace inst) name), g_absent = 2,
      g_rank = config_rank inst name expected, g_wf = config_wf inst name\<rparr>"

lemma sync_key_Some:
  "cm_Data cm = Some d \<Longrightarrow>
   \<exists>d'. sync_key e k (cm, u) = Some (cm\<lparr>cm_Data := Some d'\<rparr>, u \<or> \<not> EqualConfig cm e k) \<and>
     (\<forall>j. mget (Some d') j = (if j = k then mget (cm_Data e) k else mget (Some d) j)) \<and>
     (EqualConfig cm e k \<longrightarrow> d' = d)"
proof (cases "EqualConfig cm e k")
  case True
  assume "cm_Data cm = Some d"
  with True show ?thesis
    by (intro exI[of _ d]) (auto simp: sync_key_def EqualConfig_def)
next
  case False
  assume d: "cm_Data cm = Some d"
  with False show ?thesis
    by (intro exI[of _ "fmupd k (mget (cm_Data e) k) d"]) (auto simp: sync_key_def EqualConfig_def)
qed

lemma single_drift:
  assumes "cm_Data cm = Some d"
  shows "\<exists>d'. drift_of (sync_key e k (cm, False)) =
      (if EqualConfig cm e k then InSync else Repair (cm\<lparr>cm_Data := Some d'\<rparr>)) \<and>
    mget (Some d') k = mget (cm_Data e) k"
proof -
  obtain d' where "sync_key e k (cm, False) = Some (cm\<lparr>cm_Data := Some d'\<rparr>, \<not> EqualConfig cm e k)"
      "mget (Some d') k = mget (cm_Data e) k"
    using sync_key_Some[OF assms, of e k False] by (metis (no_types, lifting) simp_thms(31))
  then show ?thesis by (intro exI[of _ d']) simp
qed

text \<open>The keys that are compared in a ConfigMap that is not a SIEM's.\<close>

definition plain_keys :: "string \<Rightarrow> string list" where
  "plain_keys name =
     (if name = cm_name ConfigName then [EnableAuditLogForwardKey, FluentdConfigKey]
      else if name = cm_name SourceConfigName then [SourceConfigKey]
      else if name = cm_name HTTPIngestName then [HTTPIngestURLKey] else [])"

lemma plain_drift:
  assumes "\<not> siem_name name" "cm_Data cm = Some d"
  shows "\<exists>d'. ca_config_drift inst name e cm =
      (if \<forall>k \<in> set (plain_keys name). EqualConfig cm e k then InSync
       else Repair (cm\<lparr>cm_Data := Some d'\<rparr>)) \<and>
    (\<forall>k \<in> set (plain_keys name). mget (Some d') k = mget (cm_Data e) k)"
proof (cases "name = cm_name ConfigName")
  case True
  obtain d1 where d1: "sync_key e EnableAuditLogForwardKey (cm, False) =
      Some (cm\<lparr>cm_Data := Some d1\<rparr>, \<not> EqualConfig cm e EnableAuditLogForwardKey)"
      "\<forall>j. mget (Some d1) j = (if j = EnableAuditLogForwardKey then mget (cm_Data e) EnableAuditLogForwardKey
        else mget (Some d) j)"
    using sync_key_Some[OF assms(2), of e EnableAuditLogForwardKey False] by auto
  obtain d2 where d2: "sync_key e FluentdConfigKey (cm\<lparr>cm_Data := Some d1\<rparr>, \<not> EqualConfig cm e EnableAuditLogForwardKey) =
      Some (cm\<lparr>cm_Data := Some d2\<rparr>, \<not> EqualConfig cm e EnableAuditLogForwardKey
        \<or> \<not> EqualConfig (cm\<lparr>cm_Data := Some d1\<rparr>) e FluentdConfigKey)"
      "\<forall>j. mget (Some d2) j = (if j = FluentdConfigKey then mget (cm_Data e) FluentdConfigKey else mget (Some d1) j)"
    using sync_key_Some[of "cm\<lparr>cm_Data := Some d1\<rparr>" d1 e FluentdConfigKey
      "\<not> EqualConfig cm e EnableAuditLogForwardKey"] by auto
  have ne: "EnableAuditLogForwardKey \<noteq> FluentdConfigKey"
    by (simp add: EnableAuditLogForwardKey_def FluentdConfigKey_def)
  have "EqualConfig (cm\<lparr>cm_Data := Some d1\<rparr>) e FluentdConfigKey \<longleftrightarrow> EqualConfig cm e FluentdConfigKey"
    using d1(2) ne assms(2) by (simp add: EqualConfig_def)
  then show ?thesis
    using True d1 d2 ne
    by (intro exI[of _ d2]) (auto simp: ca_config_drift_def plain_keys_def)
next
  case False
  then show ?thesis
    using single_drift[OF assms(2), of e SourceConfigKey] single_drift[OF assms(2), of e HTTPIngestURLKey]
      assms(1)
    by (cases "name = cm_name SourceConfigName"; cases "name = cm_name HTTPIngestName")
      (simp_all add: ca_config_drift_def plain_keys_def siem_name_def)
qed

lemma siem_drift:
  assumes "siem_name name" "m_Name (cm_Meta cm) = name" "cm_Data cm = Some d"
  shows "ca_config_drift inst name e cm =
    (if fst (EqualSIEMConfig inst cm) then InSync
     else if snd (EqualSIEMConfig inst cm) then Recreate else Repair (siem_updated inst cm d))"
  using assms
  by (auto simp: ca_config_drift_def siem_name_def siem_updated_def siem_key_def is_splunk_def
      split: prod.splits)

lemma siem_cong:
  assumes "cm_Data a = cm_Data b" "m_Name (cm_Meta a) = m_Name (cm_Meta b)"
  shows "EqualSIEMConfig inst a = EqualSIEMConfig inst b" "siem_keys a = siem_keys b"
    "siem_text a = siem_text b" "configured inst a = configured inst b"
  using assms
  by (simp_all add: EqualSIEMConfig_def siem_keys_def is_splunk_def siem_text_def siem_key_def configured_def)

text \<open>The rank of a ConfigMap depends only on its name and its data.\<close>

lemma config_rank_cong:
  assumes "cm_Data a = cm_Data b" "m_Name (cm_Meta a) = name" "m_Name (cm_Meta b) = name" "cm_Data b \<noteq> None"
  shows "config_rank inst name e (OConfigMap a) = config_rank inst name e (OConfigMap b)"
    "config_wf inst name (OConfigMap a) = config_wf inst name (OConfigMap b)"
proof -
  obtain d where d: "cm_Data b = Some d" using assms(4) by blast
  note cong = siem_cong[of a b, OF assms(1)]
  show "config_rank inst name e (OConfigMap a) = config_rank inst name e (OConfigMap b)"
  proof (cases "siem_name name")
    case True
    then show ?thesis
      using siem_drift[OF True assms(2), of d inst e] siem_drift[OF True assms(3) d, of inst e] cong assms d
      by (simp add: config_rank_def)
  next
    case False
    then show ?thesis
      using plain_drift[OF False, of a d inst e] plain_drift[OF False d, of inst e] assms d
      by (auto simp: config_rank_def EqualConfig_def)
  qed
  show "config_wf inst name (OConfigMap a) = config_wf inst name (OConfigMap b)"
    using assms cong by (simp add: config_wf_def)
qed

lemma config_rank_0:
  assumes "config_wf inst name (OConfigMap cm)"
  shows "config_rank inst name e (OConfigMap cm) = 0 \<longleftrightarrow> ca_config_drift inst name e cm = InSync"
proof -
  obtain d where d: "cm_Data cm = Some d" "m_Name (cm_Meta cm) = name"
    using assms by (auto simp: config_wf_def)
  show ?thesis
  proof (cases "siem_name name")
    case True
    then show ?thesis using siem_drift[OF True d(2,1), of inst e] by (simp add: config_rank_def)
  next
    case False
    then show ?thesis
      using plain_drift[OF False d(1), of inst e] by (auto simp: config_rank_def split: if_splits)
  qed
qed

lemma config_no_error:
  assumes "config_wf inst name (OConfigMap cm)"
  shows "ca_config_drift inst name e cm \<noteq> DriftError err \<and> ca_config_drift inst name e cm \<noteq> DriftPanic"
proof -
  obtain d where d: "cm_Data cm = Some d" "m_Name (cm_Meta cm) = name"
    using assms by (auto simp: config_wf_def)
  show ?thesis
  proof (cases "siem_name name")
    case True
    show ?thesis unfolding siem_drift[OF True d(2,1)] by simp
  next
    case False
    from plain_drift[OF False d(1), of inst e] show ?thesis by (elim exE conjE) simp
  qed
qed

text \<open>A repair makes progress.\<close>

lemma repair_progress:
  assumes wf: "config_wf inst name (OConfigMap cm)" and "values_ok inst"
    and rep: "ca_config_drift inst name e cm = Repair cm'"
  shows "cm_Meta cm' = cm_Meta cm" "cm_Data cm' \<noteq> None" "config_wf inst name (OConfigMap cm')"
    "config_rank inst name e (OConfigMap cm') < config_rank inst name e (OConfigMap cm)"
proof -
  obtain d where d: "cm_Data cm = Some d" "m_Name (cm_Meta cm) = name"
    using wf by (auto simp: config_wf_def)
  have "cm_Meta cm' = cm_Meta cm \<and> cm_Data cm' \<noteq> None \<and> config_wf inst name (OConfigMap cm') \<and>
    config_rank inst name e (OConfigMap cm') < config_rank inst name e (OConfigMap cm)"
  proof (cases "siem_name name")
    case False
    obtain d' where d': "ca_config_drift inst name e cm = Repair (cm\<lparr>cm_Data := Some d'\<rparr>)"
        "\<forall>k \<in> set (plain_keys name). mget (Some d') k = mget (cm_Data e) k"
      using plain_drift[OF False d(1), of inst e] rep by (auto split: if_splits)
    then have cm': "cm' = cm\<lparr>cm_Data := Some d'\<rparr>" using rep by simp
    have "ca_config_drift inst name e cm' = InSync"
      using plain_drift[OF False, of cm' d' inst e] d'(2) by (auto simp: cm' EqualConfig_def)
    then show ?thesis using False d wf rep by (simp add: cm' config_rank_def config_wf_def)
  next
    case True
    have cm': "cm' = siem_updated inst cm d" and neq: "\<not> fst (EqualSIEMConfig inst cm)"
      using siem_drift[OF True d(2,1), of inst e] rep by (auto split: if_splits)
    have conf: "configured inst cm" using neq by (simp add: EqualSIEMConfig_eq split: if_splits)
    have sep: "separated (siem_keys cm) (siem_text cm)"
      using wf True conf by (simp add: config_wf_def)
    note plain = values_ok_plain[OF assms(2), of cm]
    have name': "m_Name (cm_Meta (siem_updated inst cm d)) = name" using d(2) by simp
    have data': "cm_Data (siem_updated inst cm d) = Some (fmupd (siem_key cm) (UpdateSIEMConfig inst cm) d)"
      by (simp add: siem_updated_def)
    have wf': "config_wf inst name (OConfigMap cm')"
      using updated_separated[OF plain sep conf] name' data' unfolding cm' config_wf_def by simp
    have "config_rank inst name e (OConfigMap cm') < config_rank inst name e (OConfigMap cm)"
    proof (cases "all_present (siem_keys cm) (siem_text cm)")
      case present: True
      have "EqualSIEMConfig inst (siem_updated inst cm d) = (True, False)"
        by (rule update_accepted[OF plain sep present])
      then show ?thesis
        using siem_drift[OF True name' data', of inst e] rep present True by (simp add: cm' config_rank_def)
    next
      case absent: False
      have "EqualSIEMConfig inst (siem_updated inst cm d) = (False, True)"
        by (rule update_missing[OF plain sep conf absent])
      then show ?thesis
        using siem_drift[OF True name' data', of inst e] rep absent True by (simp add: cm' config_rank_def)
    qed
    with wf' show ?thesis by (simp add: cm' data')
  qed
  then show "cm_Meta cm' = cm_Meta cm" "cm_Data cm' \<noteq> None" "config_wf inst name (OConfigMap cm')"
    "config_rank inst name e (OConfigMap cm') < config_rank inst name e (OConfigMap cm)" by blast+
qed

text \<open>A new ConfigMap is well-formed, and settled or one repair away from it.\<close>

lemma new_config_rank:
  assumes "yaml_literal yaml" "values_ok inst" "name \<in> set FluentdConfigMaps"
    and e: "BuildFluentdConfigMap yaml inst name = Inr e"
  shows "config_wf inst name (OConfigMap e)" "config_rank inst name e (OConfigMap e) < 2"
proof -
  obtain d where d: "cm_Data e = Some d" "m_Name (cm_Meta e) = name"
    using BuildFluentdConfigMap_total[OF assms(1-3)] e by (auto simp: meta_key_def)
  have "config_wf inst name (OConfigMap e) \<and> config_rank inst name e (OConfigMap e) < 2"
  proof (cases "siem_name name")
    case False
    then show ?thesis
      using plain_drift[OF False d(1), of inst e] d
      by (auto simp: config_wf_def config_rank_def EqualConfig_def)
  next
    case True
    have "e = fresh_siem inst name" using BuildFluentdConfigMap_siem[OF assms(1) True assms(2)] e by simp
    then have "separated (siem_keys e) (siem_text e)" "all_present (siem_keys e) (siem_text e)"
      using fresh_siem_text[OF assms(2)] by simp_all
    then show ?thesis
      using siem_drift[OF True d(2,1), of inst e] present_not_missing[of e inst] d True
      by (simp add: config_wf_def config_rank_def)
  qed
  then show "config_wf inst name (OConfigMap e)" "config_rank inst name e (OConfigMap e) < 2" by blast+
qed

lemma BuildFluentdConfigMap_name:
  "BuildFluentdConfigMap yaml inst name = Inr e \<Longrightarrow>
     m_Name (cm_Meta e) = name \<and> m_Namespace (cm_Meta e) = ca_Namespace inst"
  by (auto simp: BuildFluentdConfigMap_def Let_def split: if_splits sum.splits)

lemma config_measured:
  assumes law: "lawful view ad r" and ok: "values_ok inst" and name: "name \<in> set FluentdConfigMaps"
    and e: "BuildFluentdConfigMap (r_yaml r) inst name = Inr e"
  shows "measured view (config_gauge inst name e) (ca_reconcileConfig r inst name)"
proof -
  let ?key = "NamespacedName (ca_Namespace inst) name"
  note st = lawful_stores(1)[OF law]
  have meta: "m_Name (cm_Meta e) = name" "m_Namespace (cm_Meta e) = ca_Namespace inst"
    using BuildFluentdConfigMap_name[OF e] by blast+
  have yaml: "yaml_literal (r_yaml r)" using law by (simp add: lawful_def)
  note new = new_config_rank[OF yaml ok name e]
  obtain refs where own: "owned r (ca_owner inst) (cm_Meta e) (\<lambda>m. e\<lparr>cm_Meta := m\<rparr>) =
      Inr (e\<lparr>cm_Meta := (cm_Meta e)\<lparr>m_OwnerReferences := refs\<rparr>\<rparr>)"
    using lawful_owned[OF law, of "ca_owner inst" "cm_Meta e"] meta(2) by (auto simp: ca_owner_def)
  let ?e = "e\<lparr>cm_Meta := (cm_Meta e)\<lparr>m_OwnerReferences := refs\<rparr>\<rparr>"
  have eq: "ca_reconcileConfig r inst name = get_or_create (cl_configmaps (r_client r)) ?key (Inr ?e)
      (\<lambda>found. settle_config r (ca_restartFluentdPods r inst) found (ca_config_drift inst name e found))"
    by (rule ext) (simp add: ca_reconcileConfig_def e own)
  have stored: "config_wf inst name (OConfigMap (ad_configmap ad x)) = config_wf inst name (OConfigMap y)"
      "config_rank inst name e (OConfigMap (ad_configmap ad x)) = config_rank inst name e (OConfigMap y)"
    if "cm_Data x = cm_Data y" "m_Name (cm_Meta x) = name" "m_Name (cm_Meta y) = name" "cm_Data y \<noteq> None" for x y
  proof -
    have "cm_Data (ad_configmap ad x) = cm_Data y" "m_Name (cm_Meta (ad_configmap ad x)) = name"
      using that lawful_admission(1)[OF law] stores_key[OF st, of x] by (simp_all add: meta_key_def)
    from config_rank_cong[OF this that(3,4)] show
      "config_wf inst name (OConfigMap (ad_configmap ad x)) = config_wf inst name (OConfigMap y)"
      "config_rank inst name e (OConfigMap (ad_configmap ad x)) = config_rank inst name e (OConfigMap y)" by simp_all
  qed
  have data: "cm_Data e \<noteq> None" using new(1) by (auto simp: config_wf_def)
  show ?thesis
    unfolding eq
  proof (rule repairs_measured[OF law])
    show "view (snd (ca_restartFluentdPods r inst w)) = view w" for w
      unfolding ca_restartFluentdPods_def by (rule restart_pods_view[OF law])
    show "g_wf (config_gauge inst name e) (OConfigMap (ad_configmap ad ?e))"
      "g_rank (config_gauge inst name e) (OConfigMap (ad_configmap ad ?e)) < g_absent (config_gauge inst name e)"
      using stored[of ?e e] new meta data by (simp_all add: config_gauge_def)
  next
    fix cm assume key: "meta_key (cm_Meta cm) = ?key" and "g_wf (config_gauge inst name e) (OConfigMap cm)"
    then have wf: "config_wf inst name (OConfigMap cm)" and cm: "m_Name (cm_Meta cm) = name"
      by (simp_all add: config_gauge_def meta_key_def)
    show "case ca_config_drift inst name e cm of
        InSync \<Rightarrow> g_rank (config_gauge inst name e) (OConfigMap cm) = 0
      | Recreate \<Rightarrow> g_absent (config_gauge inst name e) < g_rank (config_gauge inst name e) (OConfigMap cm)
      | Repair cm' \<Rightarrow> cm_Meta cm' = cm_Meta cm \<and> g_wf (config_gauge inst name e) (OConfigMap (ad_configmap ad cm')) \<and>
          g_rank (config_gauge inst name e) (OConfigMap (ad_configmap ad cm'))
            < g_rank (config_gauge inst name e) (OConfigMap cm)
      | _ \<Rightarrow> False"
    proof (cases "ca_config_drift inst name e cm")
      case InSync
      then show ?thesis using config_rank_0[OF wf, of e] by (simp add: config_gauge_def)
    next
      case Recreate
      then show ?thesis by (simp add: config_gauge_def config_rank_def)
    next
      case (Repair cm')
      note p = repair_progress[OF wf ok Repair]
      show ?thesis using p stored[of cm' cm'] cm Repair by (simp add: config_gauge_def)
    qed (use config_no_error[OF wf, of e] in simp_all)
  qed (use meta in \<open>simp_all add: config_gauge_def meta_key_def\<close>)
qed

end
