(* ===== verification/CommonAuditOperands.thy ===== *)
theory CommonAuditOperands
  imports CommonAuditSettles
begin

text \<open>
  The operands of a \<open>CommonAudit\<close> and their gauges: certificates and issuers, the secret, the service
  account, the service and the fluentd deployment. The last part puts all reconcile methods in one list
  of measured steps, the order in which \<open>Reconcile\<close> runs them.
\<close>

subsection \<open>Certificates and issuers\<close>

definition issuer_gauge :: "issuer \<Rightarrow> gauge" where
  "issuer_gauge expected =
     object_gauge (KIssuer, meta_key (i_Meta expected)) OIssuer (\<lambda>x. i_Spec x = i_Spec expected) 2"

lemma issuer_measured:
  assumes law: "lawful view ad r"
    and ns: "m_Namespace (i_Meta (f (ca_Namespace inst))) = ca_Namespace inst"
  shows "measured view (issuer_gauge (f (ca_Namespace inst))) (ca_reconcileIssuer r f inst)"
proof -
  let ?e = "f (ca_Namespace inst)"
  obtain refs where own: "owned r (ca_owner inst) (i_Meta ?e) (\<lambda>m. ?e\<lparr>i_Meta := m\<rparr>) =
      Inr (?e\<lparr>i_Meta := (i_Meta ?e)\<lparr>m_OwnerReferences := refs\<rparr>\<rparr>)"
    using lawful_owned[OF law, of "ca_owner inst" "i_Meta ?e"] ns by (auto simp: ca_owner_def)
  show ?thesis
    unfolding ca_reconcileIssuer_def Let_def own issuer_gauge_def
    by (rule object_measured[OF lawful_stores(6)[OF law], where update = True
          and repair = "\<lambda>found. found\<lparr>i_Spec := i_Spec ?e\<rparr>"])
      (auto simp: lawful_admission(3)[OF law] EqualIssuers_def meta_key_def)
qed

definition expected_https_cert :: "CommonAudit \<Rightarrow> certificate" where
  "expected_https_cert inst = BuildCertsForAuditLogging (ca_Namespace inst)
     (if ca_Issuer (ca_Spec inst) \<noteq> [] then ca_Issuer (ca_Spec inst) else RootIssuer)
     AuditLoggingHTTPSCertName"

lemma root_cert_measured:
  "lawful view ad r \<Longrightarrow>
   measured view (cert_gauge (BuildRootCACert (ca_Namespace inst))) (ca_reconcileRootCACert r inst)"
  by (rule cert_measured[where owner = "ca_owner inst"], assumption, simp add: BuildRootCACert_def ca_owner_def)
    (simp only: ca_reconcileRootCACert_def Let_def)

lemma https_cert_measured:
  "lawful view ad r \<Longrightarrow>
   measured view (cert_gauge (expected_https_cert inst))
     (ca_reconcileAuditCertificate r inst AuditLoggingHTTPSCertName)"
  by (rule cert_measured[where owner = "ca_owner inst"], assumption,
      simp add: expected_https_cert_def BuildCertsForAuditLogging_def Let_def ca_owner_def)
    (simp only: expected_https_cert_def ca_reconcileAuditCertificate_def Let_def)

subsection \<open>Secret, service account, service\<close>

definition secret_gauge :: "CommonAudit \<Rightarrow> gauge" where
  "secret_gauge inst =
     object_gauge (KSecret, NamespacedName (ca_Namespace inst) AuditLoggingClientCertSecName) OSecret (\<lambda>_. True) 2"

definition account_gauge :: "CommonAudit \<Rightarrow> gauge" where
  "account_gauge inst =
     object_gauge (KAccount, NamespacedName (ca_Namespace inst) OperandServiceAccount) OAccount (\<lambda>_. True) 2"

lemma secret_measured:
  assumes law: "lawful view ad r"
  shows "measured view (secret_gauge inst) (ca_reconcileSecret r inst)"
proof -
  have name: "m_Name (se_Meta (BuildSecret inst)) = AuditLoggingClientCertSecName"
      "m_Namespace (se_Meta (BuildSecret inst)) = ca_Namespace inst"
    by (simp_all add: BuildSecret_def)
  show ?thesis
    unfolding ca_reconcileSecret_def Let_def secret_gauge_def name(1)
    by (rule created_measured[OF law lawful_stores(2)[OF law]]) (simp_all add: name meta_key_def ca_owner_def)
qed

lemma account_measured:
  assumes law: "lawful view ad r"
  shows "measured view (account_gauge inst) (ca_reconcileServiceAccount r inst)"
proof -
  let ?e = "BuildServiceAccount (ca_Namespace inst)"
  have name: "m_Name (sa_Meta ?e) = OperandServiceAccount" "m_Namespace (sa_Meta ?e) = ca_Namespace inst"
    by (simp_all add: BuildServiceAccount_def)
  obtain refs where own: "owned r (ca_owner inst) (sa_Meta ?e) (\<lambda>m. ?e\<lparr>sa_Meta := m\<rparr>) =
      Inr (?e\<lparr>sa_Meta := (sa_Meta ?e)\<lparr>m_OwnerReferences := refs\<rparr>\<rparr>)"
    using lawful_owned[OF law, of "ca_owner inst" "sa_Meta ?e"] name by (auto simp: ca_owner_def)
  let ?x = "?e\<lparr>sa_Meta := (sa_Meta ?e)\<lparr>m_OwnerReferences := refs\<rparr>\<rparr>"
  have eq: "ca_reconcileServiceAccount r inst =
      get_or_create (cl_accounts (r_client r)) (NamespacedName (ca_Namespace inst) OperandServiceAccount)
        (Inr ?x) (\<lambda>found w. (Done, w))"
    by (rule ext) (simp add: ca_reconcileServiceAccount_def Let_def own name)
  show ?thesis
    unfolding eq account_gauge_def
    by (rule object_measured[OF lawful_stores(4)[OF law], where update = True and repair = "\<lambda>x. x"])
      (simp_all add: name meta_key_def)
qed

lemma ca_service_measured:
  "lawful view ad r \<Longrightarrow>
   measured view (service_gauge (BuildAuditService (ca_Name inst) (ca_Namespace inst))) (ca_reconcileService r inst)"
  by (rule service_measured[where owner = "ca_owner inst"], assumption,
      simp add: BuildAuditService_def Let_def ca_owner_def)
    (simp add: ca_reconcileService_def Let_def meta_key_def BuildAuditService_def)

subsection \<open>The fluentd deployment\<close>

definition expected_fluentd :: "'w reconciler \<Rightarrow> CommonAudit \<Rightarrow> deployment" where
  "expected_fluentd r inst = fst (the (BuildDeploymentForFluentd (r_env r) (r_quantity r) inst init_globals))"

definition fluentd_gauge :: "'w reconciler \<Rightarrow> CommonAudit \<Rightarrow> gauge" where
  "fluentd_gauge r inst =
     object_gauge (KDeployment, NamespacedName (ca_Namespace inst) FluentdDeploymentName) ODeployment
       (\<lambda>x. EqualDeployments (r_quantity r) (expected_fluentd r inst) x False = Some True) 2"

text \<open>Host aliases of which at least one is valid, or none at all.\<close>

definition usable_aliases :: "CommonAudit \<Rightarrow> bool" where
  "usable_aliases inst \<longleftrightarrow> build_host_aliases (HostAliases (ca_Outputs (ca_Spec inst))) \<noteq> Some []"

lemma expected_fluentd_built:
  assumes "fluentd_fixed g"
  obtains g' where "BuildDeploymentForFluentd (r_env r) (r_quantity r) inst g = Some (expected_fluentd r inst, g')"
proof -
  obtain d g' d0 g0 where d: "BuildDeploymentForFluentd (r_env r) (r_quantity r) inst g = Some (d, g')"
      "BuildDeploymentForFluentd (r_env r) (r_quantity r) inst init_globals = Some (d0, g0)"
    using fluentd_builders_total(1) by metis
  then have "d = expected_fluentd r inst"
    using fluentd_builder_cong(1)[OF assms, of "r_env r" "r_quantity r" inst] by (simp add: expected_fluentd_def)
  with d(1) that show ?thesis by blast
qed

lemma fluentd_deployment_name:
  "BuildDeploymentForFluentd env q ca g = Some (d, g') \<Longrightarrow>
   m_Name (d_Meta d) = FluentdDeploymentName \<and> m_Namespace (d_Meta d) = ca_Namespace ca"
  by (auto simp: BuildDeploymentForFluentd_def Let_def split: option.splits)

text \<open>The method on the object that it builds, and the building.\<close>

definition fluentd_method :: "'w reconciler \<Rightarrow> CommonAudit \<Rightarrow> 'w \<Rightarrow> outcome \<times> 'w" where
  "fluentd_method r inst =
     (let e = expected_fluentd r inst
      in get_or_create (cl_deployments (r_client r)) (NamespacedName (ca_Namespace inst) FluentdDeploymentName)
           (owned r (ca_owner inst) (d_Meta e) (\<lambda>m. e\<lparr>d_Meta := m\<rparr>)) (settle_deployment r e False))"

lemma fluentd_method_measured:
  assumes law: "lawful view ad r" and ok: "usable_aliases inst"
  shows "measured view (fluentd_gauge r inst) (fluentd_method r inst)"
proof -
  let ?e = "expected_fluentd r inst"
  have "fluentd_fixed init_globals" using built_fixed[OF built.init] by blast
  then obtain g0 where built: "BuildDeploymentForFluentd (r_env r) (r_quantity r) inst init_globals = Some (?e, g0)"
    using expected_fluentd_built by blast
  have key: "meta_key (d_Meta ?e) = NamespacedName (ca_Namespace inst) FluentdDeploymentName"
      "or_Namespace (ca_owner inst) = m_Namespace (d_Meta ?e)"
    using fluentd_deployment_name[OF built] by (simp_all add: meta_key_def ca_owner_def)
  have aliases: "ps_HostAliases (pt_Spec (ds_Template (d_Spec ?e))) \<noteq> Some []"
    using ok fluentd_deployment_aliases[OF built] by (simp add: usable_aliases_def)
  show ?thesis
    unfolding fluentd_gauge_def fluentd_method_def Let_def
    by (rule deployment_measured[OF law fluentd_has_container(1)[OF built] disjI2[OF aliases] disjI1[OF key(2)] key(1)])
qed

lemma fluentd_method_built:
  assumes "built (snd s)"
  shows "\<exists>g'. built g' \<and> ca_reconcileFluentdDeployment r inst s = lift_world (fluentd_method r inst) (fst s, g')"
proof -
  obtain g' where g': "BuildDeploymentForFluentd (r_env r) (r_quantity r) inst (snd s) = Some (expected_fluentd r inst, g')"
    using expected_fluentd_built built_fixed[OF assms] by blast
  then show ?thesis
    using built.deployment[OF assms g'] by (auto simp: ca_reconcileFluentdDeployment_def fluentd_method_def Let_def)
qed

lemma fluentd_measured:
  "lawful view ad r \<Longrightarrow> usable_aliases inst \<Longrightarrow>
   measured_state view built (fluentd_gauge r inst) (ca_reconcileFluentdDeployment r inst)"
  by (rule measured_builder[OF fluentd_method_measured fluentd_method_built])

end
