(* ===== verification/CommonAuditRounds.thy ===== *)
theory CommonAuditRounds
  imports CommonAuditOperands
begin

text \<open>
  The controller of \<open>CommonAudit\<close> converges: its reconcile methods as one list of measured steps, the
  contract \<open>settling\<close> of that list, and the rounds of \<open>Reconcile\<close>.
\<close>

subsection \<open>The steps\<close>

definition expected_config :: "'w reconciler \<Rightarrow> CommonAudit \<Rightarrow> string \<Rightarrow> configmap" where
  "expected_config r inst name = projr (BuildFluentdConfigMap (r_yaml r) inst name)"

definition ca_parts :: "'w reconciler \<Rightarrow> CommonAudit \<Rightarrow> (gauge \<times> ('w state \<Rightarrow> outcome \<times> 'w state)) list" where
  "ca_parts r inst =
     map (\<lambda>name. (config_gauge inst name (expected_config r inst name),
                  lift_world (ca_reconcileConfig r inst name))) FluentdConfigMaps @
     [(issuer_gauge (BuildGodIssuer (ca_Namespace inst)), lift_world (ca_reconcileIssuer r BuildGodIssuer inst)),
      (cert_gauge (BuildRootCACert (ca_Namespace inst)), lift_world (ca_reconcileRootCACert r inst)),
      (issuer_gauge (BuildRootCAIssuer (ca_Namespace inst)), lift_world (ca_reconcileIssuer r BuildRootCAIssuer inst)),
      (cert_gauge (expected_https_cert inst),
       lift_world (ca_reconcileAuditCertificate r inst AuditLoggingHTTPSCertName)),
      (secret_gauge inst, lift_world (ca_reconcileSecret r inst)),
      (account_gauge inst, lift_world (ca_reconcileServiceAccount r inst)),
      (service_gauge (BuildAuditService (ca_Name inst) (ca_Namespace inst)), lift_world (ca_reconcileService r inst)),
      (fluentd_gauge r inst, ca_reconcileFluentdDeployment r inst)]"

definition ca_gauges :: "'w reconciler \<Rightarrow> CommonAudit \<Rightarrow> gauge list" where
  "ca_gauges r inst = map fst (ca_parts r inst)"

definition ca_steps :: "'w reconciler \<Rightarrow> CommonAudit \<Rightarrow> (object_key \<times> ('w state \<Rightarrow> outcome \<times> 'w state)) list" where
  "ca_steps r inst = map (\<lambda>(g, f). (g_key g, f)) (ca_parts r inst)"

lemma ca_reconcilers_flat:
  "run_reconcilers (ca_reconcilers r inst) =
   run_reconcilers (map snd (ca_steps r inst) @ [lift_world (ca_updateStatus r inst)])"
proof -
  let ?lists = "[map (\<lambda>name. lift_world (ca_reconcileConfig r inst name)) FluentdConfigMaps,
     [lift_world (ca_reconcileIssuer r BuildGodIssuer inst), lift_world (ca_reconcileRootCACert r inst),
      lift_world (ca_reconcileIssuer r BuildRootCAIssuer inst)],
     [lift_world (ca_reconcileAuditCertificate r inst AuditLoggingHTTPSCertName)],
     [lift_world (ca_reconcileSecret r inst)], [lift_world (ca_reconcileServiceAccount r inst)],
     [lift_world (ca_reconcileService r inst)], [ca_reconcileFluentdDeployment r inst],
     [lift_world (ca_updateStatus r inst)]]"
  have "ca_reconcilers r inst = map run_reconcilers ?lists"
    by (simp add: ca_reconcilers_def ca_reconcileAuditConfigMaps_def ca_reconcileCertPreReqs_def
        ca_reconcileAuditCerts_def lift_world_run run_reconcilers_one comp_def del: run_reconcilers.simps)
  moreover have "concat ?lists = map snd (ca_steps r inst) @ [lift_world (ca_updateStatus r inst)]"
    by (simp add: ca_steps_def ca_parts_def comp_def)
  ultimately show ?thesis using run_reconcilers_concat by metis
qed

lemma ca_steps_keys: "map fst (ca_steps r inst) = map g_key (ca_gauges r inst)"
  by (simp add: ca_steps_def ca_gauges_def comp_def split_def)

lemma ca_keys_distinct: "distinct (map g_key (ca_gauges r inst))"
  by (simp add: ca_gauges_def ca_parts_def comp_def FluentdConfigMaps_def cm_name_defs config_gauge_def
      issuer_gauge_def cert_gauge_def secret_gauge_def account_gauge_def service_gauge_def fluentd_gauge_def
      BuildGodIssuer_def BuildRootCAIssuer_def BuildRootCACert_def expected_https_cert_def
      BuildCertsForAuditLogging_def Let_def meta_key_def GodIssuer_def RootIssuer_def RootCert_def
      AuditLoggingHTTPSCertName_def)

lemma ca_config_measured:
  assumes law: "lawful view ad r" and ok: "values_ok inst" and name: "name \<in> set FluentdConfigMaps"
  shows "measured view (config_gauge inst name (expected_config r inst name)) (ca_reconcileConfig r inst name)"
proof -
  have "yaml_literal (r_yaml r)" using law by (simp add: lawful_def)
  from BuildFluentdConfigMap_total[OF this ok name]
  have "BuildFluentdConfigMap (r_yaml r) inst name = Inr (expected_config r inst name)"
    by (auto simp: expected_config_def)
  from config_measured[OF law ok name this] show ?thesis .
qed

lemma ca_parts_measured:
  assumes law: "lawful view ad r" and ok: "values_ok inst" "usable_aliases inst"
    and part: "(g, f) \<in> set (ca_parts r inst)"
  shows "measured_state view built g f"
proof -
  have issuers: "measured view (issuer_gauge (BuildGodIssuer (ca_Namespace inst))) (ca_reconcileIssuer r BuildGodIssuer inst)"
      "measured view (issuer_gauge (BuildRootCAIssuer (ca_Namespace inst))) (ca_reconcileIssuer r BuildRootCAIssuer inst)"
    by (rule issuer_measured[OF law], simp add: BuildGodIssuer_def BuildRootCAIssuer_def)+
  note all = ca_config_measured[OF law ok(1)] issuers root_cert_measured[OF law] https_cert_measured[OF law] secret_measured[OF law]
    account_measured[OF law] ca_service_measured[OF law]
  show ?thesis
    using part fluentd_measured[OF law ok(2)] by (auto simp: ca_parts_def intro: measured_lift_world all)
qed

subsection \<open>The contract of the steps\<close>

text \<open>
  When \<open>Reconcile\<close> runs the steps: the request names a resource that exists, it is the only one of its
  namespace, and no \<open>AuditLogging\<close> exists or the namespace is not that of the common services.
\<close>

definition ca_admitted :: "'w reconciler \<Rightarrow> CommonAudit \<Rightarrow> nsname \<Rightarrow> cluster \<Rightarrow> bool" where
  "ca_admitted r inst req c \<longleftrightarrow>
     (\<exists>a. find (\<lambda>a. meta_key (ca_Meta a) = req) (commons c) = Some a \<and> same_common inst a) \<and>
     length (filter (\<lambda>a. key_ns req = [] \<or> ca_Namespace a = key_ns req) (commons c)) \<le> 1 \<and>
     (\<exists>cs. GetCSNamespace (r_env r) = Inr cs \<and> (audits c = [] \<or> key_ns req \<noteq> cs))"

definition ca_inv ::
    "('w \<Rightarrow> cluster) \<Rightarrow> admission \<Rightarrow> 'w reconciler \<Rightarrow> CommonAudit \<Rightarrow> nsname \<Rightarrow> cluster \<Rightarrow> 'w state \<Rightarrow> bool" where
  "ca_inv view ad r inst req c0 s \<longleftrightarrow> lawful view ad r \<and> values_ok inst \<and> usable_aliases inst \<and>
     built (snd s) \<and> steps_wf view (ca_gauges r inst) (fst s) \<and> ca_admitted r inst req (view (fst s)) \<and>
     others_kept (ca_gauges r inst) c0 (view (fst s))"

lemma ca_admitted_put: "ca_admitted r inst req c \<Longrightarrow> ca_admitted r inst req (put k v c)"
  by (simp add: ca_admitted_def)

lemma ca_inv_parts:
  "ca_inv view ad r inst req c0 = parts_inv view (lawful view ad r \<and> values_ok inst \<and> usable_aliases inst)
     built (map fst (ca_parts r inst))
     (\<lambda>c. ca_admitted r inst req c \<and> others_kept (map fst (ca_parts r inst)) c0 c)"
  by (rule ext) (simp add: ca_inv_def parts_inv_def ca_gauges_def conj_assoc)

lemma ca_settling:
  "settling (ca_steps r inst) (steps_rank view (ca_gauges r inst)) (ca_inv view ad r inst req c0)"
  unfolding ca_inv_parts ca_steps_def ca_gauges_def
proof (rule parts_settling)
  show "distinct (map g_key (map fst (ca_parts r inst)))"
    using ca_keys_distinct[of r inst] by (simp only: ca_gauges_def)
qed (use ca_parts_measured ca_admitted_put others_kept_put in blast)+

interpretation ca: settling "ca_steps r inst" "steps_rank view (ca_gauges r inst)" "ca_inv view ad r inst req c0"
  for r inst view ad req c0
  by (rule ca_settling)

end
