(* ===== verification/MemoryServer.thy ===== *)
theory MemoryServer
  imports LawfulServer
begin

text \<open>
  An API server in memory: the world is the cluster itself. It is an instance of the laws of the theory
  ApiServer, at which the theorems about the controllers are evaluated.
\<close>

fun typed :: "object_key \<Rightarrow> kobject \<Rightarrow> bool" where
  "typed (K, k) (OConfigMap x) \<longleftrightarrow> K = KConfigMap \<and> meta_key (cm_Meta x) = k"
| "typed (K, k) (OSecret x) \<longleftrightarrow> K = KSecret \<and> meta_key (se_Meta x) = k"
| "typed (K, k) (OService x) \<longleftrightarrow> K = KService \<and> meta_key (sv_Meta x) = k"
| "typed (K, k) (OAccount x) \<longleftrightarrow> K = KAccount \<and> meta_key (sa_Meta x) = k"
| "typed (K, k) (ODeployment x) \<longleftrightarrow> K = KDeployment \<and> meta_key (d_Meta x) = k"
| "typed (K, k) (ODaemonSet x) \<longleftrightarrow> K = KDaemonSet \<and> meta_key (dset_Meta x) = k"
| "typed (K, k) (OJob x) \<longleftrightarrow> K = KJob \<and> meta_key (j_Meta x) = k"
| "typed (K, k) (OIssuer x) \<longleftrightarrow> K = KIssuer \<and> meta_key (i_Meta x) = k"
| "typed (K, k) (OCert x) \<longleftrightarrow> K = KCert \<and> meta_key (ct_Meta x) = k"

text \<open>What a cluster stores: the entries whose object has the kind and the key it is stored under.\<close>

definition stored :: "cluster \<Rightarrow> cluster" where
  "stored c = c\<lparr>objects := (\<lambda>k. case objects c k of None \<Rightarrow> None
     | Some ob \<Rightarrow> if typed k ob then Some ob else None)\<rparr>"

lemma stored_put: "typed k ob \<Longrightarrow> stored (put k (Some ob) c) = put k (Some ob) (stored c)"
  "stored (put k None c) = put k None (stored c)"
  by (auto simp: stored_def put_def fun_eq_iff intro!: cluster.equality)

lemma stored_typed: "objects (stored c) k = Some ob \<Longrightarrow> typed k ob"
  by (auto simp: stored_def split: option.splits if_splits)

definition memory_ops ::
    "kind \<Rightarrow> ('o \<Rightarrow> kobject) \<Rightarrow> (kobject \<Rightarrow> 'o option) \<Rightarrow> ('o \<Rightarrow> objmeta) \<Rightarrow> ('o \<Rightarrow> 'o) \<Rightarrow> (cluster, 'o) ops" where
  "memory_ops K wrap unwrap meta adm =
     \<lparr>op_get = (\<lambda>k c. (case Option.bind (objects (stored c) (K, k)) unwrap of
         None \<Rightarrow> Inl NotFound | Some x \<Rightarrow> Inr x, c)),
      op_create = (\<lambda>x c. let k = (K, meta_key (meta x))
         in if objects (stored c) k = None then (None, put k (Some (wrap (adm x))) c) else (Some AlreadyExists, c)),
      op_update = (\<lambda>x c. let k = (K, meta_key (meta x))
         in if objects (stored c) k = None then (Some NotFound, c) else (None, put k (Some (wrap (adm x))) c)),
      op_delete = (\<lambda>x c. let k = (K, meta_key (meta x))
         in if objects (stored c) k = None then (Some NotFound, c) else (None, put k None c))\<rparr>"

lemma memory_stores:
  assumes wrap: "\<And>x. unwrap (wrap x) = Some x" "\<And>ob k. typed (K, k) ob \<Longrightarrow> \<exists>x. ob = wrap x"
    and typed: "\<And>x k. typed (K, k) (wrap x) \<longleftrightarrow> meta_key (meta x) = k"
    and adm: "\<And>x. meta_key (meta (adm x)) = meta_key (meta x)"
  shows "stores stored (memory_ops K wrap unwrap meta adm) K wrap meta adm"
  unfolding stores_def
proof (intro conjI allI impI)
  fix k c
  show "case objects (stored c) (K, k) of
      None \<Rightarrow> \<exists>w'. op_get (memory_ops K wrap unwrap meta adm) k c = (Inl NotFound, w') \<and> stored w' = stored c
    | Some ob \<Rightarrow> \<exists>x w'. ob = wrap x \<and> meta_key (meta x) = k \<and>
        op_get (memory_ops K wrap unwrap meta adm) k c = (Inr x, w') \<and> stored w' = stored c"
  proof (cases "objects (stored c) (K, k)")
    case (Some ob)
    then obtain x where "ob = wrap x" using stored_typed wrap(2) by blast
    moreover have "meta_key (meta x) = k" using stored_typed[OF Some] typed calculation by simp
    ultimately show ?thesis using Some wrap(1) by (simp add: memory_ops_def)
  qed (simp add: memory_ops_def)
qed (simp_all add: memory_ops_def Let_def typed adm stored_put)

text \<open>The server drops an empty list of host aliases.\<close>

definition drop_empty_aliases :: "pod_template \<Rightarrow> pod_template" where
  "drop_empty_aliases t = (if ps_HostAliases (pt_Spec t) = Some []
     then t\<lparr>pt_Spec := (pt_Spec t)\<lparr>ps_HostAliases := None\<rparr>\<rparr> else t)"

definition memory_admission :: admission where
  "memory_admission = \<lparr>ad_configmap = id, ad_secret = id, ad_service = id, ad_account = id,
     ad_deployment = (\<lambda>d. d\<lparr>d_Spec := (d_Spec d)\<lparr>ds_Template := drop_empty_aliases (ds_Template (d_Spec d))\<rparr>\<rparr>),
     ad_daemonset = (\<lambda>d. d\<lparr>dset_Spec := (dset_Spec d)
       \<lparr>dss_Template := drop_empty_aliases (dss_Template (dset_Spec d))\<rparr>\<rparr>),
     ad_job = id, ad_issuer = id, ad_cert = id\<rparr>"

definition memory_client :: "cluster client" where
  "memory_client =
     \<lparr>cl_configmaps = memory_ops KConfigMap OConfigMap (\<lambda>ob. case ob of OConfigMap x \<Rightarrow> Some x | _ \<Rightarrow> None)
        cm_Meta (ad_configmap memory_admission),
      cl_secrets = memory_ops KSecret OSecret (\<lambda>ob. case ob of OSecret x \<Rightarrow> Some x | _ \<Rightarrow> None)
        se_Meta (ad_secret memory_admission),
      cl_services = memory_ops KService OService (\<lambda>ob. case ob of OService x \<Rightarrow> Some x | _ \<Rightarrow> None)
        sv_Meta (ad_service memory_admission),
      cl_accounts = memory_ops KAccount OAccount (\<lambda>ob. case ob of OAccount x \<Rightarrow> Some x | _ \<Rightarrow> None)
        sa_Meta (ad_account memory_admission),
      cl_deployments = memory_ops KDeployment ODeployment (\<lambda>ob. case ob of ODeployment x \<Rightarrow> Some x | _ \<Rightarrow> None)
        d_Meta (ad_deployment memory_admission),
      cl_daemonsets = memory_ops KDaemonSet ODaemonSet (\<lambda>ob. case ob of ODaemonSet x \<Rightarrow> Some x | _ \<Rightarrow> None)
        dset_Meta (ad_daemonset memory_admission),
      cl_jobs = memory_ops KJob OJob (\<lambda>ob. case ob of OJob x \<Rightarrow> Some x | _ \<Rightarrow> None)
        j_Meta (ad_job memory_admission),
      cl_issuers = memory_ops KIssuer OIssuer (\<lambda>ob. case ob of OIssuer x \<Rightarrow> Some x | _ \<Rightarrow> None)
        i_Meta (ad_issuer memory_admission),
      cl_certs = memory_ops KCert OCert (\<lambda>ob. case ob of OCert x \<Rightarrow> Some x | _ \<Rightarrow> None)
        ct_Meta (ad_cert memory_admission),
      cl_list_pods = (\<lambda>ns sel c. (Inr [], c)),
      cl_delete_pod = (\<lambda>p c. (Some NotFound, c))\<rparr>"

lemma typed_kind:
  "typed (KConfigMap, k) ob \<Longrightarrow> \<exists>x. ob = OConfigMap x" "typed (KSecret, k) ob \<Longrightarrow> \<exists>x. ob = OSecret x"
  "typed (KService, k) ob \<Longrightarrow> \<exists>x. ob = OService x" "typed (KAccount, k) ob \<Longrightarrow> \<exists>x. ob = OAccount x"
  "typed (KDeployment, k) ob \<Longrightarrow> \<exists>x. ob = ODeployment x" "typed (KDaemonSet, k) ob \<Longrightarrow> \<exists>x. ob = ODaemonSet x"
  "typed (KJob, k) ob \<Longrightarrow> \<exists>x. ob = OJob x" "typed (KIssuer, k) ob \<Longrightarrow> \<exists>x. ob = OIssuer x"
  "typed (KCert, k) ob \<Longrightarrow> \<exists>x. ob = OCert x"
  by (cases ob; simp)+

lemma memory_stores_objects: "stores_objects stored memory_admission memory_client"
  unfolding stores_objects_def memory_client_def client.simps
  by (intro conjI memory_stores) (auto simp: memory_admission_def dest: typed_kind)

definition memory_common_status :: "CommonAudit \<Rightarrow> CommonAudit list \<Rightarrow> CommonAudit list" where
  "memory_common_status x = map (\<lambda>a. if meta_key (ca_Meta a) = meta_key (ca_Meta x)
     then a\<lparr>ca_Status := ca_Status x\<rparr> else a)"

definition memory_audit_status :: "AuditLogging \<Rightarrow> AuditLogging list \<Rightarrow> AuditLogging list" where
  "memory_audit_status x = map (\<lambda>a. if meta_key (al_Meta a) = meta_key (al_Meta x)
     then a\<lparr>al_Status := al_Status x\<rparr> else a)"

definition memory_audit_spec :: "AuditLogging \<Rightarrow> AuditLogging list \<Rightarrow> AuditLogging list" where
  "memory_audit_spec x = map (\<lambda>a. if meta_key (al_Meta a) = meta_key (al_Meta x)
     then a\<lparr>al_Spec := al_Spec x\<rparr> else a)"

definition memory_cr_client :: "cluster cr_client" where
  "memory_cr_client =
     \<lparr>cr_get_common = (\<lambda>k c. (case find (\<lambda>a. meta_key (ca_Meta a) = k) (commons c) of
         None \<Rightarrow> Inl NotFound | Some a \<Rightarrow> Inr a, c)),
      cr_status_common = (\<lambda>x c. (Inr x, c\<lparr>commons := memory_common_status x (commons c)\<rparr>)),
      cr_list_common = (\<lambda>ns c. (Inr (filter (\<lambda>a. ns = [] \<or> ca_Namespace a = ns) (commons c)), c)),
      cr_get_audit = (\<lambda>k c. (case find (\<lambda>a. meta_key (al_Meta a) = k) (audits c) of
         None \<Rightarrow> Inl NotFound | Some a \<Rightarrow> Inr a, c)),
      cr_update_audit = (\<lambda>x c. (None, c\<lparr>audits := memory_audit_spec x (audits c)\<rparr>)),
      cr_status_audit = (\<lambda>x c. (Inr x, c\<lparr>audits := memory_audit_status x (audits c)\<rparr>)),
      cr_list_audit = (\<lambda>c. (Inr (audits c), c)),
      cr_event = (\<lambda>e c. c)\<rparr>"

lemma stored_simps [simp]:
  "commons (stored c) = commons c" "audits (stored c) = audits c"
  "objects (stored (c\<lparr>commons := cs\<rparr>)) = objects (stored c)"
  "objects (stored (c\<lparr>audits := as\<rparr>)) = objects (stored c)"
  by (simp_all add: stored_def)

lemma memory_serves_common: "serves_common stored memory_cr_client"
  unfolding serves_common_def
  by (auto simp: memory_cr_client_def memory_common_status_def same_common_def list_all2_conv_all_nth
      split: option.splits)

lemma memory_serves_audit: "serves_audit stored memory_cr_client"
  unfolding serves_audit_def
  by (auto simp: memory_cr_client_def memory_audit_status_def same_audit_def list_all2_conv_all_nth
      split: option.splits)

lemma memory_updates_audit: "updates_audit stored memory_cr_client"
  by (auto simp: updates_audit_def memory_cr_client_def memory_audit_spec_def stores_spec_def list_all2_conv_all_nth)

text \<open>The reconciler of the examples.\<close>

definition memory_reconciler :: "string \<Rightarrow> cluster reconciler" where
  "memory_reconciler csNamespace =
     \<lparr>r_client = memory_client, r_cr = memory_cr_client,
      r_set_owner = (\<lambda>owner m. Inr (m\<lparr>m_OwnerReferences := [owner]\<rparr>)),
      r_env = [OperatorNamespaceKey \<mapsto> csNamespace], r_yaml = yaml_block, r_quantity = sample_quantity\<rparr>"

lemma memory_sets_owner: "sets_owner (r_set_owner (memory_reconciler ns))"
  unfolding sets_owner_def memory_reconciler_def by auto

lemma same_amounts_refl: "quantity_refl q \<Longrightarrow> same_amounts q a a"
  by (simp add: same_amounts_def quantity_refl_def)

lemma drop_empty_aliases_same: "quantity_refl q \<Longrightarrow> same_read_pods q (drop_empty_aliases t) t"
  by (simp add: drop_empty_aliases_def same_read_pods_def same_read_container_def same_amounts_refl
      list_all2_same)

lemma memory_respectful: "respectful sample_quantity memory_admission"
  unfolding respectful_def
  by (simp add: memory_admission_def drop_empty_aliases_same[OF sample_quantity_refl])

text \<open>It satisfies all laws.\<close>

lemma memory_lawful: "lawful stored memory_admission (memory_reconciler ns)"
  using memory_stores_objects memory_respectful memory_sets_owner yaml_block_literal
  by (simp add: lawful_def memory_reconciler_def)

lemma memory_serves:
  "serves_common stored (r_cr (memory_reconciler ns))" "serves_audit stored (r_cr (memory_reconciler ns))"
  using memory_serves_common memory_serves_audit by (simp_all add: memory_reconciler_def)

lemma memory_updates: "updates_audit stored (r_cr (memory_reconciler ns))"
  using memory_updates_audit by (simp add: memory_reconciler_def)

end
