(* ===== verification/CommonAuditConverges.thy ===== *)
theory CommonAuditConverges
  imports CommonAuditRounds MemoryServer
begin

text \<open>
  The rounds of \<open>CommonAuditReconciler.Reconcile\<close>: under the laws of the API server they end, and then
  every operand is in place.
\<close>

subsection \<open>The resource as it is read\<close>

text \<open>The methods read the name, the namespace and the spec of the resource, and nothing else.\<close>

definition core :: "CommonAudit \<Rightarrow> CommonAudit" where
  "core inst = new_common (ca_Name inst) (ca_Namespace inst)\<lparr>ca_Spec := ca_Spec inst\<rparr>"

lemma core_simps:
  "ca_Name (core inst) = ca_Name inst" "ca_Namespace (core inst) = ca_Namespace inst"
  "ca_Spec (core inst) = ca_Spec inst"
  by (simp_all add: core_def new_common_def)

lemma same_common_core: "same_common a b \<Longrightarrow> core a = core b"
  by (simp add: core_def same_common_def meta_key_def)

lemma BuildFluentdConfigMap_core: "BuildFluentdConfigMap yaml (core a) = BuildFluentdConfigMap yaml a"
  by (rule ext) (simp only: BuildFluentdConfigMap_def buildFluentdConfig_def buildFluentdSplunkConfig_def
      buildFluentdQRadarConfig_def core_simps)

lemma SIEMConfig_core:
  "EqualSIEMConfig (core a) = EqualSIEMConfig a" "UpdateSIEMConfig (core a) = UpdateSIEMConfig a"
  by (rule ext, simp only: EqualSIEMConfig_def UpdateSIEMConfig_def splunk_configs_def syslog_configs_def core_simps)+

lemma ca_config_drift_core: "ca_config_drift (core a) = ca_config_drift a"
  by (intro ext) (simp only: ca_config_drift_def SIEMConfig_core)

lemma ca_owner_core: "ca_owner (core a) = ca_owner a"
  by (simp only: ca_owner_def core_simps)

lemma BuildDeploymentForFluentd_core:
  "BuildDeploymentForFluentd env q (core a) = BuildDeploymentForFluentd env q a"
  by (rule ext) (simp only: BuildDeploymentForFluentd_def core_simps)

lemma ca_methods_core:
  "ca_reconcileConfig r (core a) = ca_reconcileConfig r a"
  "ca_reconcileIssuer r f (core a) = ca_reconcileIssuer r f a"
  "ca_reconcileRootCACert r (core a) = ca_reconcileRootCACert r a"
  "ca_reconcileAuditCertificate r (core a) = ca_reconcileAuditCertificate r a"
  "ca_reconcileSecret r (core a) = ca_reconcileSecret r a"
  "ca_reconcileServiceAccount r (core a) = ca_reconcileServiceAccount r a"
  "ca_reconcileService r (core a) = ca_reconcileService r a"
  "ca_reconcileFluentdDeployment r (core a) = ca_reconcileFluentdDeployment r a"
  by ((intro ext)?, simp only: ca_reconcileConfig_def ca_restartFluentdPods_def ca_reconcileIssuer_def
      ca_reconcileRootCACert_def ca_reconcileAuditCertificate_def ca_reconcileSecret_def BuildSecret_def
      ca_reconcileServiceAccount_def ca_reconcileService_def ca_reconcileFluentdDeployment_def
      core_simps ca_owner_core ca_config_drift_core BuildFluentdConfigMap_core BuildDeploymentForFluentd_core)+

lemma ca_steps_fun: "map snd (ca_steps r (core a)) = map snd (ca_steps r a)"
  by (simp add: ca_steps_def ca_parts_def comp_def ca_methods_core)

lemma ca_run_same:
  assumes "same_common a b"
  shows "run_reconcilers (map snd (ca_steps r b)) = run_reconcilers (map snd (ca_steps r a))"
  using ca_steps_fun[of r a] ca_steps_fun[of r b] same_common_core[OF assms] by simp

subsection \<open>One round\<close>

lemma serves_common_get:
  assumes "serves_common view c" "find (\<lambda>a. meta_key (ca_Meta a) = k) (commons (view w)) = Some a"
  obtains b w' where "cr_get_common c k w = (Inr b, w')" "same_common a b" "view w' = view w"
proof -
  have "case find (\<lambda>a. meta_key (ca_Meta a) = k) (commons (view w)) of
        None \<Rightarrow> (\<exists>w'. cr_get_common c k w = (Inl NotFound, w') \<and> view w' = view w)
      | Some a \<Rightarrow> (\<exists>b w'. cr_get_common c k w = (Inr b, w') \<and> same_common a b \<and> view w' = view w)"
    using assms(1) unfolding serves_common_def by blast
  with assms(2) that show ?thesis by auto
qed

lemma serves_common_status:
  assumes "serves_common view c" "a \<in> set (commons (view w))" "same_common a x"
  obtains b w' where "cr_status_common c x w = (Inr b, w')" "same_common x b" "ca_Status b = ca_Status x"
    "objects (view w') = objects (view w)" "audits (view w') = audits (view w)"
    "list_all2 same_common (commons (view w)) (commons (view w'))"
proof -
  have "\<exists>b w'. cr_status_common c x w = (Inr b, w') \<and> same_common x b \<and> ca_Status b = ca_Status x \<and>
           objects (view w') = objects (view w) \<and> audits (view w') = audits (view w) \<and>
           list_all2 same_common (commons (view w)) (commons (view w'))"
    using assms unfolding serves_common_def by blast
  with that show ?thesis by blast
qed

lemma serves_common_rest:
  assumes "serves_common view c"
  shows "\<exists>w'. cr_list_common c ns w =
        (Inr (filter (\<lambda>a. ns = [] \<or> ca_Namespace a = ns) (commons (view w))), w') \<and> view w' = view w"
    and "\<exists>w'. cr_list_audit c w = (Inr (audits (view w)), w') \<and> view w' = view w"
    and "view (cr_event c e w) = view w"
  using assms unfolding serves_common_def by blast+

lemma find_same_common:
  assumes "list_all2 same_common as bs" "find (\<lambda>a. meta_key (ca_Meta a) = k) as = Some a"
  shows "\<exists>b. find (\<lambda>a. meta_key (ca_Meta a) = k) bs = Some b \<and> same_common a b"
  using assms by (induction rule: list_all2_induct) (auto simp: same_common_def split: if_splits)

lemma filter_same_common:
  "list_all2 same_common as bs \<Longrightarrow>
   length (filter (\<lambda>a. ns = [] \<or> ca_Namespace a = ns) as) = length (filter (\<lambda>a. ns = [] \<or> ca_Namespace a = ns) bs)"
  by (induction rule: list_all2_induct) (auto simp: same_common_def meta_key_def)

lemma ca_admitted_status:
  assumes "ca_admitted r inst req c" "list_all2 same_common (commons c) (commons c')" "audits c' = audits c"
  shows "ca_admitted r inst req c'"
proof -
  obtain a where a: "find (\<lambda>a. meta_key (ca_Meta a) = req) (commons c) = Some a" "same_common inst a"
    using assms(1) by (auto simp: ca_admitted_def)
  from find_same_common[OF assms(2) a(1)] obtain b where
    "find (\<lambda>a. meta_key (ca_Meta a) = req) (commons c') = Some b" "same_common inst b"
    using same_common_trans[OF a(2)] by blast
  then show ?thesis
    using assms(1,3) filter_same_common[OF assms(2), of "key_ns req"] by (auto simp: ca_admitted_def)
qed

text \<open>Requests that read or write the resource itself keep the invariant.\<close>

lemma ca_inv_status:
  assumes "ca_inv view ad r inst req c0 (w, g)" "objects (view w') = objects (view w)"
    "audits (view w') = audits (view w)" "list_all2 same_common (commons (view w)) (commons (view w'))"
  shows "ca_inv view ad r inst req c0 (w', g)"
  using assms steps_objects(1)[of view w' w] ca_admitted_status[of r inst req "view w" "view w'"]
    same_resources_common[of c0 "view w" "view w'"]
  by (simp add: ca_inv_def others_kept_def)

lemma ca_inv_view:
  assumes "ca_inv view ad r inst req c0 (w, g)" "view w' = view w"
  shows "ca_inv view ad r inst req c0 (w', g)"
  using assms steps_objects(1)[of view w' w] by (simp add: ca_inv_def)

lemma ca_status_request:
  assumes inv: "ca_inv view ad r inst req c0 (w, g)" and serves: "serves_common view (r_cr r)"
    and x: "same_common inst x"
  obtains b w' where "cr_status_common (r_cr r) x w = (Inr b, w')" "same_common inst b"
    "objects (view w') = objects (view w)" "ca_inv view ad r inst req c0 (w', g)"
proof -
  obtain a where a: "find (\<lambda>a. meta_key (ca_Meta a) = req) (commons (view w)) = Some a" "same_common inst a"
    using inv by (auto simp: ca_inv_def ca_admitted_def)
  then have "a \<in> set (commons (view w))" by (auto simp: find_Some_iff)
  moreover have "same_common a x" using same_common_trans[OF same_common_sym[OF a(2)] x] .
  ultimately obtain b w' where b: "cr_status_common (r_cr r) x w = (Inr b, w')" "same_common x b"
      "objects (view w') = objects (view w)" "audits (view w') = audits (view w)"
      "list_all2 same_common (commons (view w)) (commons (view w'))"
    using serves_common_status[OF serves] by metis
  show ?thesis
    by (rule that[OF b(1) same_common_trans[OF x b(2)] b(3) ca_inv_status[OF inv b(3-5)]])
qed

text \<open>The way to the methods: the resource is found, gets its default status and is admitted.\<close>

lemma ca_check_passes:
  assumes inv: "ca_inv view ad r inst req c0 (w, g)" and serves: "serves_common view (r_cr r)"
  obtains w' where "ca_check_and_run r req b (w, g) = ca_run r b (w', g)" "view w' = view w"
proof -
  obtain cs where cs: "GetCSNamespace (r_env r) = Inr cs" "audits (view w) = [] \<or> key_ns req \<noteq> cs"
    and one: "length (filter (\<lambda>a. key_ns req = [] \<or> ca_Namespace a = key_ns req) (commons (view w))) \<le> 1"
    using inv by (auto simp: ca_inv_def ca_admitted_def)
  obtain w1 where w1: "cr_list_audit (r_cr r) w = (Inr (audits (view w)), w1)" "view w1 = view w"
    using serves_common_rest(2)[OF serves, of w] by blast
  obtain w2 where w2: "cr_list_common (r_cr r) (key_ns req) w1 =
      (Inr (filter (\<lambda>a. key_ns req = [] \<or> ca_Namespace a = key_ns req) (commons (view w))), w2)" "view w2 = view w"
    using serves_common_rest(1)[OF serves, of "key_ns req" w1] w1(2) by metis
  let ?w3 = "ca_updateEvent r b ''Instance found'' EventTypeNormal ''Initializing'' w2"
  have "ca_check_and_run r req b (w, g) = ca_run r b (?w3, g)"
    using one w1(1) w2(1) cs by (auto simp: ca_check_and_run_def)
  then show ?thesis
    by (rule that) (simp add: ca_updateEvent_def serves_common_rest(3)[OF serves] w2(2))
qed

text \<open>What the round works with: the resource as it is read, or as the server stored its default status.\<close>

definition ca_fetched :: "'w reconciler \<Rightarrow> nsname \<Rightarrow> 'w \<Rightarrow> CommonAudit \<Rightarrow> 'w \<Rightarrow> bool" where
  "ca_fetched r req w b v \<longleftrightarrow>
     (\<exists>b1 w1. cr_get_common (r_cr r) req w = (Inr b1, w1) \<and>
        (if length (elems (ca_Nodes (ca_Status b1))) = 0
         then cr_status_common (r_cr r) (ca_default_status b1) w1 = (Inr b, v) \<and> same_common b1 b
         else b = b1 \<and> v = w1))"

lemma ca_fetch:
  assumes inv: "ca_inv view ad r inst req c0 (w, g)" and serves: "serves_common view (r_cr r)"
  obtains b v w' where "ca_Reconcile r req (w, g) = ca_run r b (w', g)" "same_common inst b"
    "objects (view w') = objects (view w)" "ca_inv view ad r inst req c0 (w', g)"
    "ca_fetched r req w b v" "view w' = view v"
proof -
  obtain a where a: "find (\<lambda>a. meta_key (ca_Meta a) = req) (commons (view w)) = Some a" "same_common inst a"
    using inv by (auto simp: ca_inv_def ca_admitted_def)
  obtain b w1 where b: "cr_get_common (r_cr r) req w = (Inr b, w1)" "same_common a b" "view w1 = view w"
    using serves_common_get[OF serves a(1)] by metis
  have same: "same_common inst b" using same_common_trans[OF a(2) b(2)] .
  note inv1 = ca_inv_view[OF inv b(3)]
  show ?thesis
  proof (cases "length (elems (ca_Nodes (ca_Status b))) = 0")
    case True
    have "same_common inst (ca_default_status b)"
      using same by (simp add: same_common_def ca_default_status_def)
    from ca_status_request[OF inv1 serves this] obtain b2 w2 where
      b2: "cr_status_common (r_cr r) (ca_default_status b) w1 = (Inr b2, w2)" "same_common inst b2"
        "objects (view w2) = objects (view w1)" "ca_inv view ad r inst req c0 (w2, g)" .
    obtain w3 where w3: "ca_check_and_run r req b2 (w2, g) = ca_run r b2 (w3, g)" "view w3 = view w2"
      using ca_check_passes[OF b2(4) serves] .
    have fetched: "ca_fetched r req w b2 w2"
      using True b(1) b2(1) same_common_trans[OF same_common_sym[OF same] b2(2)] by (auto simp: ca_fetched_def)
    show ?thesis
      by (rule that[OF _ b2(2) _ ca_inv_view[OF b2(4) w3(2)] fetched w3(2)])
        (use True b b2 w3 in \<open>simp_all add: ca_Reconcile_def\<close>)
  next
    case False
    obtain w3 where w3: "ca_check_and_run r req b (w1, g) = ca_run r b (w3, g)" "view w3 = view w1"
      using ca_check_passes[OF inv1 serves] .
    have fetched: "ca_fetched r req w b w1" using False b(1) by (auto simp: ca_fetched_def)
    show ?thesis
      by (rule that[OF _ same _ ca_inv_view[OF inv1 w3(2)] fetched w3(2)])
        (use False b w3 in \<open>simp_all add: ca_Reconcile_def\<close>)
  qed
qed

lemma ca_entry:
  assumes "ca_inv view ad r inst req c0 (w, g)" "serves_common view (r_cr r)"
  obtains b w' where "ca_Reconcile r req (w, g) = ca_run r b (w', g)" "same_common inst b"
    "objects (view w') = objects (view w)" "ca_inv view ad r inst req c0 (w', g)"
  using ca_fetch[OF assms] by metis

text \<open>The end of a quiet round: the status and the last event.\<close>

lemma ca_status_quiet:
  assumes inv: "ca_inv view ad r inst req c0 (w, g)" and serves: "serves_common view (r_cr r)"
    and same: "same_common inst b"
  obtains w' where "ca_updateStatus r b w = (Done, w')" "objects (view w') = objects (view w)"
    "ca_inv view ad r inst req c0 (w', g)"
proof -
  have "lawful view ad r" using inv by (simp add: ca_inv_def)
  then obtain pods w1 where
    w1: "cl_list_pods (r_client r) (ca_Namespace b) (LabelsForSelector FluentdName (ca_Name b)) w = (Inr pods, w1)"
      "view w1 = view w"
    unfolding lawful_def stores_objects_def by metis
  note inv1 = ca_inv_view[OF inv w1(2)]
  have "same_common inst (b\<lparr>ca_Status := st\<rparr>)" for st
    using same by (simp add: same_common_def)
  from ca_status_request[OF inv1 serves this] obtain b2 w2 where
    w2: "cr_status_common (r_cr r) (b\<lparr>ca_Status := \<lparr>ca_Nodes = status_nodes pods,
        ca_Versions = \<lparr>Reconciled = opversion\<rparr>\<rparr>\<rparr>) w1 = (Inr b2, w2)"
      "objects (view w2) = objects (view w1)" "ca_inv view ad r inst req c0 (w2, g)" .
  show ?thesis
    by (rule that[of "if status_nodes pods \<noteq> ca_Nodes (ca_Status b)
        \<or> opversion \<noteq> Reconciled (ca_Versions (ca_Status b)) then w2 else w1"])
      (use w1 w2 inv1 in \<open>simp_all add: ca_updateStatus_def Let_def\<close>)
qed

subsection \<open>Rounds\<close>

lemma ca_total_objects:
  assumes "objects (view (fst s')) = objects (view (fst s))"
  shows "ca.total r inst view s' = ca.total r inst view s"
  using steps_objects(2)[of view "fst s'" "fst s" _ _ "snd s'" "snd s", OF assms]
  by (simp add: ca.total_def cong: map_cong)

lemma ca_round:
  assumes inv: "ca_inv view ad r inst req c0 s" and serves: "serves_common view (r_cr r)"
  shows "\<exists>s0. ca_inv view ad r inst req c0 s0 \<and> ca.total r inst view s0 = ca.total r inst view s \<and>
    (\<forall>res s1. run_reconcilers (map snd (ca_steps r inst)) s0 = (res, s1) \<longrightarrow> ca_inv view ad r inst req c0 s1 \<longrightarrow>
       (\<exists>s'. ca_Reconcile r req s = (res, s') \<and> ca_inv view ad r inst req c0 s' \<and>
          ca.total r inst view s' = ca.total r inst view s1))"
proof -
  obtain w g where s: "s = (w, g)" by (cases s)
  obtain b w0 where entry: "ca_Reconcile r req s = ca_run r b (w0, g)" and b: "same_common inst b"
    and w0: "objects (view w0) = objects (view w)" "ca_inv view ad r inst req c0 (w0, g)"
    using ca_entry[OF inv[unfolded s] serves] unfolding s by blast
  have "\<exists>s'. ca_Reconcile r req s = (res, s') \<and> ca_inv view ad r inst req c0 s' \<and>
      ca.total r inst view s' = ca.total r inst view s1"
    if s1: "run_reconcilers (map snd (ca_steps r inst)) (w0, g) = (res, s1)" "ca_inv view ad r inst req c0 s1" for res s1
  proof -
    obtain w1 g1 where s1': "s1 = (w1, g1)" by (cases s1)
    obtain w2 where w2: "ca_updateStatus r b w1 = (Done, w2)" "objects (view w2) = objects (view w1)"
        "ca_inv view ad r inst req c0 (w2, g1)"
      using ca_status_quiet[OF s1(2)[unfolded s1'] serves b] .
    let ?w3 = "ca_updateEvent r b msg_deployed EventTypeNormal ''Deployed'' w2"
    have w3: "view ?w3 = view w2" by (simp add: ca_updateEvent_def serves_common_rest(3)[OF serves])
    have "run_reconcilers (ca_reconcilers r b) (w0, g) = (if stops res then (res, s1) else (Done, (w2, g1)))"
      by (rule run_and_finish[OF ca_reconcilers_flat])
        (simp_all add: s1[unfolded ca_run_same[OF b, symmetric]] s1' lift_world_def w2(1))
    then have run: "ca_run r b (w0, g) = (if stops res then (res, s1) else (Done, (?w3, g1)))"
      by (simp add: ca_run_def s1' stops_def)
    show ?thesis
    proof (cases "stops res")
      case True
      then show ?thesis using run entry s1(2) by simp
    next
      case False
      have "ca.total r inst view (?w3, g1) = ca.total r inst view s1"
        using ca_total_objects[of view "(?w3, g1)" s1] w2(2) w3 by (simp add: s1')
      moreover have "res = Done" using False by (simp add: stops_def)
      ultimately show ?thesis
        using run entry False ca_inv_view[OF w2(3) w3] by simp
    qed
  qed
  moreover have "ca.total r inst view (w0, g) = ca.total r inst view s"
    using ca_total_objects[of view "(w0, g)" s] w0(1) by (simp add: s)
  ultimately show ?thesis using w0(2) by blast
qed

subsection \<open>Everything in place\<close>

text \<open>
  The ConfigMap of that name is in the cluster and needs no repair; the object with the key of \<open>e\<close> is
  there and as \<open>e\<close> wants it.
\<close>

definition config_in_place :: "'w reconciler \<Rightarrow> CommonAudit \<Rightarrow> cluster \<Rightarrow> string \<Rightarrow> bool" where
  "config_in_place r inst c name \<longleftrightarrow>
     (\<exists>e cm. BuildFluentdConfigMap (r_yaml r) inst name = Inr e \<and>
        objects c (KConfigMap, NamespacedName (ca_Namespace inst) name) = Some (OConfigMap cm) \<and>
        ca_config_drift inst name e cm = InSync)"

definition issuer_in_place :: "cluster \<Rightarrow> issuer \<Rightarrow> bool" where
  "issuer_in_place c e \<longleftrightarrow>
     (\<exists>x. objects c (KIssuer, meta_key (i_Meta e)) = Some (OIssuer x) \<and> i_Spec x = i_Spec e)"

definition common_in_place :: "'w reconciler \<Rightarrow> CommonAudit \<Rightarrow> cluster \<Rightarrow> bool" where
  "common_in_place r inst c \<longleftrightarrow>
     (let ns = ca_Namespace inst
      in (\<forall>name \<in> set FluentdConfigMaps. config_in_place r inst c name) \<and>
         issuer_in_place c (BuildGodIssuer ns) \<and> cert_in_place c (BuildRootCACert ns) \<and>
         issuer_in_place c (BuildRootCAIssuer ns) \<and> cert_in_place c (expected_https_cert inst) \<and>
         (\<exists>x. objects c (KSecret, NamespacedName ns AuditLoggingClientCertSecName) = Some (OSecret x)) \<and>
         (\<exists>x. objects c (KAccount, NamespacedName ns OperandServiceAccount) = Some (OAccount x)) \<and>
         (\<exists>x. objects c (KService, NamespacedName ns AuditLoggingComponentName) = Some (OService x) \<and>
            sv_Ports x = sv_Ports (BuildAuditService (ca_Name inst) ns)) \<and>
         (\<exists>x. objects c (KDeployment, NamespacedName ns FluentdDeploymentName) = Some (ODeployment x) \<and>
            EqualDeployments (r_quantity r) (expected_fluentd r inst) x False = Some True))"

lemma ca_rank_bound:
  assumes "g \<in> set (ca_gauges r inst)" "value_wf g v"
  shows "value_rank g v \<le> 4"
proof -
  have "value_rank (config_gauge inst name e) v \<le> 4" if "value_wf (config_gauge inst name e) v" for name e
  proof (cases v)
    case (Some ob)
    then show ?thesis
      using that config_no_error[of inst name]
      by (auto simp: config_gauge_def config_rank_def config_wf_def split: kobject.splits drift.splits)
  qed (simp add: config_gauge_def)
  then show ?thesis
    using assms
    by (auto simp: ca_gauges_def ca_parts_def issuer_gauge_def cert_gauge_def secret_gauge_def account_gauge_def
        service_gauge_def fluentd_gauge_def order_trans[OF object_rank_bound])
qed

lemma ca_total_bound:
  assumes "ca_inv view ad r inst req c0 s"
  shows "ca.total r inst view s \<le> 52"
proof -
  note keys = ca_steps_keys[of r inst]
  have "steps_rank view (ca_gauges r inst) k s \<le> 4" if "k \<in> set (map fst (ca_steps r inst))" for k
  proof -
    obtain g where g: "g \<in> set (ca_gauges r inst)" "k = g_key g" using \<open>k \<in> _\<close> by (auto simp: keys)
    moreover have "value_wf g (objects (view (fst s)) (g_key g))"
      using assms g by (simp add: ca_inv_def steps_wf_def)
    ultimately show ?thesis using ca_rank_bound steps_rank_gauge[OF ca_keys_distinct] by metis
  qed
  then have "ca.total r inst view s \<le> (\<Sum>k \<leftarrow> map fst (ca_steps r inst). 4)"
    unfolding ca.total_def by (intro sum_list_mono)
  also have "\<dots> = 52" by (simp add: ca_steps_def ca_parts_def FluentdConfigMaps_def)
  finally show ?thesis .
qed

lemma ca_settled_in_place:
  assumes inv: "ca_inv view ad r inst req c0 s" and settled: "ca.settled r inst view s"
  shows "common_in_place r inst (view (fst s))"
proof -
  let ?c = "view (fst s)"
  have zero: "value_rank g (objects ?c (g_key g)) = 0" if "g \<in> set (ca_gauges r inst)" for g
  proof -
    have "g_key g \<in> fst ` set (ca_steps r inst)"
      using that by (force simp: ca_gauges_def ca_steps_def)
    then have "steps_rank view (ca_gauges r inst) (g_key g) s = 0"
      using settled unfolding ca.settled_def by blast
    then show ?thesis using steps_rank_gauge[OF ca_keys_distinct that, of view s] by simp
  qed
  have yaml: "yaml_literal (r_yaml r)" "values_ok inst" using inv by (simp_all add: ca_inv_def lawful_def)
  have config: "config_in_place r inst ?c name" if name: "name \<in> set FluentdConfigMaps" for name
  proof -
    let ?g = "config_gauge inst name (expected_config r inst name)"
    have e: "BuildFluentdConfigMap (r_yaml r) inst name = Inr (expected_config r inst name)"
      using BuildFluentdConfigMap_total[OF yaml name] by (auto simp: expected_config_def)
    have g: "?g \<in> set (ca_gauges r inst)" using name by (simp add: ca_gauges_def ca_parts_def)
    have "value_wf ?g (objects ?c (g_key ?g))" using inv g by (simp add: ca_inv_def steps_wf_def)
    with zero[OF g] obtain ob where ob: "objects ?c (g_key ?g) = Some ob" "config_wf inst name ob"
        "config_rank inst name (expected_config r inst name) ob = 0"
      by (cases "objects ?c (g_key ?g)") (auto simp: config_gauge_def)
    then obtain cm where "ob = OConfigMap cm" by (auto simp: config_wf_def split: kobject.splits)
    then show ?thesis
      using e ob config_rank_0 by (auto simp: config_in_place_def config_gauge_def)
  qed
  have mem: "issuer_gauge (BuildGodIssuer (ca_Namespace inst)) \<in> set (ca_gauges r inst)"
      "cert_gauge (BuildRootCACert (ca_Namespace inst)) \<in> set (ca_gauges r inst)"
      "issuer_gauge (BuildRootCAIssuer (ca_Namespace inst)) \<in> set (ca_gauges r inst)"
      "cert_gauge (expected_https_cert inst) \<in> set (ca_gauges r inst)" "secret_gauge inst \<in> set (ca_gauges r inst)"
      "account_gauge inst \<in> set (ca_gauges r inst)" "service_gauge (BuildAuditService (ca_Name inst) (ca_Namespace inst)) \<in> set (ca_gauges r inst)"
      "fluentd_gauge r inst \<in> set (ca_gauges r inst)"
    by (simp_all add: ca_gauges_def ca_parts_def)
  note rest = mem[THEN zero, unfolded issuer_gauge_def cert_gauge_def secret_gauge_def account_gauge_def
      service_gauge_def fluentd_gauge_def object_gauge_simps(1) object_in_place service_key]
  show ?thesis
    unfolding common_in_place_def Let_def issuer_in_place_def cert_in_place_def
    using config rest by blast
qed

text \<open>From the invariant to the goal.\<close>

lemma ca_reaches:
  assumes inv: "ca_inv view ad r inst req c0 s" and serves: "serves_common view (r_cr r)"
  shows "\<exists>s'. rounds 53 (ca_Reconcile r req) s = Some (Done, s') \<and> ca_inv view ad r inst req c0 s' \<and>
    common_in_place r inst (view (fst s'))"
proof -
  have "ca.total r inst view s < 53" using ca_total_bound[OF inv] by linarith
  then show ?thesis using ca.rounds_last[OF ca_round[OF _ serves] inv] ca_settled_in_place by blast
qed

subsection \<open>Properties\<close>

text \<open>C3: The controller of CommonAudit converges. When the one resource of its namespace is admitted, its
  values are printable, its host aliases usable, and the operands that exist already are readable, then
  Reconcile, run again as long as it asks to be, ends without an error after at most 53 rounds, whatever is
  missing or has been changed; then every operand is in place: the ConfigMaps need no repair, issuers,
  certificates, secret, service account and service are there as they are built, and the comparison
  accepts the fluentd deployment. No object but these operands is touched, and of the
  resources only the status.\<close>

theorem common_audit_converges:
  assumes "lawful view ad r" "serves_common view (r_cr r)"
    and "values_ok inst" "usable_aliases inst" "ca_admitted r inst req (view w)"
    and "steps_wf view (ca_gauges r inst) w" "built g"
  shows "\<exists>w' g'. rounds 53 (ca_Reconcile r req) (w, g) = Some (Done, (w', g')) \<and>
    common_in_place r inst (view w') \<and> others_kept (ca_gauges r inst) (view w) (view w')"
proof -
  have inv: "ca_inv view ad r inst req (view w) (w, g)"
    using assms by (simp add: ca_inv_def others_kept_def)
  from ca_reaches[OF this assms(2)] show ?thesis by (auto simp: ca_inv_def)
qed

text \<open>A cluster with one resource and a service whose ports somebody has removed.\<close>

definition sample_common :: CommonAudit where
  "sample_common = (let c = new_common ''ca'' ''ns'' in c\<lparr>ca_Spec := (ca_Spec c)\<lparr>ca_Outputs :=
     (ca_Outputs (ca_Spec c))\<lparr>Splunk := zero_splunk\<lparr>sk_EnableSIEM := True, sk_Host := ''splunk.example'',
       sk_Port := 8088, sk_Token := ''token''\<rparr>\<rparr>\<rparr>\<rparr>)"

definition sample_cluster :: cluster where
  "sample_cluster =
     \<lparr>objects = [(KService, NamespacedName ''ns'' AuditLoggingComponentName) \<mapsto>
        OService ((BuildAuditService ''ca'' ''ns'')\<lparr>sv_Ports := None\<rparr>)],
      commons = [sample_common], audits = []\<rparr>"

text \<open>It satisfies every hypothesis.\<close>

lemma sample_usable: "values_ok sample_common" "usable_aliases sample_common"
  by (simp_all add: sample_common_def new_common_def zero_common_spec_def zero_splunk_def zero_syslog_def
      Let_def values_ok_def value_ok_def plain_value_def printable_def nl_def usable_aliases_def build_host_aliases_def)

lemma sample_admitted:
  "ca_admitted (memory_reconciler ''cs'') sample_common (NamespacedName ''ns'' ''ca'') (stored sample_cluster)"
  by (simp add: ca_admitted_def sample_cluster_def sample_common_def new_common_def Let_def meta_key_def
      same_common_def memory_reconciler_def GetCSNamespace_def zero_meta_def)

lemma sample_readable: "steps_wf stored (ca_gauges (memory_reconciler ''cs'') sample_common) sample_cluster"
  by (auto simp: steps_wf_def stored_def sample_cluster_def ca_gauges_def ca_parts_def config_gauge_def
      issuer_gauge_def cert_gauge_def secret_gauge_def account_gauge_def service_gauge_def fluentd_gauge_def
      value_wf_def split: option.splits)

theorem common_audit_converges_witness:
  "\<exists>c g. rounds 53 (ca_Reconcile (memory_reconciler ''cs'') (NamespacedName ''ns'' ''ca''))
      (sample_cluster, init_globals) = Some (Done, (c, g)) \<and>
    common_in_place (memory_reconciler ''cs'') sample_common (stored c) \<and>
    others_kept (ca_gauges (memory_reconciler ''cs'') sample_common) (stored sample_cluster) (stored c)"
  by (rule common_audit_converges[OF memory_lawful memory_serves(1) sample_usable sample_admitted sample_readable built.init])

end
