(* ===== verification/OutputPlugins.thy ===== *)
theory OutputPlugins
  imports FreshConfig
begin

text \<open>
  The output plugin files of an \<open>AuditLogging\<close>: how BuildWithSIEMConfigs carries the settings of a
  customer over to the current match tags. The settings are the lines between the line of the tags and
  the closing \<open></match>\<close>.
\<close>

subsection \<open>The expression between the tags\<close>

lemma alts_Many_all:
  "alts (Many p) s = map (\<lambda>k. ([], drop k s)) (rev [0..<Suc (length (takeWhile p s))])"
proof (induction s)
  case (Cons c cs)
  show ?case
  proof (cases "p c")
    case True
    have "[0..<Suc (length (takeWhile p (c # cs)))] = 0 # map Suc [0..<Suc (length (takeWhile p cs))]"
      using True by (metis length_Cons map_Suc_upt takeWhile.simps(2) upt_conv_Cons zero_less_Suc)
    then show ?thesis using True Cons by (simp add: rev_map comp_def del: upt_Suc)
  qed simp
qed simp

lemma concat_first:
  assumes "\<And>k. k0 < k \<Longrightarrow> k \<le> n \<Longrightarrow> f k = []" "k0 \<le> n" "f k0 = [x]"
  shows "\<exists>ys. concat (map f (rev [0..<Suc n])) = x # ys"
proof -
  have "[0..<Suc n] = [0..<k0] @ k0 # [Suc k0..<Suc n]"
    using assms(2) by (metis le_imp_less_Suc less_imp_le_nat upt_add_eq_append upt_conv_Cons add_0 le_add_diff_inverse zero_le)
  moreover have none: "concat (map f (rev [Suc k0..<Suc n])) = []"
    using assms(1) by auto
  ultimately have "concat (map f (rev [0..<Suc n])) = x # concat (map f (rev [0..<k0]))"
    using assms(3) by (simp only: rev_append rev.simps map_append concat_append list.map concat.simps append_assoc append_Nil append_Cons)
  then show ?thesis by blast
qed

lemma group_longest:
  assumes t: "t = body @ l @ rest" "body \<noteq> []" "list_all p body"
    and last: "\<And>k. length body < k \<Longrightarrow> take (length l) (drop k t) \<noteq> l"
  shows "\<exists>ys. alts (Cat (Group (Many1 p)) (Lit l)) t = ([body], rest) # ys"
proof -
  obtain c b where body: "body = c # b" using t(2) by (cases body) auto
  let ?cs = "b @ l @ rest"
  let ?n = "length (takeWhile p ?cs)"
  let ?f = "\<lambda>k. if take (length l) (drop k ?cs) = l
    then [([take (length t - length (drop k ?cs)) t], drop (length l) (drop k ?cs))] else []"
  have p: "p c" "list_all p b" using t(3) by (simp_all add: body)
  have alts: "alts (Cat (Group (Many1 p)) (Lit l)) t = concat (map ?f (rev [0..<Suc ?n]))"
    using p(1) by (simp add: t(1) body alts_Many_all comp_def if_distrib[where f = "map g" for g] cong: if_cong del: upt_Suc)
  have "takeWhile p ?cs = b @ takeWhile p (l @ rest)" using p(2) by (simp add: list_all_iff)
  then have n: "length b \<le> ?n" by simp
  have "take (length l) (drop k ?cs) \<noteq> l" if "length b < k" for k
    using last[of "Suc k"] that by (simp add: t(1) body)
  then have none: "?f k = []" if "length b < k" for k using that by simp
  have "?f (length b) = [([body], rest)]" by (simp add: t(1) body)
  then show ?thesis unfolding alts by (intro concat_first[OF none n])
qed

text \<open>The match begins at the first end of a line of tags and ends before the last \<open><\<close> at a line start.\<close>

lemma between_tags:
  assumes body: "body \<noteq> []" "CHR '']'' \<notin> set body" and pre: "CHR ''>'' \<notin> set pre"
    and rest: "\<not> contains rest (newline @ ''<'')"
  shows "\<exists>m. FindStringSubmatch re_between_tags (pre @ ''>'' @ newline @ body @ newline @ ''<'' @ rest) = [m, body]"
proof -
  let ?t = "body @ (newline @ ''<'') @ rest"
  let ?s = "''>'' @ newline @ ?t"
  have last: "take (length (newline @ ''<'')) (drop k ?t) \<noteq> newline @ ''<''" if k: "length body < k" for k
  proof
    assume h: "take (length (newline @ ''<'')) (drop k ?t) = newline @ ''<''"
    obtain j where j: "k = length body + Suc j" using k by (metis less_imp_Suc_add add_Suc_right)
    have "drop k ?t = drop j (''<'' @ rest)" by (simp add: j)
    from h[unfolded this] have "take 2 (drop j (''<'' @ rest)) = newline @ ''<''" by (simp add: eval_nat_numeral)
    then obtain i where "take 2 (drop i rest) = newline @ ''<''"
      by (cases j) (auto simp: nl_def eval_nat_numeral split: list.splits)
    then have "rest = take i rest @ (newline @ ''<'') @ drop 2 (drop i rest)"
      by (metis append_take_drop_id)
    then show False using rest contains_iff by metis
  qed
  obtain ys where "alts (Cat (Group (Many1 (\<lambda>c. c \<noteq> CHR '']''))) (Lit (newline @ ''<''))) ?t = ([body], rest) # ys"
    using group_longest[of ?t body "newline @ ''<''" rest "\<lambda>c. c \<noteq> CHR '']''", OF refl body(1) _ last] body(2)
    unfolding list_all_iff by blast
  then obtain m where "match_here re_between_tags ?s = Some (m, [body], rest)"
    by (simp add: match_here_def re_between_tags_def)
  then have "find_match re_between_tags ?s = Some ([], m, [body], rest)"
    by (subst find_match.simps) simp
  then have "find_match re_between_tags (pre @ ?s) = Some (pre, m, [body], rest)"
    using pre
  proof (induction pre)
    case (Cons c pre)
    have "match_here re_between_tags ((c # pre) @ ?s) = None"
      using Cons.prems by (auto simp: match_here_def re_between_tags_def)
    then show ?case using Cons by (subst find_match.simps) auto
  qed simp
  then show ?thesis by (simp add: FindStringSubmatch_def)
qed

lemma FindStringSubmatch_Lit: "FindStringSubmatch (Lit l) s = (if contains s l then [l] else [])"
proof -
  have "find_match (Lit l) s = map_option (\<lambda>(a, b). (a, l, [], b)) (cut l s)"
  proof (induction s)
    case Nil
    show ?case by (subst find_match.simps, subst cut.simps) (auto simp: match_here_def)
  next
    case (Cons c s)
    have "match_here (Lit l) (c # s) =
        (if take (length l) (c # s) = l then Some (l, [], drop (length l) (c # s)) else None)"
    proof (cases "take (length l) (c # s) = l")
      case True
      then obtain r where "c # s = l @ r" by (metis append_take_drop_id)
      then show ?thesis by (simp add: match_here_def)
    qed (simp add: match_here_def)
    then show ?case using Cons
      by (subst find_match.simps, subst cut.simps) (simp split: option.splits)
  qed
  then show ?thesis by (auto simp: FindStringSubmatch_def contains_def split: option.splits)
qed

subsection \<open>Carrying the settings over\<close>

text \<open>The text of an output plugin file: the line of the match tags, the settings, the closing line.\<close>

definition plugin_text :: "string \<Rightarrow> string list \<Rightarrow> string" where
  "plugin_text tags body = join_lines ((''<match '' @ tags @ ''>'') # body @ [''</match>''])"

definition current_tags :: string where
  "current_tags = ''icp-audit icp-audit.** syslog syslog.**''"

definition settings_lines :: "string list \<Rightarrow> bool" where
  "settings_lines body \<longleftrightarrow> body \<noteq> [] \<and>
     list_all (\<lambda>l. printable l \<and> list_ex (\<lambda>c. c \<noteq> CHR '' '') l \<and> CHR '']'' \<notin> set l) body"

text \<open>
  A file as an earlier release left it: any tags, the settings, and after them nothing, the end of the
  line or, in the file for QRadar, the section of the Kubernetes audit log.
\<close>

definition older_file :: "configmap \<Rightarrow> string \<Rightarrow> string list \<Rightarrow> string \<Rightarrow> bool" where
  "older_file found tags body rest \<longleftrightarrow> siem_text found = plugin_text tags body @ rest \<and> CHR ''>'' \<notin> set tags \<and>
     (is_splunk found \<and> \<not> contains (''/match>'' @ rest) (newline @ ''<'') \<or>
      \<not> is_splunk found \<and> \<not> contains (plugin_text tags body @ newline) ''<match kube-audit>'' \<and>
      (rest = [] \<or> rest = newline \<or> (\<exists>x. rest = newline @ ''<match kube-audit>'' @ x)))"

lemma indent_lines_join: "indent_lines 1 ls = join_lines (map (\<lambda>l. ''    '' @ l) ls)"
  by (induction "1 :: nat" ls rule: indent_lines.induct) (simp_all add: yamlLine_def Repeat_def eval_nat_numeral)

lemma plugin_text_eq:
  "body \<noteq> [] \<Longrightarrow> plugin_text tags body @ rest =
     (''<match '' @ tags) @ ''>'' @ newline @ join_lines body @ newline @ ''<'' @ (''/match>'' @ rest)"
proof -
  assume "body \<noteq> []"
  have snoc: "join_lines (xs @ [y]) = join_lines xs @ newline @ y" if "xs \<noteq> []" for xs y
    using that by (induction xs rule: induct_list012) auto
  show ?thesis using \<open>body \<noteq> []\<close> by (simp add: plugin_text_def Join_Cons snoc)
qed

lemma join_lines_set: "set (join_lines ls) \<subseteq> insert nl (\<Union> (set ` set ls))"
  by (induction ls rule: induct_list012) auto

lemma settings_lines_facts:
  assumes "settings_lines body"
  shows "body \<noteq> []" "CHR '']'' \<notin> set (join_lines body)" "\<forall>l \<in> set body. nl \<notin> set l" "join_lines body \<noteq> []"
proof -
  show ne: "body \<noteq> []" using assms by (simp add: settings_lines_def)
  show "\<forall>l \<in> set body. nl \<notin> set l"
    using assms printable_no_nl by (auto simp: settings_lines_def list_all_iff)
  show "CHR '']'' \<notin> set (join_lines body)"
    using assms join_lines_set[of body] by (auto simp: settings_lines_def list_all_iff nl_def)
  have "hd body \<noteq> []" using assms ne by (cases body) (auto simp: settings_lines_def)
  then show "join_lines body \<noteq> []" using ne by (cases body; cases "tl body") auto
qed

lemma getConfig_plugin:
  assumes "settings_lines body" "CHR ''>'' \<notin> set tags" "\<not> contains (''/match>'' @ rest) (newline @ ''<'')"
  shows "getConfig (plugin_text tags body @ rest) = Inr (join_lines (map (\<lambda>l. ''    '' @ l) body))"
proof -
  note body = settings_lines_facts[OF assms(1)]
  have "CHR ''>'' \<notin> set (''<match '' @ tags)" using assms(2) by simp
  from between_tags[OF body(4,2) this assms(3)] obtain m where
    "FindStringSubmatch re_between_tags (plugin_text tags body @ rest) = [m, join_lines body]"
    unfolding plugin_text_eq[OF body(1)] by blast
  moreover have "split_lines (join_lines body) = body"
    using body by (intro split_lines_join)
  ultimately show ?thesis by (simp only: getConfig_def Let_def) (simp add: indent_lines_join[unfolded One_nat_def])
qed

lemma plugin_doc:
  assumes "settings_lines body"
  shows "splunkConfigData1 @ newline @ join_lines (map (\<lambda>l. ''    '' @ l) body) @ splunkConfigData2 =
      block_doc SplunkConfigKey 4 ((''<match '' @ current_tags @ ''>'') # body @ [''</match>''])"
    and "qRadarConfigData1 @ newline @ join_lines (map (\<lambda>l. ''    '' @ l) body) @ qRadarConfigData2 =
      block_doc QRadarConfigKey 4 ((''<match '' @ current_tags @ ''>'') # body @ [''</match>''])"
proof -
  have same: "map (\<lambda>l. if l = [] then [] else replicate 4 (CHR '' '') @ l) body = map (\<lambda>l. ''    '' @ l) body"
    using assms by (auto simp: settings_lines_def list_all_iff replicate_4)
  have snoc: "join_lines (xs @ [y]) = join_lines xs @ newline @ y" if "xs \<noteq> []" for xs y
    using that by (induction xs rule: induct_list012) auto
  have ne: "body \<noteq> []" using settings_lines_facts(1)[OF assms] .
  show "splunkConfigData1 @ newline @ join_lines (map (\<lambda>l. ''    '' @ l) body) @ splunkConfigData2 =
      block_doc SplunkConfigKey 4 ((''<match '' @ current_tags @ ''>'') # body @ [''</match>''])"
    "qRadarConfigData1 @ newline @ join_lines (map (\<lambda>l. ''    '' @ l) body) @ qRadarConfigData2 =
      block_doc QRadarConfigKey 4 ((''<match '' @ current_tags @ ''>'') # body @ [''</match>''])"
    using ne by (simp_all add: block_doc_def same replicate_4 Join_Cons snoc current_tags_def splunkConfigData1_def
        splunkConfigData2_def qRadarConfigData1_def qRadarConfigData2_def SplunkConfigKey_def QRadarConfigKey_def)
qed

lemma plugin_yaml:
  assumes "yaml_literal yaml" "settings_lines body" "key \<in> set config_keys"
  shows "yaml key (block_doc key 4 ((''<match '' @ current_tags @ ''>'') # body @ [''</match>''])) =
    Inr (plugin_text current_tags body)"
proof -
  let ?ls = "(''<match '' @ current_tags @ ''>'') # body @ [''</match>'']"
  have "block_lines ?ls"
    using assms(2) by (simp add: block_lines_def settings_lines_def list_all_iff printable_def current_tags_def)
  then have "yaml key (block_doc key 4 ?ls) = Inr (join_lines (chomp ?ls))"
    using assms(1,3) by (simp add: yaml_literal_def)
  moreover have "chomp ?ls = ?ls" by (rule chomp_last) simp_all
  ultimately show ?thesis by (simp add: plugin_text_def)
qed

lemma EqualMatchTags_iff:
  "EqualMatchTags found \<longleftrightarrow> contains (siem_text found) (''match '' @ current_tags)"
  by (auto simp: EqualMatchTags_def siem_text_def siem_key_def is_splunk_def re_output_tags_def
      FindStringSubmatch_Lit current_tags_def)

lemma current_tags_equal:
  assumes "siem_text found = plugin_text current_tags body @ rest"
  shows "EqualMatchTags found"
proof -
  have "siem_text found = ''<'' @ (''match '' @ current_tags) @ ''>'' @ join_lines ([] # body @ [''</match>'']) @ rest"
    using assms by (simp add: plugin_text_def Join_Cons)
  then show ?thesis unfolding EqualMatchTags_iff contains_iff by blast
qed

lemma hd_Split_cut: "sep \<noteq> [] \<Longrightarrow> hd (Split s sep) = (case cut sep s of None \<Rightarrow> s | Some (a, b) \<Rightarrow> a)"
  by (subst Split.simps) (auto split: option.splits)

lemma cut_at_first:
  assumes "\<not> contains (a @ [n]) sep" "n \<notin> set sep"
  shows "cut sep ((a @ [n]) @ sep @ x) = Some (a @ [n], x)"
proof -
  have "contains ((a @ [n]) @ sep @ x) sep" unfolding contains_iff by blast
  then obtain p q where cut: "cut sep ((a @ [n]) @ sep @ x) = Some (p, q)"
    unfolding contains_def by (metis not_None_eq prod.exhaust)
  have eq: "(a @ [n]) @ sep @ x = p @ sep @ q" using cut_SomeD[OF cut] .
  have "length p \<le> length (a @ [n])" by (rule cut_leftmost[OF cut refl])
  then have "p = take (length p) (a @ [n]) \<and> sep @ q = drop (length p) (a @ [n]) @ sep @ x"
    using iffD1[OF append_eq_append_conv_if eq[symmetric]] by (simp only: if_True)
  then obtain c where c: "a @ [n] = p @ c" "c @ sep @ x = sep @ q"
    by (metis append_take_drop_id)
  have "c = []"
  proof (rule ccontr)
    assume "c \<noteq> []"
    with c(1) have n: "n \<in> set c" by (metis last_appendR last_in_set last_snoc)
    from c(2) consider us where "c = sep @ us" | us where "sep = c @ us"
      unfolding append_eq_append_conv2 by metis
    then show False
      using assms c(1) n unfolding contains_iff by cases (metis, simp)
  qed
  then show ?thesis using cut c by simp
qed

lemma remove_section:
  assumes "\<not> contains (a @ newline) ''<match kube-audit>''"
  shows "removeK8sAudit a = a" "removeK8sAudit (a @ newline) = a @ newline"
    "removeK8sAudit (a @ newline @ ''<match kube-audit>'' @ x) = a @ newline"
proof -
  have none: "\<not> contains a ''<match kube-audit>''"
    using assms unfolding contains_iff by (metis append.assoc)
  show "removeK8sAudit a = a" "removeK8sAudit (a @ newline) = a @ newline"
    using assms none by (simp_all add: removeK8sAudit_def hd_Split_cut not_contains)
  have "nl \<notin> set ''<match kube-audit>''" by (simp add: nl_def)
  from cut_at_first[OF assms this, of x] show "removeK8sAudit (a @ newline @ ''<match kube-audit>'' @ x) = a @ newline"
    by (simp add: removeK8sAudit_def hd_Split_cut)
qed

lemma carried:
  assumes "yaml_literal yaml" "siem_name (m_Name (cm_Meta found))"
    and "settings_lines body" "older_file found tags body rest"
  shows "BuildWithSIEMConfigs yaml found = Inr (plugin_text current_tags body) \<and>
    EqualMatchTags (found\<lparr>cm_Data := Some (fmupd (siem_key found) (plugin_text current_tags body) d)\<rparr>)"
proof
  have old: "siem_text found = plugin_text tags body @ rest" "CHR ''>'' \<notin> set tags"
    using assms(4) by (simp_all add: older_file_def)
  show "BuildWithSIEMConfigs yaml found = Inr (plugin_text current_tags body)"
  proof (cases "is_splunk found")
    case True
    then have "\<not> contains (''/match>'' @ rest) (newline @ ''<'')"
      using assms(4) by (simp add: older_file_def)
    from getConfig_plugin[OF assms(3) old(2) this] show ?thesis
      using True old(1) plugin_doc(1)[OF assms(3)] plugin_yaml[OF assms(1,3), of SplunkConfigKey]
      by (simp add: BuildWithSIEMConfigs_def is_splunk_def siem_text_def siem_key_def config_keys_def)
  next
    case False
    then have no: "\<not> contains (plugin_text tags body @ newline) ''<match kube-audit>''" and
      rest: "rest = [] \<or> rest = newline \<or> (\<exists>x. rest = newline @ ''<match kube-audit>'' @ x)"
      using assms(4) by (simp_all add: older_file_def)
    obtain rest' where rest': "removeK8sAudit (siem_text found) = plugin_text tags body @ rest'" "rest' = [] \<or> rest' = newline"
      using rest remove_section[OF no] old(1) by (metis append.right_neutral)
    have "\<not> contains (''/match>'' @ newline) (newline @ ''<'')" "\<not> contains ''/match>'' (newline @ ''<'')"
      by code_simp+
    then have "\<not> contains (''/match>'' @ rest') (newline @ ''<'')" using rest'(2) by auto
    from getConfig_plugin[OF assms(3) old(2) this] show ?thesis
      using False rest'(1) plugin_doc(2)[OF assms(3)] plugin_yaml[OF assms(1,3), of QRadarConfigKey]
      by (simp add: BuildWithSIEMConfigs_def is_splunk_def siem_text_def siem_key_def config_keys_def)
  qed
  show "EqualMatchTags (found\<lparr>cm_Data := Some (fmupd (siem_key found) (plugin_text current_tags body) d)\<rparr>)"
    by (rule current_tags_equal[where body = body and rest = "[]"]) (simp add: siem_text_def siem_key_def is_splunk_def)
qed

text \<open>C7: The settings of an output plugin survive the update of the match tags. From the file of an earlier
  release, whatever its tags, BuildWithSIEMConfigs makes the file with the current tags, the same settings
  line by line and nothing of the Kubernetes audit section; the comparison of the tags accepts the result.
  The settings are printable lines without a closing bracket.\<close>

theorem siem_settings_carried:
  assumes "yaml_literal yaml" "siem_name (m_Name (cm_Meta found))"
    and "settings_lines body" "older_file found tags body rest"
  shows "BuildWithSIEMConfigs yaml found = Inr (plugin_text current_tags body) \<and>
    EqualMatchTags (found\<lparr>cm_Data := Some (fmupd (siem_key found) (plugin_text current_tags body) d)\<rparr>)"
  by (rule carried[OF assms])

definition sample_qradar_map :: configmap where
  "sample_qradar_map = \<lparr>cm_Meta = zero_meta\<lparr>m_Name := cm_name QRadarConfigName\<rparr>,
     cm_Data = Some (fmupd QRadarConfigKey (plugin_text ''icp-audit'' [''    host h'', ''    <store>'', ''    </store>'']
       @ newline @ ''<match kube-audit>'' @ newline @ ''</match>'') fmempty)\<rparr>"

theorem siem_settings_carried_witness:
  "BuildWithSIEMConfigs yaml_block sample_qradar_map =
     Inr (plugin_text current_tags [''    host h'', ''    <store>'', ''    </store>''])"
proof -
  let ?body = "[''    host h'', ''    <store>'', ''    </store>'']"
  have siem: "siem_name (m_Name (cm_Meta sample_qradar_map))" and not: "\<not> is_splunk sample_qradar_map"
    by (simp_all add: siem_name_def sample_qradar_map_def is_splunk_def cm_name_defs)
  have body: "settings_lines ?body" by (simp add: settings_lines_def printable_def)
  have "\<not> contains (plugin_text ''icp-audit'' ?body @ newline) ''<match kube-audit>''" by code_simp
  then have "older_file sample_qradar_map ''icp-audit'' ?body (newline @ ''<match kube-audit>'' @ newline @ ''</match>'')"
    using not by (simp add: older_file_def siem_text_def siem_key_def) (simp add: sample_qradar_map_def mget_def)
  from siem_settings_carried[OF yaml_block_literal siem body this] show ?thesis by blast
qed

end
