(* ===== verification/AuditLoggingSettles.thy ===== *)
theory AuditLoggingSettles
  imports LawfulServer OutputPlugins
begin

text \<open>
  Every reconcile method of the \<open>AuditLogging\<close> controller settles the object it looks after, and the list
  of them satisfies the contract \<open>settling\<close>.
\<close>

subsection \<open>ConfigMaps\<close>

text \<open>The key that is compared in a ConfigMap that is not a SIEM's.\<close>

definition al_key :: "string \<Rightarrow> string" where
  "al_key name = (if name = cm_name ConfigName then EnableAuditLogForwardKey
     else if name = cm_name SourceConfigName then SourceConfigKey else HTTPIngestURLKey)"

definition al_in_sync :: "string \<Rightarrow> configmap \<Rightarrow> configmap \<Rightarrow> bool" where
  "al_in_sync name e cm \<longleftrightarrow> (if siem_name name then EqualMatchTags cm else EqualConfig cm e (al_key name))"

text \<open>A ConfigMap that the controller can work with: an output plugin file has current tags or is readable.\<close>

definition al_config_wf :: "string \<Rightarrow> kobject \<Rightarrow> bool" where
  "al_config_wf name ob =
     (case ob of
        OConfigMap cm \<Rightarrow> m_Name (cm_Meta cm) = name \<and> cm_Data cm \<noteq> None \<and>
          (siem_name name \<longrightarrow> EqualMatchTags cm \<or>
             (\<exists>tags body rest. settings_lines body \<and> older_file cm tags body rest))
      | _ \<Rightarrow> False)"

definition al_config_gauge :: "string \<Rightarrow> string \<Rightarrow> configmap \<Rightarrow> gauge" where
  "al_config_gauge ns name e =
     \<lparr>g_key = (KConfigMap, NamespacedName ns name), g_absent = 1,
      g_rank = (\<lambda>ob. if \<exists>cm. ob = OConfigMap cm \<and> al_in_sync name e cm then 0 else 2),
      g_wf = al_config_wf name\<rparr>"

lemma al_in_sync_cong:
  assumes "cm_Data a = cm_Data b" "m_Name (cm_Meta a) = m_Name (cm_Meta b)"
  shows "al_in_sync name e a = al_in_sync name e b" "al_config_wf name (OConfigMap a) = al_config_wf name (OConfigMap b)"
  using assms
  by (simp_all add: al_in_sync_def al_config_wf_def EqualMatchTags_def EqualConfig_def older_file_def siem_text_def
      siem_key_def is_splunk_def)

lemma al_config_drift_cases:
  assumes "yaml_literal yaml" "name \<in> set FluentdConfigMaps" "al_config_wf name (OConfigMap cm)"
  shows "if al_in_sync name e cm then al_config_drift yaml name e cm = InSync
    else \<exists>d. al_config_drift yaml name e cm = Repair (cm\<lparr>cm_Data := Some d\<rparr>) \<and>
      al_in_sync name e (cm\<lparr>cm_Data := Some d\<rparr>)"
proof -
  obtain d where cm: "m_Name (cm_Meta cm) = name" "cm_Data cm = Some d"
    using assms(3) by (auto simp: al_config_wf_def)
  show ?thesis
  proof (cases "siem_name name")
    case False
    have key: "al_config_drift yaml name e cm = drift_of (sync_key e (al_key name) (cm, False))"
      using assms(2) False
      by (auto simp: al_config_drift_def al_key_def FluentdConfigMaps_def siem_name_def cm_name_defs)
    show ?thesis
      using False cm by (auto simp: key al_in_sync_def sync_key_def EqualConfig_def)
  next
    case True
    then have drift: "al_config_drift yaml name e cm =
        (if \<not> EqualMatchTags cm then case BuildWithSIEMConfigs yaml cm of Inl err \<Rightarrow> DriftError err
         | Inr data \<Rightarrow> Repair (cm\<lparr>cm_Data := Some (fmupd (siem_key cm) data d)\<rparr>) else InSync)"
      using cm by (auto simp: al_config_drift_def siem_name_def siem_key_def is_splunk_def cm_name_defs Let_def
          split: sum.splits)
    show ?thesis
    proof (cases "EqualMatchTags cm")
      case False
      then obtain tags body rest where old: "settings_lines body" "older_file cm tags body rest"
        using assms(3) True by (auto simp: al_config_wf_def)
      have "BuildWithSIEMConfigs yaml cm = Inr (plugin_text current_tags body)"
        "EqualMatchTags (cm\<lparr>cm_Data := Some (fmupd (siem_key cm) (plugin_text current_tags body) d)\<rparr>)"
        using carried[OF assms(1) _ old, of d] True cm(1) by simp_all
      then show ?thesis using False True by (auto simp: drift al_in_sync_def)
    qed (use True in \<open>simp add: drift al_in_sync_def\<close>)
  qed
qed

subsection \<open>New ConfigMaps\<close>

definition splunk_default_lines :: "string list" where
  "splunk_default_lines = [''    @type splunk_hec'', ''    hec_host SPLUNK_SERVER_HOSTNAME'', ''    hec_port SPLUNK_PORT'',
     ''    hec_token SPLUNK_HEC_TOKEN'', ''    ca_file /fluentd/etc/tls/splunkCA.pem'', ''    source ${tag}'']"

definition qradar_default_lines :: "string list" where
  "qradar_default_lines = [''    @type copy'', ''    <store>'', ''        @type remote_syslog'',
     ''        host QRADAR_SERVER_HOSTNAME'', ''        port QRADAR_PORT_FOR_icp-audit'',
     ''        hostname QRADAR_LOG_SOURCE_IDENTIFIER_FOR_icp-audit'', ''        protocol tcp'', ''        tls true'',
     ''        ca_file /fluentd/etc/tls/qradar.crt'', ''        packet_size 4096'', ''        program fluentd'',
     ''        <format>'', ''            @type single_value'', ''            message_key message'',
     ''        </format>'', ''    </store>'']"

lemma default_settings: "settings_lines splunk_default_lines" "settings_lines qradar_default_lines"
  by (simp_all add: settings_lines_def splunk_default_lines_def qradar_default_lines_def printable_def)

lemma default_docs:
  "splunkConfigData1 @ splunkDefaults @ splunkConfigData2 =
     block_doc SplunkConfigKey 4 ((''<match '' @ current_tags @ ''>'') # splunk_default_lines @ [''</match>''])"
  "qRadarConfigData1 @ qRadarDefaults @ qRadarConfigData2 =
     block_doc QRadarConfigKey 4 ((''<match '' @ current_tags @ ''>'') # qradar_default_lines @ [''</match>''])"
  by (simp_all add: block_doc_def replicate_4 splunkConfigData1_def splunkDefaults_def splunkConfigData2_def
      qRadarConfigData1_def qRadarDefaults_def qRadarConfigData2_def current_tags_def splunk_default_lines_def
      qradar_default_lines_def SplunkConfigKey_def QRadarConfigKey_def)

definition al_main_lines :: "string list" where
  "al_main_lines = [''# Input plugins (Supports Systemd and HTTP)'', ''@include /fluentd/etc/source.conf'', [],
     ''# Output plugins (Only use one output plugin conf file at a time. Comment or remove other files)'',
     ''#@include /fluentd/etc/remoteSyslog.conf'', ''#@include /fluentd/etc/splunkHEC.conf'', []]"

lemma al_main_doc: "fluentdMainConfigData = block_doc FluentdConfigKey 2 al_main_lines"
  by (simp add: fluentdMainConfigData_def block_doc_def al_main_lines_def FluentdConfigKey_def eval_nat_numeral)

lemma al_main_block_lines: "block_lines al_main_lines"
  by (simp add: al_main_lines_def block_lines_def printable_def)

lemma BuildConfigMap_new:
  assumes yaml: "yaml_literal yaml" and "name \<in> set FluentdConfigMaps"
  shows "\<exists>e. BuildConfigMap yaml inst name ns = Inr e \<and> m_Name (cm_Meta e) = name \<and>
    m_Namespace (cm_Meta e) = ns \<and> cm_Data e \<noteq> None \<and> (siem_name name \<longrightarrow> EqualMatchTags e)"
proof -
  have main: "yaml FluentdConfigKey fluentdMainConfigData = Inr (join_lines (chomp al_main_lines))"
    using yaml al_main_block_lines unfolding al_main_doc yaml_literal_def by (simp add: config_keys_def)
  have source: "yaml SourceConfigKey source_doc = Inr (join_lines (chomp source_lines))"
    unfolding source_doc_block by (rule yaml_block_Inr[OF yaml _ source_block_lines]) (simp add: config_keys_def)
  have siem: "yaml SplunkConfigKey (splunkConfigData1 @ splunkDefaults @ splunkConfigData2) =
        Inr (plugin_text current_tags splunk_default_lines)"
      "yaml QRadarConfigKey (qRadarConfigData1 @ qRadarDefaults @ qRadarConfigData2) =
        Inr (plugin_text current_tags qradar_default_lines)"
    unfolding default_docs by (rule plugin_yaml[OF yaml]; simp add: default_settings config_keys_def)+
  consider "name = cm_name ConfigName" | "name = cm_name SourceConfigName" | "name = cm_name SplunkConfigName"
    | "name = cm_name QRadarConfigName" | "name = cm_name HTTPIngestName"
    using assms(2) by (auto simp: FluentdConfigMaps_def)
  then show ?thesis
  proof cases
    case 3
    then show ?thesis
      by (auto simp: BuildConfigMap_def Let_def siem cm_name_defs siem_text_def siem_key_def is_splunk_def
          intro!: current_tags_equal[where body = splunk_default_lines and rest = "[]"])
  next
    case 4
    then show ?thesis
      by (auto simp: BuildConfigMap_def Let_def siem cm_name_defs siem_text_def siem_key_def is_splunk_def
          intro!: current_tags_equal[where body = qradar_default_lines and rest = "[]"])
  qed (auto simp: BuildConfigMap_def Let_def main source[unfolded source_doc_def] siem_name_def cm_name_defs)
qed

text \<open>The controller takes the namespace of its operands from the environment; the resource has none.\<close>

lemma al_config_measured:
  assumes law: "lawful view ad r" and name: "name \<in> set FluentdConfigMaps" and cluster: "m_Namespace (al_Meta inst) = []"
    and e: "BuildConfigMap (r_yaml r) inst name ns = Inr e"
  shows "measured view (al_config_gauge ns name e) (al_reconcileConfig r inst name ns)"
proof -
  let ?g = "al_config_gauge ns name e" and ?key = "NamespacedName ns name"
  note st = lawful_stores(1)[OF law]
  have yaml: "yaml_literal (r_yaml r)" using law by (simp add: lawful_def)
  have new: "m_Name (cm_Meta e) = name" "m_Namespace (cm_Meta e) = ns" "cm_Data e \<noteq> None"
      "siem_name name \<longrightarrow> EqualMatchTags e"
    using BuildConfigMap_new[OF yaml name, of inst ns] e by auto
  obtain refs where own: "owned r (al_owner inst) (cm_Meta e) (\<lambda>m. e\<lparr>cm_Meta := m\<rparr>) =
      Inr (e\<lparr>cm_Meta := (cm_Meta e)\<lparr>m_OwnerReferences := refs\<rparr>\<rparr>)"
    using lawful_owned[OF law, of "al_owner inst" "cm_Meta e"] cluster by (auto simp: al_owner_def)
  let ?e = "e\<lparr>cm_Meta := (cm_Meta e)\<lparr>m_OwnerReferences := refs\<rparr>\<rparr>"
  have eq: "al_reconcileConfig r inst name ns = get_or_create (cl_configmaps (r_client r)) ?key (Inr ?e)
      (\<lambda>found. settle_config r (al_restartFluentdPods r inst ns) found (al_config_drift (r_yaml r) name e found))"
    by (rule ext) (simp add: al_reconcileConfig_def e own)
  have stored: "cm_Data (ad_configmap ad x) = cm_Data x" "m_Name (cm_Meta (ad_configmap ad x)) = m_Name (cm_Meta x)" for x
    using lawful_admission(1)[OF law] stores_key[OF st, of x] by (simp_all add: meta_key_def)
  have sync: "al_in_sync name e e" using new(4) by (simp add: al_in_sync_def EqualConfig_def)
  show ?thesis
    unfolding eq
  proof (rule repairs_measured[OF law])
    show "view (snd (al_restartFluentdPods r inst ns w)) = view w" for w
      unfolding al_restartFluentdPods_def by (rule restart_pods_view[OF law])
    have "al_in_sync name e (ad_configmap ad ?e)" "al_config_wf name (OConfigMap (ad_configmap ad ?e))"
      using al_in_sync_cong(1)[of "ad_configmap ad ?e" e name e] al_in_sync_cong(2)[of "ad_configmap ad ?e" e name] sync stored[of ?e] new by (simp_all add: al_config_wf_def)
    then show "g_wf ?g (OConfigMap (ad_configmap ad ?e))" "g_rank ?g (OConfigMap (ad_configmap ad ?e)) < g_absent ?g"
      by (simp_all add: al_config_gauge_def)
  next
    fix cm assume "meta_key (cm_Meta cm) = ?key" and "g_wf ?g (OConfigMap cm)"
    then have wf: "al_config_wf name (OConfigMap cm)" by (simp add: al_config_gauge_def)
    note drift = al_config_drift_cases[OF yaml name wf, of e]
    show "case al_config_drift (r_yaml r) name e cm of
        InSync \<Rightarrow> g_rank ?g (OConfigMap cm) = 0
      | Recreate \<Rightarrow> g_absent ?g < g_rank ?g (OConfigMap cm)
      | Repair cm' \<Rightarrow> cm_Meta cm' = cm_Meta cm \<and> g_wf ?g (OConfigMap (ad_configmap ad cm')) \<and>
          g_rank ?g (OConfigMap (ad_configmap ad cm')) < g_rank ?g (OConfigMap cm)
      | _ \<Rightarrow> False"
    proof (cases "al_in_sync name e cm")
      case True
      then show ?thesis using drift by (simp add: al_config_gauge_def)
    next
      case False
      with drift obtain d where d: "al_config_drift (r_yaml r) name e cm = Repair (cm\<lparr>cm_Data := Some d\<rparr>)"
          "al_in_sync name e (cm\<lparr>cm_Data := Some d\<rparr>)" by auto
      let ?c = "cm\<lparr>cm_Data := Some d\<rparr>"
      have "al_config_wf name (OConfigMap ?c)"
        using wf d(2) by (auto simp: al_config_wf_def al_in_sync_def)
      then show ?thesis
        using False d al_in_sync_cong(1)[of "ad_configmap ad ?c" ?c name e] al_in_sync_cong(2)[of "ad_configmap ad ?c" ?c name] stored[of ?c] by (simp add: al_config_gauge_def)
    qed
  qed (use new in \<open>simp_all add: al_config_gauge_def meta_key_def\<close>)
qed

end
