(* ===== verification/AuditLoggingRounds.thy ===== *)
theory AuditLoggingRounds
  imports AuditLoggingSettles
begin

text \<open>
  The other operands of an \<open>AuditLogging\<close>, the list of all steps of its controller and the contract
  \<open>settling\<close> of the list.
\<close>

subsection \<open>Job, service account, service, certificates\<close>

definition job_gauge :: "string \<Rightarrow> gauge" where
  "job_gauge ns = object_gauge (KJob, NamespacedName ns JobName) OJob (\<lambda>_. True) 2"

definition al_account_gauge :: "string \<Rightarrow> gauge" where
  "al_account_gauge ns = object_gauge (KAccount, NamespacedName ns OperandServiceAccount) OAccount (\<lambda>_. True) 2"

lemma al_job_measured:
  assumes law: "lawful view ad r" and cluster: "m_Namespace (al_Meta inst) = []"
  shows "measured view (job_gauge ns) (al_reconcileJob r inst ns)"
proof -
  have st: "stores view (cl_jobs (r_client r)) KJob OJob j_Meta (ad_job ad)"
    using law unfolding lawful_def stores_objects_def by blast
  have key: "meta_key (j_Meta (BuildJobForAuditLogging (r_env r) inst ns)) = NamespacedName ns JobName"
    by (simp add: BuildJobForAuditLogging_def Let_def meta_key_def)
  show ?thesis
    unfolding al_reconcileJob_def Let_def job_gauge_def key
    by (rule created_measured[OF law st]) (simp_all add: key al_owner_def cluster)
qed

lemma al_account_measured:
  assumes law: "lawful view ad r" and cluster: "m_Namespace (al_Meta inst) = []"
  shows "measured view (al_account_gauge ns) (al_reconcileServiceAccount r inst ns)"
proof -
  let ?e = "BuildServiceAccount ns"
  obtain refs where own: "owned r (al_owner inst) (sa_Meta ?e) (\<lambda>m. ?e\<lparr>sa_Meta := m\<rparr>) =
      Inr (?e\<lparr>sa_Meta := (sa_Meta ?e)\<lparr>m_OwnerReferences := refs\<rparr>\<rparr>)"
    using lawful_owned[OF law, of "al_owner inst" "sa_Meta ?e"] cluster by (auto simp: al_owner_def)
  have name: "m_Name (sa_Meta ?e) = OperandServiceAccount" by (simp add: BuildServiceAccount_def)
  have eq: "al_reconcileServiceAccount r inst ns =
      get_or_create (cl_accounts (r_client r)) (NamespacedName ns OperandServiceAccount)
        (owned r (al_owner inst) (sa_Meta ?e) (\<lambda>m. ?e\<lparr>sa_Meta := m\<rparr>)) (\<lambda>found w. (Done, w))"
    by (rule ext) (simp add: al_reconcileServiceAccount_def Let_def own name)
  show ?thesis
    unfolding eq al_account_gauge_def
    by (rule created_measured[OF law lawful_stores(4)[OF law]])
      (simp_all add: BuildServiceAccount_def meta_key_def al_owner_def cluster)
qed

lemma al_service_measured:
  "lawful view ad r \<Longrightarrow> m_Namespace (al_Meta inst) = [] \<Longrightarrow>
   measured view (service_gauge (BuildAuditService (al_Name inst) ns)) (al_reconcileService r inst ns)"
  by (rule service_measured[where owner = "al_owner inst"], assumption, simp add: al_owner_def)
    (simp add: al_reconcileService_def Let_def meta_key_def BuildAuditService_def)

definition al_expected_cert :: "AuditLogging \<Rightarrow> string \<Rightarrow> string \<Rightarrow> certificate" where
  "al_expected_cert inst ns name = BuildCertsForAuditLogging ns (alf_Issuer (al_Fluentd (al_Spec inst))) name"

lemma al_cert_measured:
  "lawful view ad r \<Longrightarrow> m_Namespace (al_Meta inst) = [] \<Longrightarrow>
   measured view (cert_gauge (al_expected_cert inst ns name)) (al_reconcileAuditCertificate r inst name ns)"
  by (rule cert_measured[where owner = "al_owner inst"], assumption, simp add: al_owner_def)
    (simp only: al_expected_cert_def al_reconcileAuditCertificate_def Let_def)

subsection \<open>The fluentd daemon set\<close>

definition expected_daemonset :: "'w reconciler \<Rightarrow> AuditLogging \<Rightarrow> string \<Rightarrow> daemonset" where
  "expected_daemonset r inst ns =
     fst (the (BuildDaemonForFluentd (r_env r) (r_quantity r) inst ns init_globals))"

definition daemonset_gauge :: "'w reconciler \<Rightarrow> AuditLogging \<Rightarrow> string \<Rightarrow> gauge" where
  "daemonset_gauge r inst ns =
     object_gauge (KDaemonSet, NamespacedName ns FluentdDaemonSetName) ODaemonSet
       (\<lambda>x. EqualDaemonSets (r_quantity r) (expected_daemonset r inst ns) x = Some True) 2"

lemma expected_daemonset_built:
  assumes "built g"
  obtains g' where "BuildDaemonForFluentd (r_env r) (r_quantity r) inst ns g = Some (expected_daemonset r inst ns, g')"
proof -
  obtain d g' d0 g0 where d: "BuildDaemonForFluentd (r_env r) (r_quantity r) inst ns g = Some (d, g')"
      "BuildDaemonForFluentd (r_env r) (r_quantity r) inst ns init_globals = Some (d0, g0)"
    using fluentd_builders_total(2) by metis
  then have "d = expected_daemonset r inst ns"
    using fluentd_builder_cong(2)[of g "r_env r" "r_quantity r" inst ns] built_fixed[OF assms]
    by (simp add: expected_daemonset_def)
  with d(1) that show ?thesis by blast
qed

lemma fluentd_daemon_key:
  "BuildDaemonForFluentd env q inst ns g = Some (d, g') \<Longrightarrow> meta_key (dset_Meta d) = NamespacedName ns FluentdDaemonSetName"
  by (auto simp: BuildDaemonForFluentd_def Let_def meta_key_def split: option.splits)

definition daemonset_method :: "'w reconciler \<Rightarrow> AuditLogging \<Rightarrow> string \<Rightarrow> 'w \<Rightarrow> outcome \<times> 'w" where
  "daemonset_method r inst ns =
     (let e = expected_daemonset r inst ns
      in get_or_create (cl_daemonsets (r_client r)) (NamespacedName ns FluentdDaemonSetName)
           (owned r (al_owner inst) (dset_Meta e) (\<lambda>m. e\<lparr>dset_Meta := m\<rparr>)) (settle_daemonset r e))"

lemma daemonset_method_measured:
  assumes law: "lawful view ad r" and cluster: "m_Namespace (al_Meta inst) = []"
  shows "measured view (daemonset_gauge r inst ns) (daemonset_method r inst ns)"
proof -
  let ?e = "expected_daemonset r inst ns"
  obtain g0 where e: "BuildDaemonForFluentd (r_env r) (r_quantity r) inst ns init_globals = Some (?e, g0)"
    using expected_daemonset_built[OF built.init] .
  have owner: "or_Namespace (al_owner inst) = m_Namespace (dset_Meta ?e) \<or> or_Namespace (al_owner inst) = []"
    using cluster by (simp add: al_owner_def)
  show ?thesis
    unfolding daemonset_gauge_def daemonset_method_def Let_def
    by (rule daemonset_measured[OF law fluentd_has_container(2)[OF e] owner fluentd_daemon_key[OF e]])
qed

lemma daemonset_method_built:
  assumes "built (snd s)"
  shows "\<exists>g'. built g' \<and> al_reconcileFluentdDaemonSet r inst ns s = lift_world (daemonset_method r inst ns) (fst s, g')"
proof -
  obtain g' where g': "BuildDaemonForFluentd (r_env r) (r_quantity r) inst ns (snd s) = Some (expected_daemonset r inst ns, g')"
    using expected_daemonset_built[OF assms] .
  then show ?thesis
    using built.daemon[OF assms g'] by (auto simp: al_reconcileFluentdDaemonSet_def daemonset_method_def Let_def)
qed

subsection \<open>The policy controller\<close>

text \<open>The deployment is kept in place, removed, or not looked after, as the resource says.\<close>

definition expected_policy :: "'w reconciler \<Rightarrow> AuditLogging \<Rightarrow> string \<Rightarrow> deployment" where
  "expected_policy r inst ns = fst (BuildDeploymentForPolicyController (r_env r) inst ns init_globals)"

definition policy_gauge :: "'w reconciler \<Rightarrow> AuditLogging \<Rightarrow> string \<Rightarrow> gauge" where
  "policy_gauge r inst ns =
     (let key = (KDeployment, NamespacedName ns AuditPolicyControllerDeploy)
      in if EnableAuditPolicy (al_policy inst) = ''true''
         then object_gauge key ODeployment
                (\<lambda>x. EqualDeployments (r_quantity r) (expected_policy r inst ns) x True = Some True) 2
         else \<lparr>g_key = key, g_absent = 0,
               g_rank = (\<lambda>_. if EnableAuditPolicy (al_policy inst) = ''false'' then 1 else 0), g_wf = (\<lambda>_. True)\<rparr>)"

lemma removal_measured:
  assumes st: "stores view (cl_deployments (r_client r)) KDeployment ODeployment d_Meta adm"
    and g: "g_key g = (KDeployment, NamespacedName ns AuditPolicyControllerDeploy)" "g_absent g = 0" "\<And>ob. g_rank g ob = 1"
  shows "measured view g (al_removeDisabledPolicyControllerDeploy r ns)"
  unfolding measured_def Let_def
proof (intro allI impI)
  fix w
  let ?key = "NamespacedName ns AuditPolicyControllerDeploy"
  show "settles view g (objects (view w) (g_key g)) (al_removeDisabledPolicyControllerDeploy r ns w) w"
  proof (cases "objects (view w) (KDeployment, ?key)")
    case None
    then show ?thesis
      using stores_get_None[OF st None] g by (auto simp: al_removeDisabledPolicyControllerDeploy_def settles_def)
  next
    case (Some ob)
    obtain x w1 where x: "ob = ODeployment x" "meta_key (d_Meta x) = ?key"
        "op_get (cl_deployments (r_client r)) ?key w = (Inr x, w1)" "view w1 = view w"
      using stores_get_Some[OF st Some] by blast
    have "settles view g (Some ob) (change (op_delete (cl_deployments (r_client r))) x w1) w1"
      by (rule settles_delete[OF st _ g(1) x(2)]) (use Some x g in simp_all)
    then have "settles view g (Some ob) (change (op_delete (cl_deployments (r_client r))) x w1) w"
      using x(4) by (rule settles_view)
    then show ?thesis using Some x g(1) by (simp add: al_removeDisabledPolicyControllerDeploy_def)
  qed
qed

text \<open>The method on the object that it builds; without a word on the policy it does nothing.\<close>

definition policy_method :: "'w reconciler \<Rightarrow> AuditLogging \<Rightarrow> string \<Rightarrow> 'w \<Rightarrow> outcome \<times> 'w" where
  "policy_method r inst ns =
     (let e = expected_policy r inst ns
      in if EnableAuditPolicy (al_policy inst) = ''false'' then al_removeDisabledPolicyControllerDeploy r ns
         else if EnableAuditPolicy (al_policy inst) = ''true''
         then get_or_create (cl_deployments (r_client r)) (NamespacedName ns AuditPolicyControllerDeploy)
                (owned r (al_owner inst) (d_Meta e) (\<lambda>m. e\<lparr>d_Meta := m\<rparr>)) (settle_deployment r e True)
         else Pair Done)"

lemma policy_method_measured:
  assumes law: "lawful view ad r" and cluster: "m_Namespace (al_Meta inst) = []"
  shows "measured view (policy_gauge r inst ns) (policy_method r inst ns)"
proof -
  let ?policy = "EnableAuditPolicy (al_policy inst)" and ?e = "expected_policy r inst ns"
  consider "?policy = ''true''" | "?policy = ''false''" | "?policy \<noteq> ''true''" "?policy \<noteq> ''false''" by blast
  then show ?thesis
  proof cases
    case 1
    have key: "meta_key (d_Meta ?e) = NamespacedName ns AuditPolicyControllerDeploy"
      by (simp add: expected_policy_def BuildDeploymentForPolicyController_def Let_def meta_key_def)
    have owner: "or_Namespace (al_owner inst) = m_Namespace (d_Meta ?e) \<or> or_Namespace (al_owner inst) = []"
      using cluster by (simp add: al_owner_def)
    have has: "has_container (ds_Template (d_Spec ?e))"
      unfolding expected_policy_def by (rule fluentd_has_container(3))
    show ?thesis
      using deployment_measured[OF law has disjI1[OF TrueI] owner key] 1
      by (simp add: policy_gauge_def policy_method_def Let_def)
  next
    case 2
    then show ?thesis
      by (simp add: policy_method_def) (rule removal_measured[OF lawful_stores(5)[OF law]]; simp add: policy_gauge_def)
  next
    case 3
    have "value_rank (policy_gauge r inst ns) v = 0" for v
      using 3 by (cases v) (simp_all add: policy_gauge_def)
    then show ?thesis using 3 by (simp add: policy_method_def measured_def settles_def)
  qed
qed

lemma policy_method_built:
  assumes "built (snd s)"
  shows "\<exists>g'. built g' \<and>
    al_reconcilePolicyControllerDeployment r inst ns s = lift_world (policy_method r inst ns) (fst s, g')"
proof (cases "EnableAuditPolicy (al_policy inst) = ''true''")
  case True
  let ?b = "BuildDeploymentForPolicyController (r_env r) inst ns (snd s)"
  have "fst ?b = expected_policy r inst ns"
    using policy_builder_cong built_fixed[OF assms] by (simp add: expected_policy_def)
  moreover have "built (snd ?b)" using assms by (rule built.policy)
  ultimately show ?thesis
    using True
    by (intro exI[of _ "snd ?b"]) (simp add: al_reconcilePolicyControllerDeployment_def policy_method_def Let_def split_beta)
next
  case False
  then show ?thesis
    using assms
    by (intro exI[of _ "snd s"])
      (simp add: al_reconcilePolicyControllerDeployment_def policy_method_def Let_def lift_world_def)
qed

subsection \<open>The steps\<close>

definition al_expected_config :: "'w reconciler \<Rightarrow> AuditLogging \<Rightarrow> string \<Rightarrow> string \<Rightarrow> configmap" where
  "al_expected_config r inst ns name = projr (BuildConfigMap (r_yaml r) inst name ns)"

definition al_parts ::
    "'w reconciler \<Rightarrow> AuditLogging \<Rightarrow> string \<Rightarrow> (gauge \<times> ('w state \<Rightarrow> outcome \<times> 'w state)) list" where
  "al_parts r inst ns =
     [(job_gauge ns, lift_world (al_reconcileJob r inst ns)),
      (policy_gauge r inst ns, al_reconcilePolicyControllerDeployment r inst ns)] @
     map (\<lambda>name. (al_config_gauge ns name (al_expected_config r inst ns name),
                  lift_world (al_reconcileConfig r inst name ns))) FluentdConfigMaps @
     [(cert_gauge (al_expected_cert inst ns AuditLoggingHTTPSCertName),
       lift_world (al_reconcileAuditCertificate r inst AuditLoggingHTTPSCertName ns)),
      (cert_gauge (al_expected_cert inst ns AuditLoggingCertName),
       lift_world (al_reconcileAuditCertificate r inst AuditLoggingCertName ns)),
      (al_account_gauge ns, lift_world (al_reconcileServiceAccount r inst ns)),
      (service_gauge (BuildAuditService (al_Name inst) ns), lift_world (al_reconcileService r inst ns)),
      (daemonset_gauge r inst ns, al_reconcileFluentdDaemonSet r inst ns)]"

definition al_gauges :: "'w reconciler \<Rightarrow> AuditLogging \<Rightarrow> string \<Rightarrow> gauge list" where
  "al_gauges r inst ns = map fst (al_parts r inst ns)"

definition al_steps ::
    "'w reconciler \<Rightarrow> AuditLogging \<Rightarrow> string \<Rightarrow> (object_key \<times> ('w state \<Rightarrow> outcome \<times> 'w state)) list" where
  "al_steps r inst ns = map (\<lambda>(g, f). (g_key g, f)) (al_parts r inst ns)"

lemma al_reconcilers_flat:
  "run_reconcilers (al_reconcilers r inst ns) =
   run_reconcilers (map snd (al_steps r inst ns) @ [lift_world (al_updateStatus r inst ns)])"
proof -
  let ?lists = "[[lift_world (al_reconcileJob r inst ns)], [al_reconcilePolicyControllerDeployment r inst ns],
     map (\<lambda>name. lift_world (al_reconcileConfig r inst name ns)) FluentdConfigMaps,
     [lift_world (al_reconcileAuditCertificate r inst AuditLoggingHTTPSCertName ns),
      lift_world (al_reconcileAuditCertificate r inst AuditLoggingCertName ns)],
     [lift_world (al_reconcileServiceAccount r inst ns)], [lift_world (al_reconcileService r inst ns)],
     [al_reconcileFluentdDaemonSet r inst ns], [lift_world (al_updateStatus r inst ns)]]"
  have "al_reconcilers r inst ns = map run_reconcilers ?lists"
    by (simp add: al_reconcilers_def al_reconcileAuditConfigMaps_def al_reconcileAuditCerts_def
        lift_world_run run_reconcilers_one comp_def del: run_reconcilers.simps)
  moreover have "concat ?lists = map snd (al_steps r inst ns) @ [lift_world (al_updateStatus r inst ns)]"
    by (simp add: al_steps_def al_parts_def comp_def)
  ultimately show ?thesis using run_reconcilers_concat by metis
qed

lemma al_steps_keys: "map fst (al_steps r inst ns) = map g_key (al_gauges r inst ns)"
  by (simp add: al_steps_def al_gauges_def comp_def split_def)

lemma al_keys_distinct: "distinct (map g_key (al_gauges r inst ns))"
  by (simp add: al_gauges_def al_parts_def comp_def FluentdConfigMaps_def cm_name_defs al_config_gauge_def
      job_gauge_def policy_gauge_def cert_gauge_def al_account_gauge_def service_gauge_def daemonset_gauge_def
      al_expected_cert_def BuildCertsForAuditLogging_def Let_def meta_key_def AuditLoggingHTTPSCertName_def
      AuditLoggingCertName_def)

lemma al_configs_measured:
  assumes law: "lawful view ad r" and cluster: "m_Namespace (al_Meta inst) = []" and name: "name \<in> set FluentdConfigMaps"
  shows "measured view (al_config_gauge ns name (al_expected_config r inst ns name)) (al_reconcileConfig r inst name ns)"
proof -
  have "yaml_literal (r_yaml r)" using law by (simp add: lawful_def)
  from BuildConfigMap_new[OF this name, of inst ns]
  have "BuildConfigMap (r_yaml r) inst name ns = Inr (al_expected_config r inst ns name)"
    by (auto simp: al_expected_config_def)
  from al_config_measured[OF law name cluster this] show ?thesis .
qed

lemma al_parts_measured:
  assumes law: "lawful view ad r" and cluster: "m_Namespace (al_Meta inst) = []"
    and part: "(g, f) \<in> set (al_parts r inst ns)"
  shows "measured_state view built g f"
proof -
  note all = al_configs_measured[OF law cluster] al_job_measured[OF law cluster] al_cert_measured[OF law cluster]
    al_account_measured[OF law cluster] al_service_measured[OF law cluster]
  show ?thesis
    using part measured_builder[OF policy_method_measured[OF law cluster] policy_method_built, of ns]
      measured_builder[OF daemonset_method_measured[OF law cluster] daemonset_method_built, of ns]
    by (auto simp: al_parts_def intro: measured_lift_world all)
qed

subsection \<open>The contract of the steps\<close>

text \<open>
  When \<open>Reconcile\<close> gets past its checks: the request names a resource that exists, it is the only one of the
  cluster, and the namespace of the operands has no \<open>CommonAudit\<close>. It runs the steps when the resource also says
  whether the policy controller is wanted.
\<close>

definition al_alone :: "'w reconciler \<Rightarrow> AuditLogging \<Rightarrow> nsname \<Rightarrow> string \<Rightarrow> cluster \<Rightarrow> bool" where
  "al_alone r inst req ns c \<longleftrightarrow>
     (\<exists>a. find (\<lambda>a. meta_key (al_Meta a) = req) (audits c) = Some a \<and> same_audit inst a) \<and> length (audits c) \<le> 1 \<and>
     GetCSNamespace (r_env r) = Inr ns \<and> filter (\<lambda>a. ns = [] \<or> ca_Namespace a = ns) (commons c) = []"

definition al_decided :: "AuditLogging \<Rightarrow> bool" where
  "al_decided inst \<longleftrightarrow> EnableAuditPolicy (al_policy inst) \<noteq> []"

definition al_admitted :: "'w reconciler \<Rightarrow> AuditLogging \<Rightarrow> nsname \<Rightarrow> string \<Rightarrow> cluster \<Rightarrow> bool" where
  "al_admitted r inst req ns c \<longleftrightarrow> al_alone r inst req ns c \<and> al_decided inst"

lemma al_alone_put: "al_alone r inst req ns c \<Longrightarrow> al_alone r inst req ns (put k v c)"
  by (simp add: al_alone_def)

lemma al_decided_same: "same_audit a b \<Longrightarrow> al_decided b = al_decided a"
  by (simp add: same_audit_def al_decided_def)

definition al_inv ::
    "('w \<Rightarrow> cluster) \<Rightarrow> admission \<Rightarrow> 'w reconciler \<Rightarrow> AuditLogging \<Rightarrow> nsname \<Rightarrow> string \<Rightarrow> cluster \<Rightarrow> 'w state \<Rightarrow> bool" where
  "al_inv view ad r inst req ns c0 s \<longleftrightarrow> lawful view ad r \<and> m_Namespace (al_Meta inst) = [] \<and> built (snd s) \<and>
     steps_wf view (al_gauges r inst ns) (fst s) \<and> al_alone r inst req ns (view (fst s)) \<and>
     others_kept (al_gauges r inst ns) c0 (view (fst s))"

lemma al_inv_parts:
  "al_inv view ad r inst req ns c0 = parts_inv view (lawful view ad r \<and> m_Namespace (al_Meta inst) = [])
     built (map fst (al_parts r inst ns))
     (\<lambda>c. al_alone r inst req ns c \<and> others_kept (map fst (al_parts r inst ns)) c0 c)"
  by (rule ext) (simp add: al_inv_def parts_inv_def al_gauges_def conj_assoc)

lemma al_settling:
  "settling (al_steps r inst ns) (steps_rank view (al_gauges r inst ns)) (al_inv view ad r inst req ns c0)"
  unfolding al_inv_parts al_steps_def al_gauges_def
proof (rule parts_settling)
  show "distinct (map g_key (map fst (al_parts r inst ns)))"
    using al_keys_distinct[of r inst ns] by (simp only: al_gauges_def)
qed (use al_parts_measured al_alone_put others_kept_put in blast)+

interpretation al: settling "al_steps r inst ns" "steps_rank view (al_gauges r inst ns)" "al_inv view ad r inst req ns c0"
  for r inst ns view ad req c0
  by (rule al_settling)

end
