(* ===== verification/AuditLoggingConverges.thy ===== *)
theory AuditLoggingConverges
  imports AuditLoggingRounds MemoryServer
begin

text \<open>
  The rounds of \<open>AuditLoggingReconciler.Reconcile\<close>: under the laws of the API server they end, and then
  every operand is in place.
\<close>

subsection \<open>The resource as it is read\<close>

definition al_core :: "AuditLogging \<Rightarrow> AuditLogging" where
  "al_core inst = (new_auditlogging (al_Name inst))
     \<lparr>al_Meta := zero_meta\<lparr>m_Name := al_Name inst, m_Namespace := m_Namespace (al_Meta inst)\<rparr>,
      al_Spec := al_Spec inst\<rparr>"

lemma al_core_simps:
  "al_Name (al_core inst) = al_Name inst" "m_Namespace (al_Meta (al_core inst)) = m_Namespace (al_Meta inst)"
  "al_Spec (al_core inst) = al_Spec inst"
  by (simp_all add: al_core_def new_auditlogging_def)

lemma same_audit_core: "same_audit a b \<Longrightarrow> al_core a = al_core b"
  by (simp add: al_core_def same_audit_def meta_key_def)

lemma al_owner_core: "al_owner (al_core a) = al_owner a"
  by (simp only: al_owner_def al_core_simps)

lemma al_builders_core:
  "BuildConfigMap yaml (al_core a) = BuildConfigMap yaml a"
  "BuildDaemonForFluentd env q (al_core a) = BuildDaemonForFluentd env q a"
  "BuildDeploymentForPolicyController env (al_core a) = BuildDeploymentForPolicyController env a"
  "BuildJobForAuditLogging env (al_core a) = BuildJobForAuditLogging env a"
  by (intro ext, simp only: BuildConfigMap_def BuildDaemonForFluentd_def BuildDeploymentForPolicyController_def
      BuildJobForAuditLogging_def policy_args_def buildDaemonsetVolumes_def buildDaemonsetVolumeMounts_def
      al_core_simps)+

lemma al_methods_core:
  "al_reconcileJob r (al_core a) = al_reconcileJob r a"
  "al_reconcilePolicyControllerDeployment r (al_core a) = al_reconcilePolicyControllerDeployment r a"
  "al_reconcileConfig r (al_core a) = al_reconcileConfig r a"
  "al_reconcileAuditCertificate r (al_core a) = al_reconcileAuditCertificate r a"
  "al_reconcileServiceAccount r (al_core a) = al_reconcileServiceAccount r a"
  "al_reconcileService r (al_core a) = al_reconcileService r a"
  "al_reconcileFluentdDaemonSet r (al_core a) = al_reconcileFluentdDaemonSet r a"
  by (intro ext, simp only: al_reconcileJob_def al_reconcilePolicyControllerDeployment_def al_reconcileConfig_def
      al_restartFluentdPods_def al_reconcileAuditCertificate_def al_reconcileServiceAccount_def
      al_reconcileService_def al_reconcileFluentdDaemonSet_def al_core_simps al_owner_core al_builders_core)+

lemma al_run_same:
  assumes "same_audit a b"
  shows "run_reconcilers (map snd (al_steps r b ns)) = run_reconcilers (map snd (al_steps r a ns))"
proof -
  have "map snd (al_steps r (al_core x) ns) = map snd (al_steps r x ns)" for x
    by (simp add: al_steps_def al_parts_def comp_def al_methods_core)
  then show ?thesis using same_audit_core[OF assms] by metis
qed

subsection \<open>One round\<close>

lemma serves_audit_get:
  assumes "serves_audit view c" "find (\<lambda>a. meta_key (al_Meta a) = k) (audits (view w)) = Some a"
  obtains b w' where "cr_get_audit c k w = (Inr b, w')" "same_audit a b" "view w' = view w"
proof -
  have "case find (\<lambda>a. meta_key (al_Meta a) = k) (audits (view w)) of
        None \<Rightarrow> (\<exists>w'. cr_get_audit c k w = (Inl NotFound, w') \<and> view w' = view w)
      | Some a \<Rightarrow> (\<exists>b w'. cr_get_audit c k w = (Inr b, w') \<and> same_audit a b \<and> view w' = view w)"
    using assms(1) unfolding serves_audit_def by blast
  with assms(2) that show ?thesis by auto
qed

lemma serves_audit_status:
  assumes "serves_audit view c" "a \<in> set (audits (view w))" "same_audit a x"
  obtains b w' where "cr_status_audit c x w = (Inr b, w')" "same_audit x b" "al_Status b = al_Status x"
    "objects (view w') = objects (view w)" "commons (view w') = commons (view w)"
    "list_all2 same_audit (audits (view w)) (audits (view w'))"
proof -
  have "\<exists>b w'. cr_status_audit c x w = (Inr b, w') \<and> same_audit x b \<and> al_Status b = al_Status x \<and>
           objects (view w') = objects (view w) \<and> commons (view w') = commons (view w) \<and>
           list_all2 same_audit (audits (view w)) (audits (view w'))"
    using assms unfolding serves_audit_def by blast
  with that show ?thesis by blast
qed

lemma serves_audit_rest:
  assumes "serves_audit view c"
  shows "\<exists>w'. cr_list_common c ns w =
        (Inr (filter (\<lambda>a. ns = [] \<or> ca_Namespace a = ns) (commons (view w))), w') \<and> view w' = view w"
    and "\<exists>w'. cr_list_audit c w = (Inr (audits (view w)), w') \<and> view w' = view w"
    and "view (cr_event c e w) = view w"
  using assms unfolding serves_audit_def by blast+

lemma find_same_audit:
  assumes "list_all2 same_audit as bs" "find (\<lambda>a. meta_key (al_Meta a) = k) as = Some a"
  shows "\<exists>b. find (\<lambda>a. meta_key (al_Meta a) = k) bs = Some b \<and> same_audit a b"
  using assms by (induction rule: list_all2_induct) (auto simp: same_audit_def split: if_splits)

lemma al_inv_status:
  assumes "al_inv view ad r inst req ns c0 (w, g)" "objects (view w') = objects (view w)"
    "commons (view w') = commons (view w)" "list_all2 same_audit (audits (view w)) (audits (view w'))"
  shows "al_inv view ad r inst req ns c0 (w', g)"
proof -
  obtain a where a: "find (\<lambda>a. meta_key (al_Meta a) = req) (audits (view w)) = Some a" "same_audit inst a"
    using assms(1) by (auto simp: al_inv_def al_alone_def)
  from find_same_audit[OF assms(4) a(1)] obtain b where
    "find (\<lambda>a. meta_key (al_Meta a) = req) (audits (view w')) = Some b" "same_audit inst b"
    using same_audit_trans[OF a(2)] by blast
  then have "al_alone r inst req ns (view w')"
    using assms(1,3) list_all2_lengthD[OF assms(4)] by (auto simp: al_inv_def al_alone_def)
  then show ?thesis
    using assms steps_objects(1)[of view w' w] same_resources_audit[of c0 "view w" "view w'"]
    by (simp add: al_inv_def others_kept_def)
qed

lemma al_inv_view:
  assumes "al_inv view ad r inst req ns c0 (w, g)" "view w' = view w"
  shows "al_inv view ad r inst req ns c0 (w', g)"
  using assms steps_objects(1)[of view w' w] by (simp add: al_inv_def)

lemma al_status_request:
  assumes inv: "al_inv view ad r inst req ns c0 (w, g)" and serves: "serves_audit view (r_cr r)"
    and x: "same_audit inst x"
  obtains b w' where "cr_status_audit (r_cr r) x w = (Inr b, w')" "same_audit inst b"
    "objects (view w') = objects (view w)" "al_inv view ad r inst req ns c0 (w', g)"
proof -
  obtain a where a: "find (\<lambda>a. meta_key (al_Meta a) = req) (audits (view w)) = Some a" "same_audit inst a"
    using inv by (auto simp: al_inv_def al_alone_def)
  then have "a \<in> set (audits (view w))" by (auto simp: find_Some_iff)
  moreover have "same_audit a x" using same_audit_trans[OF same_audit_sym[OF a(2)] x] .
  ultimately obtain b w' where b: "cr_status_audit (r_cr r) x w = (Inr b, w')" "same_audit x b"
      "objects (view w') = objects (view w)" "commons (view w') = commons (view w)"
      "list_all2 same_audit (audits (view w)) (audits (view w'))"
    using serves_audit_status[OF serves] by metis
  show ?thesis
    by (rule that[OF b(1) same_audit_trans[OF x b(2)] b(3) al_inv_status[OF inv b(3-5)]])
qed

text \<open>The resource passes the checks; its policy is set, so the methods run.\<close>

lemma al_check_passes:
  assumes inv: "al_inv view ad r inst req ns c0 (w, g)" and serves: "serves_audit view (r_cr r)"
    and decided: "al_decided inst" and same: "same_audit inst b"
  obtains w' where "al_check_and_run r b (w, g) = al_run r b ns (w', g)" "view w' = view w"
proof -
  have adm: "length (audits (view w)) \<le> 1" "GetCSNamespace (r_env r) = Inr ns"
      "filter (\<lambda>a. ns = [] \<or> ca_Namespace a = ns) (commons (view w)) = []" "EnableAuditPolicy (al_policy b) \<noteq> []"
    using inv decided same by (simp_all add: al_inv_def al_alone_def al_decided_def same_audit_def)
  obtain w1 where w1: "cr_list_audit (r_cr r) w = (Inr (audits (view w)), w1)" "view w1 = view w"
    using serves_audit_rest(2)[OF serves, of w] by blast
  obtain w2 where w2: "cr_list_common (r_cr r) ns w1 = (Inr [], w2)" "view w2 = view w"
    using serves_audit_rest(1)[OF serves, of ns w1] w1(2) adm(3) by metis
  let ?w3 = "al_updateEvent r b ''Instance found'' EventTypeNormal ''Initializing'' w2"
  have "al_check_and_run r b (w, g) = al_run r b ns (?w3, g)"
    using w1(1) w2(1) adm by (simp add: al_check_and_run_def Let_def)
  then show ?thesis
    by (rule that) (simp add: al_updateEvent_def serves_audit_rest(3)[OF serves] w2(2))
qed

text \<open>What the round works with: the resource as it is read, or as the server stored its default status.\<close>

definition al_fetched :: "'w reconciler \<Rightarrow> nsname \<Rightarrow> 'w \<Rightarrow> AuditLogging \<Rightarrow> 'w \<Rightarrow> bool" where
  "al_fetched r req w b v \<longleftrightarrow>
     (\<exists>b1 w1. cr_get_audit (r_cr r) req w = (Inr b1, w1) \<and>
        (if length (elems (al_Nodes (al_Status b1))) = 0
         then cr_status_audit (r_cr r) (al_default_status b1) w1 = (Inr b, v) \<and> same_audit b1 b
         else b = b1 \<and> v = w1))"

lemma al_fetch:
  assumes inv: "al_inv view ad r inst req ns c0 (w, g)" and serves: "serves_audit view (r_cr r)"
    and decided: "al_decided inst"
  obtains b v w' where "al_Reconcile r req (w, g) = al_run r b ns (w', g)" "same_audit inst b"
    "objects (view w') = objects (view w)" "al_inv view ad r inst req ns c0 (w', g)"
    "al_fetched r req w b v" "view w' = view v"
proof -
  obtain a where a: "find (\<lambda>a. meta_key (al_Meta a) = req) (audits (view w)) = Some a" "same_audit inst a"
    using inv by (auto simp: al_inv_def al_alone_def)
  obtain b w1 where b: "cr_get_audit (r_cr r) req w = (Inr b, w1)" "same_audit a b" "view w1 = view w"
    using serves_audit_get[OF serves a(1)] by metis
  have same: "same_audit inst b" using same_audit_trans[OF a(2) b(2)] .
  note inv1 = al_inv_view[OF inv b(3)]
  show ?thesis
  proof (cases "length (elems (al_Nodes (al_Status b))) = 0")
    case True
    have "same_audit inst (al_default_status b)"
      using same by (simp add: same_audit_def al_default_status_def)
    from al_status_request[OF inv1 serves this] obtain b2 w2 where
      b2: "cr_status_audit (r_cr r) (al_default_status b) w1 = (Inr b2, w2)" "same_audit inst b2"
        "objects (view w2) = objects (view w1)" "al_inv view ad r inst req ns c0 (w2, g)" .
    obtain w3 where w3: "al_check_and_run r b2 (w2, g) = al_run r b2 ns (w3, g)" "view w3 = view w2"
      using al_check_passes[OF b2(4) serves decided b2(2)] .
    have fetched: "al_fetched r req w b2 w2"
      using True b(1) b2(1) same_audit_trans[OF same_audit_sym[OF same] b2(2)] by (auto simp: al_fetched_def)
    show ?thesis
      by (rule that[OF _ b2(2) _ al_inv_view[OF b2(4) w3(2)] fetched w3(2)])
        (use True b b2 w3 in \<open>simp_all add: al_Reconcile_def\<close>)
  next
    case False
    obtain w3 where w3: "al_check_and_run r b (w1, g) = al_run r b ns (w3, g)" "view w3 = view w1"
      using al_check_passes[OF inv1 serves decided same] .
    have fetched: "al_fetched r req w b w1" using False b(1) by (auto simp: al_fetched_def)
    show ?thesis
      by (rule that[OF _ same _ al_inv_view[OF inv1 w3(2)] fetched w3(2)])
        (use False b w3 in \<open>simp_all add: al_Reconcile_def\<close>)
  qed
qed

lemma al_entry:
  assumes "al_inv view ad r inst req ns c0 (w, g)" "serves_audit view (r_cr r)" "al_decided inst"
  obtains b w' where "al_Reconcile r req (w, g) = al_run r b ns (w', g)" "same_audit inst b"
    "objects (view w') = objects (view w)" "al_inv view ad r inst req ns c0 (w', g)"
  using al_fetch[OF assms] by metis

lemma al_status_quiet:
  assumes inv: "al_inv view ad r inst req ns c0 (w, g)" and serves: "serves_audit view (r_cr r)"
    and same: "same_audit inst b"
  obtains w' where "al_updateStatus r b ns w = (Done, w')" "objects (view w') = objects (view w)"
    "al_inv view ad r inst req ns c0 (w', g)"
proof -
  have list: "\<exists>pods w'. cl_list_pods (r_client r) ns sel w = (Inr pods, w') \<and> view w' = view w" for sel w
    using inv unfolding al_inv_def lawful_def stores_objects_def by blast
  obtain pods w0 where w0: "cl_list_pods (r_client r) ns (LabelsForSelector FluentdName (al_Name b)) w = (Inr pods, w0)"
      "view w0 = view w" using list by blast
  obtain policyPods w1 where
    w1: "cl_list_pods (r_client r) ns (LabelsForSelector AuditPolicyControllerDeploy (al_Name b)) w0 = (Inr policyPods, w1)"
      "view w1 = view w0" using list by blast
  have eq: "view w1 = view w" using w0(2) w1(2) by simp
  note inv1 = al_inv_view[OF inv eq]
  have "same_audit inst (b\<lparr>al_Status := st\<rparr>)" for st
    using same by (simp add: same_audit_def)
  from al_status_request[OF inv1 serves this] obtain b2 w2 where
    w2: "cr_status_audit (r_cr r) (b\<lparr>al_Status := \<lparr>al_Nodes = status_nodes (pods @ policyPods),
        al_Versions = \<lparr>Reconciled = opversion\<rparr>\<rparr>\<rparr>) w1 = (Inr b2, w2)"
      "objects (view w2) = objects (view w1)" "al_inv view ad r inst req ns c0 (w2, g)" .
  show ?thesis
    by (rule that[of "if status_nodes (pods @ policyPods) \<noteq> al_Nodes (al_Status b)
        \<or> opversion \<noteq> Reconciled (al_Versions (al_Status b)) then w2 else w1"])
      (use w0 w1 w2 eq inv1 in \<open>simp_all add: al_updateStatus_def Let_def\<close>)
qed

subsection \<open>Rounds\<close>

lemma al_total_objects:
  assumes "objects (view (fst s')) = objects (view (fst s))"
  shows "al.total r inst ns view s' = al.total r inst ns view s"
  using steps_objects(2)[of view "fst s'" "fst s" _ _ "snd s'" "snd s", OF assms]
  by (simp add: al.total_def cong: map_cong)

lemma al_round:
  assumes inv: "al_inv view ad r inst req ns c0 s" and serves: "serves_audit view (r_cr r)" and decided: "al_decided inst"
  shows "\<exists>s0. al_inv view ad r inst req ns c0 s0 \<and> al.total r inst ns view s0 = al.total r inst ns view s \<and>
    (\<forall>res s1. run_reconcilers (map snd (al_steps r inst ns)) s0 = (res, s1) \<longrightarrow> al_inv view ad r inst req ns c0 s1 \<longrightarrow>
       (\<exists>s'. al_Reconcile r req s = (res, s') \<and> al_inv view ad r inst req ns c0 s' \<and>
          al.total r inst ns view s' = al.total r inst ns view s1))"
proof -
  obtain w g where s: "s = (w, g)" by (cases s)
  obtain b w0 where entry: "al_Reconcile r req s = al_run r b ns (w0, g)" and b: "same_audit inst b"
    and w0: "objects (view w0) = objects (view w)" "al_inv view ad r inst req ns c0 (w0, g)"
    using al_entry[OF inv[unfolded s] serves decided] unfolding s by blast
  have "\<exists>s'. al_Reconcile r req s = (res, s') \<and> al_inv view ad r inst req ns c0 s' \<and>
      al.total r inst ns view s' = al.total r inst ns view s1"
    if s1: "run_reconcilers (map snd (al_steps r inst ns)) (w0, g) = (res, s1)" "al_inv view ad r inst req ns c0 s1" for res s1
  proof -
    obtain w1 g1 where s1': "s1 = (w1, g1)" by (cases s1)
    obtain w2 where w2: "al_updateStatus r b ns w1 = (Done, w2)" "objects (view w2) = objects (view w1)"
        "al_inv view ad r inst req ns c0 (w2, g1)"
      using al_status_quiet[OF s1(2)[unfolded s1'] serves b] .
    let ?w3 = "al_updateEvent r b msg_deployed EventTypeNormal ''Deployed'' w2"
    have w3: "view ?w3 = view w2" by (simp add: al_updateEvent_def serves_audit_rest(3)[OF serves])
    have "run_reconcilers (al_reconcilers r b ns) (w0, g) = (if stops res then (res, s1) else (Done, (w2, g1)))"
      by (rule run_and_finish[OF al_reconcilers_flat])
        (simp_all add: s1[unfolded al_run_same[OF b, symmetric]] s1' lift_world_def w2(1))
    then have run: "al_run r b ns (w0, g) = (if stops res then (res, s1) else (Done, (?w3, g1)))"
      by (simp add: al_run_def s1' stops_def)
    show ?thesis
    proof (cases "stops res")
      case True
      then show ?thesis using run entry s1(2) by simp
    next
      case False
      have "al.total r inst ns view (?w3, g1) = al.total r inst ns view s1"
        using al_total_objects[of view "(?w3, g1)" s1] w2(2) w3 by (simp add: s1')
      moreover have "res = Done" using False by (simp add: stops_def)
      ultimately show ?thesis
        using run entry False al_inv_view[OF w2(3) w3] by simp
    qed
  qed
  moreover have "al.total r inst ns view (w0, g) = al.total r inst ns view s"
    using al_total_objects[of view "(w0, g)" s] w0(1) by (simp add: s)
  ultimately show ?thesis using w0(2) by blast
qed

subsection \<open>Everything in place\<close>

definition al_config_in_place :: "'w reconciler \<Rightarrow> AuditLogging \<Rightarrow> string \<Rightarrow> cluster \<Rightarrow> string \<Rightarrow> bool" where
  "al_config_in_place r inst ns c name \<longleftrightarrow>
     (\<exists>e cm. BuildConfigMap (r_yaml r) inst name ns = Inr e \<and>
        objects c (KConfigMap, NamespacedName ns name) = Some (OConfigMap cm) \<and>
        al_config_drift (r_yaml r) name e cm = InSync)"

definition policy_in_place :: "'w reconciler \<Rightarrow> AuditLogging \<Rightarrow> string \<Rightarrow> cluster \<Rightarrow> bool" where
  "policy_in_place r inst ns c \<longleftrightarrow>
     (let found = objects c (KDeployment, NamespacedName ns AuditPolicyControllerDeploy);
          policy = EnableAuditPolicy (al_policy inst)
      in (policy = ''false'' \<longrightarrow> found = None) \<and>
         (policy = ''true'' \<longrightarrow> (\<exists>x. found = Some (ODeployment x) \<and>
            EqualDeployments (r_quantity r) (expected_policy r inst ns) x True = Some True)))"

definition audit_in_place :: "'w reconciler \<Rightarrow> AuditLogging \<Rightarrow> string \<Rightarrow> cluster \<Rightarrow> bool" where
  "audit_in_place r inst ns c \<longleftrightarrow>
     (\<forall>name \<in> set FluentdConfigMaps. al_config_in_place r inst ns c name) \<and> policy_in_place r inst ns c \<and>
     (\<exists>x. objects c (KJob, NamespacedName ns JobName) = Some (OJob x)) \<and>
     cert_in_place c (al_expected_cert inst ns AuditLoggingHTTPSCertName) \<and>
     cert_in_place c (al_expected_cert inst ns AuditLoggingCertName) \<and>
     (\<exists>x. objects c (KAccount, NamespacedName ns OperandServiceAccount) = Some (OAccount x)) \<and>
     (\<exists>x. objects c (KService, NamespacedName ns AuditLoggingComponentName) = Some (OService x) \<and>
        sv_Ports x = sv_Ports (BuildAuditService (al_Name inst) ns)) \<and>
     (\<exists>x. objects c (KDaemonSet, NamespacedName ns FluentdDaemonSetName) = Some (ODaemonSet x) \<and>
        EqualDaemonSets (r_quantity r) (expected_daemonset r inst ns) x = Some True)"

lemma al_rank_bound: "g \<in> set (al_gauges r inst ns) \<Longrightarrow> value_rank g v \<le> 2"
proof -
  have "value_rank (al_config_gauge ns name e) v \<le> 2" for name e
    by (cases v) (simp_all add: al_config_gauge_def)
  moreover have "value_rank (policy_gauge r inst ns) v \<le> 2"
    by (cases v) (simp_all add: policy_gauge_def object_gauge_def Let_def)
  moreover assume "g \<in> set (al_gauges r inst ns)"
  ultimately show ?thesis
    by (auto simp: al_gauges_def al_parts_def job_gauge_def cert_gauge_def al_account_gauge_def
        service_gauge_def daemonset_gauge_def object_rank_bound)
qed

lemma al_total_bound: "al.total r inst ns view s \<le> 24"
proof -
  note keys = al_steps_keys[of r inst ns]
  have "steps_rank view (al_gauges r inst ns) k s \<le> 2" if "k \<in> set (map fst (al_steps r inst ns))" for k
    using that al_rank_bound steps_rank_gauge[OF al_keys_distinct, of _ r inst ns view s] unfolding keys by force
  then have "al.total r inst ns view s \<le> (\<Sum>k \<leftarrow> map fst (al_steps r inst ns). 2)"
    unfolding al.total_def by (intro sum_list_mono)
  also have "\<dots> = 24" by (simp add: al_steps_def al_parts_def FluentdConfigMaps_def)
  finally show ?thesis .
qed

lemma al_settled_in_place:
  assumes inv: "al_inv view ad r inst req ns c0 s" and settled: "al.settled r inst ns view s"
  shows "audit_in_place r inst ns (view (fst s))"
proof -
  let ?c = "view (fst s)"
  have zero: "value_rank g (objects ?c (g_key g)) = 0" if "g \<in> set (al_gauges r inst ns)" for g
  proof -
    have "g_key g \<in> fst ` set (al_steps r inst ns)"
      using that by (force simp: al_gauges_def al_steps_def)
    then have "steps_rank view (al_gauges r inst ns) (g_key g) s = 0"
      using settled unfolding al.settled_def by blast
    then show ?thesis using steps_rank_gauge[OF al_keys_distinct that, of view s] by simp
  qed
  have yaml: "yaml_literal (r_yaml r)" using inv by (simp add: al_inv_def lawful_def)
  have config: "al_config_in_place r inst ns ?c name" if name: "name \<in> set FluentdConfigMaps" for name
  proof -
    let ?e = "al_expected_config r inst ns name"
    let ?g = "al_config_gauge ns name ?e"
    have e: "BuildConfigMap (r_yaml r) inst name ns = Inr ?e"
      using BuildConfigMap_new[OF yaml name, of inst ns] by (auto simp: al_expected_config_def)
    have g: "?g \<in> set (al_gauges r inst ns)" using name by (simp add: al_gauges_def al_parts_def)
    have "value_wf ?g (objects ?c (g_key ?g))" using inv g by (simp add: al_inv_def steps_wf_def)
    with zero[OF g] obtain cm where cm: "objects ?c (g_key ?g) = Some (OConfigMap cm)"
        "al_config_wf name (OConfigMap cm)" "al_in_sync name ?e cm"
      by (cases "objects ?c (g_key ?g)") (auto simp: al_config_gauge_def split: if_splits)
    from al_config_drift_cases[OF yaml name cm(2), of ?e] cm(3)
    have "al_config_drift (r_yaml r) name ?e cm = InSync" by simp
    then show ?thesis using e cm(1) by (auto simp: al_config_in_place_def al_config_gauge_def)
  qed
  have policy: "policy_gauge r inst ns \<in> set (al_gauges r inst ns)" by (simp add: al_gauges_def al_parts_def)
  have "policy_in_place r inst ns ?c"
    using zero[OF policy]
    by (cases "objects ?c (KDeployment, NamespacedName ns AuditPolicyControllerDeploy)")
      (auto simp: policy_in_place_def policy_gauge_def Let_def object_gauge_def split: if_splits)
  moreover have mem: "job_gauge ns \<in> set (al_gauges r inst ns)"
      "cert_gauge (al_expected_cert inst ns AuditLoggingHTTPSCertName) \<in> set (al_gauges r inst ns)"
      "cert_gauge (al_expected_cert inst ns AuditLoggingCertName) \<in> set (al_gauges r inst ns)"
      "al_account_gauge ns \<in> set (al_gauges r inst ns)"
      "service_gauge (BuildAuditService (al_Name inst) ns) \<in> set (al_gauges r inst ns)"
      "daemonset_gauge r inst ns \<in> set (al_gauges r inst ns)"
    by (simp_all add: al_gauges_def al_parts_def)
  note rest = mem[THEN zero, unfolded job_gauge_def cert_gauge_def al_account_gauge_def service_gauge_def
      daemonset_gauge_def object_gauge_simps(1) object_in_place service_key]
  ultimately show ?thesis
    unfolding audit_in_place_def cert_in_place_def using config rest by blast
qed

lemma al_reaches:
  assumes inv: "al_inv view ad r inst req ns c0 s" and serves: "serves_audit view (r_cr r)" and decided: "al_decided inst"
  shows "\<exists>s'. rounds 25 (al_Reconcile r req) s = Some (Done, s') \<and> al_inv view ad r inst req ns c0 s' \<and>
    audit_in_place r inst ns (view (fst s'))"
proof -
  have "al.total r inst ns view s < 25" using al_total_bound[of r inst ns view s] by linarith
  then show ?thesis using al.rounds_last[OF al_round[OF _ serves decided] inv] al_settled_in_place by blast
qed

subsection \<open>Properties\<close>

text \<open>C4: The controller of AuditLogging converges. When the one resource of the cluster is admitted and says
  whether it wants the policy controller, and the output plugin files that exist already have current tags or
  are readable, then Reconcile, run again as long as it asks to be, ends without an error after at most 25
  rounds, whatever is missing or has been changed; then every operand is in place, and the policy
  controller is deployed or gone, as the resource says. No object but these operands is touched, and of
  the resources only the status.\<close>

theorem audit_logging_converges:
  assumes "lawful view ad r" "serves_audit view (r_cr r)"
    and "m_Namespace (al_Meta inst) = []" "al_admitted r inst req ns (view w)"
    and "steps_wf view (al_gauges r inst ns) w" "built g"
  shows "\<exists>w' g'. rounds 25 (al_Reconcile r req) (w, g) = Some (Done, (w', g')) \<and>
    audit_in_place r inst ns (view w') \<and> others_kept (al_gauges r inst ns) (view w) (view w')"
proof -
  have "al_inv view ad r inst req ns (view w) (w, g)"
    using assms by (simp add: al_inv_def al_admitted_def others_kept_def)
  moreover have "al_decided inst" using assms(4) by (simp add: al_admitted_def)
  ultimately show ?thesis using al_reaches[of view ad r inst req ns "view w" "(w, g)"] assms(2) by (auto simp: al_inv_def)
qed

text \<open>A cluster with one resource, which does not want the policy controller that is deployed.\<close>

definition sample_audit :: AuditLogging where
  "sample_audit = (let a = new_auditlogging ''al'' in a\<lparr>al_Spec := (al_Spec a)\<lparr>al_PolicyController :=
     (al_PolicyController (al_Spec a))\<lparr>EnableAuditPolicy := ''false''\<rparr>\<rparr>\<rparr>)"

definition sample_audit_cluster :: cluster where
  "sample_audit_cluster =
     \<lparr>objects = [(KDeployment, NamespacedName ''cs'' AuditPolicyControllerDeploy) \<mapsto>
        ODeployment (fst (BuildDeploymentForPolicyController Map.empty sample_audit ''cs'' init_globals))],
      commons = [], audits = [sample_audit]\<rparr>"

text \<open>It satisfies every hypothesis.\<close>

lemma sample_cluster_scoped: "m_Namespace (al_Meta sample_audit) = []"
  by (simp add: sample_audit_def Let_def new_auditlogging_def zero_meta_def)

lemma sample_audit_admitted:
  "al_admitted (memory_reconciler ''cs'') sample_audit (NamespacedName [] ''al'') ''cs'' (stored sample_audit_cluster)"
  by (simp add: al_admitted_def al_alone_def al_decided_def sample_audit_cluster_def sample_audit_def new_auditlogging_def Let_def meta_key_def
      same_audit_def memory_reconciler_def GetCSNamespace_def zero_meta_def)

lemma sample_audit_decided: "al_decided sample_audit"
  by (simp add: al_decided_def sample_audit_def new_auditlogging_def Let_def)

lemma sample_audit_readable: "steps_wf stored (al_gauges (memory_reconciler ''cs'') sample_audit ''cs'') sample_audit_cluster"
  by (auto simp: steps_wf_def stored_def sample_audit_cluster_def al_gauges_def al_parts_def al_config_gauge_def
      job_gauge_def cert_gauge_def al_account_gauge_def service_gauge_def daemonset_gauge_def policy_gauge_def
      value_wf_def object_gauge_def Let_def split: option.splits)

theorem audit_logging_converges_witness:
  "\<exists>c g. rounds 25 (al_Reconcile (memory_reconciler ''cs'') (NamespacedName [] ''al''))
      (sample_audit_cluster, init_globals) = Some (Done, (c, g)) \<and>
    audit_in_place (memory_reconciler ''cs'') sample_audit ''cs'' (stored c) \<and>
    others_kept (al_gauges (memory_reconciler ''cs'') sample_audit ''cs'') (stored sample_audit_cluster) (stored c)"
  by (rule audit_logging_converges[OF memory_lawful memory_serves(2) sample_cluster_scoped
        sample_audit_admitted sample_audit_readable built.init])

end
