(* ===== verification/Manager.thy ===== *)
theory Manager
  imports FilteredCache
begin

text \<open>
  main.go and the registration of the two controllers: the cache that is chosen (with a list of
  namespaces in the environment the one of controllers/k8sutil, otherwise the filtered cache of
  IBM/controller-filtered-cache, with a label selector per kind), the kinds each controller watches, and
  the stages of \<open>main\<close>. The manager of controller-runtime is the parameter \<open>manager_pkg\<close>, over a
  type of managers.
\<close>

subsection \<open>The cache\<close>

definition watchNamespaceEnvVar :: string where
  "watchNamespaceEnvVar = ''WATCH_NAMESPACE''"

definition getWatchNamespace :: "environ \<Rightarrow> string + string" where
  "getWatchNamespace env =
     (case env watchNamespaceEnvVar of
        None \<Rightarrow> Inl (watchNamespaceEnvVar @ '' must be set'')
      | Some ns \<Rightarrow> Inr ns)"

text \<open>The group and version of the cert-manager types come from their own module.\<close>

definition gvkLabelMap :: "string \<Rightarrow> string \<Rightarrow> (GroupVersionKind \<times> string) list" where
  "gvkLabelMap certmgrGroup certmgrVersion =
     [(GVK [] ''v1'' ''Secret'', AuditTypeLabel),
      (GVK [] ''v1'' ''ConfigMap'', AuditTypeLabel),
      (GVK [] ''v1'' ''Service'', AuditTypeLabel),
      (GVK [] ''v1'' ''ServiceAccount'', AuditTypeLabel),
      (GVK ''apps'' ''v1'' ''Deployment'', AuditTypeLabel),
      (GVK ''apps'' ''v1'' ''DaemonSet'', AuditTypeLabel),
      (GVK ''rbac.authorization.k8s.io'' ''v1'' ''Role'', AuditTypeLabel),
      (GVK ''rbac.authorization.k8s.io'' ''v1'' ''RoleBinding'', AuditTypeLabel),
      (GVK ''batch'' ''v1'' ''Job'', AuditTypeLabel),
      (GVK certmgrGroup certmgrVersion ''Certificate'', AuditTypeLabel),
      (GVK certmgrGroup certmgrVersion ''Issuer'', AuditTypeLabel)]"

datatype cache_choice =
    AuditCache "string list"                           \<comment> \<open>\<open>k8sutil.NewAuditCache\<close>\<close>
  | FilteredCacheBuilder "(GroupVersionKind \<times> string) list"

text \<open>An error of \<open>getWatchNamespace\<close> is logged and its empty string used.\<close>

definition choose_cache :: "string \<Rightarrow> string \<Rightarrow> environ \<Rightarrow> cache_choice" where
  "choose_cache certmgrGroup certmgrVersion env =
     (let watchNamespace = (case getWatchNamespace env of Inl _ \<Rightarrow> [] | Inr ns \<Rightarrow> ns)
      in if watchNamespace \<noteq> [] then AuditCache (Split watchNamespace '','')
         else FilteredCacheBuilder (gvkLabelMap certmgrGroup certmgrVersion))"

subsection \<open>What the controllers watch\<close>

text \<open>A kind is named as in a \<open>GroupVersionKind\<close>. A change of an object of a kind in \<open>wt_Owns\<close> triggers a
  round for its owner.\<close>

record watches =
  wt_For :: string
  wt_Owns :: "string list"

text \<open>\<open>SetupWithManager\<close> registers the controller; \<open>Complete\<close> may fail. A manager is mutable, so each
  call returns the one it leaves.\<close>

record ctrl_options =
  ct_MetricsBindAddress :: string
  ct_Port :: int
  ct_LeaderElection :: bool
  ct_LeaderElectionID :: string
  ct_NewCache :: cache_choice

record 'm manager_pkg =
  mg_GetConfigOrDie :: "rest_config option"  \<comment> \<open>\<open>None\<close>: exits with code 1\<close>
  mg_NewManager :: "rest_config \<Rightarrow> ctrl_options \<Rightarrow> string + 'm"
  mg_Complete :: "watches \<Rightarrow> 'm \<Rightarrow> string option \<times> 'm"
  mg_Start :: "'m \<Rightarrow> string option \<times> 'm"

definition ca_watches :: watches where
  "ca_watches = \<lparr>wt_For = ''CommonAudit'',
     wt_Owns = [''Deployment'', ''ConfigMap'', ''Certificate'', ''Secret'', ''ServiceAccount'', ''Role'',
       ''RoleBinding'', ''Service'', ''Issuer'']\<rparr>"

definition ca_SetupWithManager :: "'m manager_pkg \<Rightarrow> 'm \<Rightarrow> string option \<times> 'm" where
  "ca_SetupWithManager p mgr = mg_Complete p ca_watches mgr"

definition al_watches :: watches where
  "al_watches = \<lparr>wt_For = ''AuditLogging'',
     wt_Owns = [''DaemonSet'', ''ConfigMap'', ''Certificate'', ''ServiceAccount'', ''Role'', ''RoleBinding'',
       ''Service'', ''Job'', ''Deployment'']\<rparr>"

definition al_SetupWithManager :: "'m manager_pkg \<Rightarrow> 'm \<Rightarrow> string option \<times> 'm" where
  "al_SetupWithManager p mgr = mg_Complete p al_watches mgr"

subsection \<open>main\<close>

record flags =
  fl_metricsAddr :: string
  fl_enableLeaderElection :: bool

definition default_flags :: flags where
  "default_flags = \<lparr>fl_metricsAddr = '':8080'', fl_enableLeaderElection = False\<rparr>"

text \<open>How the process ends: with an exit code, or by returning once the manager has stopped. The result
  of \<open>main\<close> also has what is logged.\<close>

datatype process_end = Exit int | Returned

definition main_options :: "string \<Rightarrow> string \<Rightarrow> environ \<Rightarrow> flags \<Rightarrow> ctrl_options" where
  "main_options certmgrGroup certmgrVersion env fl =
     \<lparr>ct_MetricsBindAddress = fl_metricsAddr fl, ct_Port = 9443, ct_LeaderElection = fl_enableLeaderElection fl,
      ct_LeaderElectionID = ''d9301293.ibm.com'', ct_NewCache = choose_cache certmgrGroup certmgrVersion env\<rparr>"

definition run_main :: "'m manager_pkg \<Rightarrow> string \<Rightarrow> string \<Rightarrow> environ \<Rightarrow> flags \<Rightarrow> process_end \<times> string list" where
  "run_main p certmgrGroup certmgrVersion env fl =
     (let log = (case getWatchNamespace env of
                   Inl err \<Rightarrow> [''unable to get WatchNamespace, '' @
                               ''the manager will watch and manage resources in all namespaces'']
                 | Inr _ \<Rightarrow> [])
      in case mg_GetConfigOrDie p of
           None \<Rightarrow> (Exit 1, log)
         | Some config \<Rightarrow>
             (case mg_NewManager p config (main_options certmgrGroup certmgrVersion env fl) of
                Inl err \<Rightarrow> (Exit 1, log @ [''unable to start manager''])
              | Inr mgr \<Rightarrow>
                  (case ca_SetupWithManager p mgr of
                     (Some err, mgr) \<Rightarrow> (Exit 1, log @ [''unable to create controller''])
                   | (None, mgr) \<Rightarrow>
                       (case al_SetupWithManager p mgr of
                          (Some err, mgr) \<Rightarrow> (Exit 1, log @ [''unable to create controller''])
                        | (None, mgr) \<Rightarrow>
                            (case mg_Start p mgr of
                               (Some err, mgr) \<Rightarrow>
                                 (Exit 1, log @ [''starting manager'', ''problem running manager''])
                             | (None, mgr) \<Rightarrow> (Returned, log @ [''starting manager'']))))))"

subsection \<open>Lemmas\<close>

lemma Split_char_pieces: "list_all (\<lambda>p. x \<notin> set p) (Split s [x])"
proof (induction s rule: measure_induct_rule[where f = length])
  case (less s)
  show ?case
  proof (cases "cut [x] s")
    case None
    then show ?thesis by (simp add: Split_char_single)
  next
    case (Some p)
    then obtain a b where "x \<notin> set a" "s = a @ x # b"
      by (cases p) (auto dest: cut_char_SomeD)
    then show ?thesis using less by (simp add: Split_char_Cons)
  qed
qed

subsection \<open>Properties\<close>

text \<open>With a non-empty list of namespaces in the environment the manager gets the cache of
  \<open>NewAuditCache\<close>, for exactly the namespaces of the list (which, joined with commas, give it back, and
  none of which has a comma). Without the variable, or with an empty one, it watches all namespaces
  through the filtered cache, which sees eleven kinds only by the label of the operator.\<close>

theorem choose_cache_namespaces:
  "(case env watchNamespaceEnvVar of
      Some (c # cs) \<Rightarrow> (\<exists>namespaces. choose_cache g v env = AuditCache namespaces \<and>
        Join namespaces '','' = c # cs \<and> list_all (\<lambda>ns. CHR '','' \<notin> set ns) namespaces)
    | _ \<Rightarrow> choose_cache g v env = FilteredCacheBuilder (gvkLabelMap g v) \<and>
        map snd (gvkLabelMap g v) = replicate 11 AuditTypeLabel)"
  using Split_char_pieces[of "CHR '',''"] Join_Split[of "'',''"]
  by (auto simp: choose_cache_def getWatchNamespace_def gvkLabelMap_def eval_nat_numeral
      split: option.splits list.splits)

end
