(* ===== verification/Operands.thy ===== *)
theory Operands
  imports CommonAuditConverges AuditLoggingConverges Manager
begin

text \<open>
  The operands of a resource as they are built, one list per controller in the order of its reconcile
  methods, and how they fit together: the references of the pods, certificates and services resolve
  among them, but for a list of names that is stated exactly, the controller watches every kind of them, and each carries the label by which the
  filtered cache of the manager sees it.
\<close>

subsection \<open>Objects\<close>

fun object_kind :: "kobject \<Rightarrow> kind" where
  "object_kind (OConfigMap _) = KConfigMap"
| "object_kind (OSecret _) = KSecret"
| "object_kind (OService _) = KService"
| "object_kind (OAccount _) = KAccount"
| "object_kind (ODeployment _) = KDeployment"
| "object_kind (ODaemonSet _) = KDaemonSet"
| "object_kind (OJob _) = KJob"
| "object_kind (OIssuer _) = KIssuer"
| "object_kind (OCert _) = KCert"

fun object_meta :: "kobject \<Rightarrow> objmeta" where
  "object_meta (OConfigMap x) = cm_Meta x"
| "object_meta (OSecret x) = se_Meta x"
| "object_meta (OService x) = sv_Meta x"
| "object_meta (OAccount x) = sa_Meta x"
| "object_meta (ODeployment x) = d_Meta x"
| "object_meta (ODaemonSet x) = dset_Meta x"
| "object_meta (OJob x) = j_Meta x"
| "object_meta (OIssuer x) = i_Meta x"
| "object_meta (OCert x) = ct_Meta x"

definition key_of :: "kobject \<Rightarrow> object_key" where
  "key_of ob = (object_kind ob, meta_key (object_meta ob))"

fun kind_name :: "kind \<Rightarrow> string" where
  "kind_name KConfigMap = ''ConfigMap''"
| "kind_name KSecret = ''Secret''"
| "kind_name KService = ''Service''"
| "kind_name KAccount = ''ServiceAccount''"
| "kind_name KDeployment = ''Deployment''"
| "kind_name KDaemonSet = ''DaemonSet''"
| "kind_name KJob = ''Job''"
| "kind_name KIssuer = ''Issuer''"
| "kind_name KCert = ''Certificate''"

text \<open>What the reconcile methods build and create.\<close>

definition ca_operands :: "'w reconciler \<Rightarrow> CommonAudit \<Rightarrow> kobject list" where
  "ca_operands r inst =
     map (\<lambda>name. OConfigMap (expected_config r inst name)) FluentdConfigMaps @
     [OIssuer (BuildGodIssuer (ca_Namespace inst)), OCert (BuildRootCACert (ca_Namespace inst)),
      OIssuer (BuildRootCAIssuer (ca_Namespace inst)), OCert (expected_https_cert inst),
      OSecret (BuildSecret inst), OAccount (BuildServiceAccount (ca_Namespace inst)),
      OService (BuildAuditService (ca_Name inst) (ca_Namespace inst)), ODeployment (expected_fluentd r inst)]"

definition al_operands :: "'w reconciler \<Rightarrow> AuditLogging \<Rightarrow> string \<Rightarrow> kobject list" where
  "al_operands r inst ns =
     [OJob (BuildJobForAuditLogging (r_env r) inst ns), ODeployment (expected_policy r inst ns)] @
     map (\<lambda>name. OConfigMap (al_expected_config r inst ns name)) FluentdConfigMaps @
     [OCert (al_expected_cert inst ns AuditLoggingHTTPSCertName),
      OCert (al_expected_cert inst ns AuditLoggingCertName), OAccount (BuildServiceAccount ns),
      OService (BuildAuditService (al_Name inst) ns), ODaemonSet (expected_daemonset r inst ns)]"

subsection \<open>What is built\<close>

lemma fluentd_meta:
  "d_Meta (expected_fluentd r inst) =
     zero_meta\<lparr>m_Name := FluentdDeploymentName, m_Namespace := ca_Namespace inst,
               m_Labels := LabelsForMetadata FluentdName\<rparr>"
  using default_resources_total[of "r_quantity r" "caf_Resources (ca_Fluentd (ca_Spec inst))"]
  by (auto simp: expected_fluentd_def BuildDeploymentForFluentd_def Let_def)

lemma fluentd_pods:
  obtains c where "ps_Containers (pt_Spec (ds_Template (d_Spec (expected_fluentd r inst)))) = Some [c]"
    "c_VolumeMounts c = buildFluentdDeploymentVolumeMounts" "c_Env c = c_Env init_fluentdMainContainer"
    "c_Ports c = c_Ports init_fluentdMainContainer"
    "ps_Volumes (pt_Spec (ds_Template (d_Spec (expected_fluentd r inst)))) = buildFluentdDeploymentVolumes"
    "ps_ServiceAccountName (pt_Spec (ds_Template (d_Spec (expected_fluentd r inst)))) = OperandServiceAccount"
    "m_Labels (pt_Meta (ds_Template (d_Spec (expected_fluentd r inst)))) = LabelsForPodMetadata FluentdName (ca_Name inst)"
  using default_resources_total[of "r_quantity r" "caf_Resources (ca_Fluentd (ca_Spec inst))"]
  by (auto simp: expected_fluentd_def BuildDeploymentForFluentd_def Let_def init_globals_def)

lemma daemonset_meta:
  "dset_Meta (expected_daemonset r inst ns) =
     zero_meta\<lparr>m_Name := FluentdDaemonSetName, m_Namespace := ns, m_Labels := LabelsForMetadata FluentdName\<rparr>"
  using default_resources_total[of "r_quantity r" "alf_Resources (al_Fluentd (al_Spec inst))"]
  by (auto simp: expected_daemonset_def BuildDaemonForFluentd_def Let_def)

lemma daemonset_pods:
  obtains c where "ps_Containers (pt_Spec (dss_Template (dset_Spec (expected_daemonset r inst ns)))) = Some [c]"
    "c_VolumeMounts c = buildDaemonsetVolumeMounts inst" "c_Env c = c_Env init_fluentdMainContainer"
    "c_Ports c = c_Ports init_fluentdMainContainer"
    "ps_Volumes (pt_Spec (dss_Template (dset_Spec (expected_daemonset r inst ns)))) = buildDaemonsetVolumes inst"
    "ps_ServiceAccountName (pt_Spec (dss_Template (dset_Spec (expected_daemonset r inst ns)))) = OperandServiceAccount"
    "m_Labels (pt_Meta (dss_Template (dset_Spec (expected_daemonset r inst ns)))) = LabelsForPodMetadata FluentdName (al_Name inst)"
  using default_resources_total[of "r_quantity r" "alf_Resources (al_Fluentd (al_Spec inst))"]
  by (auto simp: expected_daemonset_def BuildDaemonForFluentd_def Let_def init_globals_def)

lemma policy_meta:
  "d_Meta (expected_policy r inst ns) =
     zero_meta\<lparr>m_Name := AuditPolicyControllerDeploy, m_Namespace := ns,
               m_Labels := LabelsForMetadata AuditPolicyControllerDeploy\<rparr>"
  by (simp add: expected_policy_def BuildDeploymentForPolicyController_def Let_def)

lemma case_Inr: "(case x of Inl e \<Rightarrow> Inl e | Inr d \<Rightarrow> Inr (f d)) = Inr y \<Longrightarrow> \<exists>d. y = f d"
  by (cases x) auto

lemma built_config_meta:
  "BuildFluentdConfigMap yaml inst name = Inr cm \<Longrightarrow> cm_Meta cm =
     zero_meta\<lparr>m_Name := name, m_Namespace := ca_Namespace inst, m_Labels := LabelsForMetadata FluentdName\<rparr>"
  "BuildConfigMap yaml al name ns = Inr cm \<Longrightarrow> cm_Meta cm =
     zero_meta\<lparr>m_Name := name, m_Namespace := ns, m_Labels := LabelsForMetadata FluentdName\<rparr>"
  unfolding BuildFluentdConfigMap_def BuildConfigMap_def Let_def by (drule case_Inr, clarsimp)+

lemma config_meta:
  assumes "yaml_literal (r_yaml r)" "name \<in> set FluentdConfigMaps"
  shows "values_ok inst \<Longrightarrow> cm_Meta (expected_config r inst name) =
      zero_meta\<lparr>m_Name := name, m_Namespace := ca_Namespace inst, m_Labels := LabelsForMetadata FluentdName\<rparr>"
    and "cm_Meta (al_expected_config r al ns name) =
      zero_meta\<lparr>m_Name := name, m_Namespace := ns, m_Labels := LabelsForMetadata FluentdName\<rparr>"
proof -
  show "cm_Meta (expected_config r inst name) =
      zero_meta\<lparr>m_Name := name, m_Namespace := ca_Namespace inst, m_Labels := LabelsForMetadata FluentdName\<rparr>"
    if ok: "values_ok inst"
  proof -
    obtain cm where "BuildFluentdConfigMap (r_yaml r) inst name = Inr cm"
      using BuildFluentdConfigMap_total[OF assms(1) ok assms(2)] by blast
    then show ?thesis using built_config_meta(1) by (simp add: expected_config_def)
  qed
  obtain cm where "BuildConfigMap (r_yaml r) al name ns = Inr cm"
    using BuildConfigMap_new[OF assms] by blast
  then show "cm_Meta (al_expected_config r al ns name) =
      zero_meta\<lparr>m_Name := name, m_Namespace := ns, m_Labels := LabelsForMetadata FluentdName\<rparr>"
    using built_config_meta(2) by (simp add: al_expected_config_def)
qed

subsection \<open>Keys of the ConfigMaps\<close>

definition config_entries :: "(string \<times> string) list" where
  "config_entries =
     [(cm_name ConfigName, EnableAuditLogForwardKey), (cm_name ConfigName, FluentdConfigKey),
      (cm_name SourceConfigName, SourceConfigKey), (cm_name SplunkConfigName, SplunkConfigKey),
      (cm_name QRadarConfigName, QRadarConfigKey)]"

definition has_key :: "(string, string) gomap \<Rightarrow> string \<Rightarrow> bool" where
  "has_key d k = (case d of None \<Rightarrow> False | Some f \<Rightarrow> fmlookup f k \<noteq> None)"

lemma built_has_key:
  "BuildFluentdConfigMap yaml inst name = Inr cm \<Longrightarrow> (name, k) \<in> set config_entries \<Longrightarrow> has_key (cm_Data cm) k"
  "BuildConfigMap yaml al name ns = Inr dm \<Longrightarrow> (name, k) \<in> set config_entries \<Longrightarrow> has_key (cm_Data dm) k"
  unfolding config_entries_def list.set insert_iff empty_iff prod.inject
  by (elim disjE conjE FalseE; hypsubst;
      auto simp: BuildFluentdConfigMap_def BuildConfigMap_def Let_def has_key_def cm_name_defs split: sum.split_asm)+

lemma config_has_key:
  assumes "yaml_literal (r_yaml r)" "(name, k) \<in> set config_entries"
  shows "values_ok inst \<Longrightarrow> has_key (cm_Data (expected_config r inst name)) k"
    and "has_key (cm_Data (al_expected_config r al ns name)) k"
proof -
  have name: "name \<in> set FluentdConfigMaps"
    using assms(2) by (auto simp: config_entries_def FluentdConfigMaps_def)
  show "has_key (cm_Data (expected_config r inst name)) k" if ok: "values_ok inst"
  proof -
    obtain cm where "BuildFluentdConfigMap (r_yaml r) inst name = Inr cm"
      using BuildFluentdConfigMap_total[OF assms(1) ok name] by blast
    then show ?thesis using built_has_key(1) assms(2) by (simp add: expected_config_def)
  qed
  obtain cm where "BuildConfigMap (r_yaml r) al name ns = Inr cm"
    using BuildConfigMap_new[OF assms(1) name] by blast
  then show "has_key (cm_Data (al_expected_config r al ns name)) k"
    using built_has_key(2) assms(2) by (simp add: al_expected_config_def)
qed

subsection \<open>References\<close>

text \<open>What an object names that has to be there: a service account, a key of a ConfigMap, a secret, an
  issuer. A pod names its account, the sources of its volumes and of its environment; a certificate its
  issuer, and an issuer the secret of its authority.\<close>

datatype reference = RAccount string | RKey string string | RSecret string | RIssuer string

definition volume_references :: "volume \<Rightarrow> reference list" where
  "volume_references v = (case v_Source v of
     VConfigMap cmv \<Rightarrow> map (\<lambda>(k, path). RKey (cmv_Name cmv) k) (elems (cmv_Items cmv))
   | VSecret name \<Rightarrow> [RSecret name]
   | VEmptyDir \<Rightarrow> [])"

definition env_references :: "container \<Rightarrow> reference list" where
  "env_references c = concat (map (\<lambda>e. case ev_ConfigMapKeyRef e of None \<Rightarrow> [] | Some ks \<Rightarrow> [RKey (ks_Name ks) (ks_Key ks)])
     (elems (c_Env c)))"

definition pod_references :: "pod_template \<Rightarrow> reference list" where
  "pod_references t = RAccount (ps_ServiceAccountName (pt_Spec t)) #
     concat (map volume_references (elems (ps_Volumes (pt_Spec t)))) @
     concat (map env_references (elems (ps_Containers (pt_Spec t))))"

fun object_references :: "kobject \<Rightarrow> reference list" where
  "object_references (ODeployment d) = pod_references (ds_Template (d_Spec d))"
| "object_references (ODaemonSet d) = pod_references (dss_Template (dset_Spec d))"
| "object_references (OJob j) = pod_references (j_Template j)"
| "object_references (OIssuer i) = (case is_CA (i_Spec i) of None \<Rightarrow> [] | Some name \<Rightarrow> [RSecret name])"
| "object_references (OCert ct) = [RIssuer (cs_IssuerName (ct_Spec ct))]"
| "object_references _ = []"

text \<open>An object of the list that a reference names; a secret may be there already or be the one that
  cert-manager writes for a certificate.\<close>

definition provides_key :: "kobject list \<Rightarrow> string \<Rightarrow> string \<Rightarrow> bool" where
  "provides_key obs name k = list_ex (\<lambda>ob. case ob of
     OConfigMap cm \<Rightarrow> m_Name (cm_Meta cm) = name \<and> has_key (cm_Data cm) k | _ \<Rightarrow> False) obs"

definition provides_secret :: "kobject list \<Rightarrow> string \<Rightarrow> bool" where
  "provides_secret obs name = list_ex (\<lambda>ob. case ob of
     OSecret se \<Rightarrow> m_Name (se_Meta se) = name | OCert ct \<Rightarrow> cs_SecretName (ct_Spec ct) = name | _ \<Rightarrow> False) obs"

definition provides_account :: "kobject list \<Rightarrow> string \<Rightarrow> bool" where
  "provides_account obs name =
     list_ex (\<lambda>ob. case ob of OAccount sa \<Rightarrow> m_Name (sa_Meta sa) = name | _ \<Rightarrow> False) obs"

definition provides_issuer :: "kobject list \<Rightarrow> string \<Rightarrow> bool" where
  "provides_issuer obs name =
     list_ex (\<lambda>ob. case ob of OIssuer i \<Rightarrow> m_Name (i_Meta i) = name | _ \<Rightarrow> False) obs"

fun provides :: "kobject list \<Rightarrow> reference \<Rightarrow> bool" where
  "provides obs (RAccount name) = provides_account obs name"
| "provides obs (RKey name k) = provides_key obs name k"
| "provides obs (RSecret name) = provides_secret obs name"
| "provides obs (RIssuer name) = provides_issuer obs name"

text \<open>The references of a list of objects that none of them answers.\<close>

definition unresolved :: "kobject list \<Rightarrow> reference list" where
  "unresolved obs = filter (\<lambda>x. \<not> provides obs x) (concat (map object_references obs))"

text \<open>A mount names a volume, and its sub-path, if any, a file in that volume.\<close>

definition mount_resolves :: "volume list \<Rightarrow> volume_mount \<Rightarrow> bool" where
  "mount_resolves vs m = list_ex (\<lambda>v. v_Name v = vm_Name m \<and>
     (vm_SubPath m = [] \<or> (case v_Source v of
        VConfigMap cmv \<Rightarrow> vm_SubPath m \<in> set (map snd (elems (cmv_Items cmv))) | _ \<Rightarrow> False))) vs"

definition container_fits :: "volume list \<Rightarrow> container \<Rightarrow> bool" where
  "container_fits vs c \<longleftrightarrow>
     list_all (mount_resolves vs) (elems (c_VolumeMounts c)) \<and> distinct (map vm_MountPath (elems (c_VolumeMounts c)))"

definition pods_fit :: "pod_template \<Rightarrow> bool" where
  "pods_fit t \<longleftrightarrow>
     distinct (map v_Name (elems (ps_Volumes (pt_Spec t)))) \<and>
     list_all (container_fits (elems (ps_Volumes (pt_Spec t)))) (elems (ps_Containers (pt_Spec t)))"

fun object_fits :: "kobject \<Rightarrow> bool" where
  "object_fits (ODeployment d) = pods_fit (ds_Template (d_Spec d))"
| "object_fits (ODaemonSet d) = pods_fit (dss_Template (dset_Spec d))"
| "object_fits (OJob j) = pods_fit (j_Template j)"
| "object_fits _ = True"

text \<open>The service selects the pods, and every port they open is a target of it.\<close>

definition service_reaches :: "service \<Rightarrow> pod_template \<Rightarrow> bool" where
  "service_reaches sv t \<longleftrightarrow> label_le (sv_Selector sv) (m_Labels (pt_Meta t)) \<and>
     list_all (\<lambda>c. list_all (\<lambda>p. cp_ContainerPort p \<in> set (map sp_TargetPort (elems (sv_Ports sv)))) (elems (c_Ports c)))
       (elems (ps_Containers (pt_Spec t)))"

lemma provides_simps [simp]:
  "provides_key obs n k \<longleftrightarrow> (\<exists>cm. OConfigMap cm \<in> set obs \<and> m_Name (cm_Meta cm) = n \<and> has_key (cm_Data cm) k)"
  "provides_secret obs n \<longleftrightarrow> (\<exists>se. OSecret se \<in> set obs \<and> m_Name (se_Meta se) = n) \<or>
     (\<exists>ct. OCert ct \<in> set obs \<and> cs_SecretName (ct_Spec ct) = n)"
  "provides_account obs n \<longleftrightarrow> (\<exists>sa. OAccount sa \<in> set obs \<and> m_Name (sa_Meta sa) = n)"
  "provides_issuer obs n \<longleftrightarrow> (\<exists>i. OIssuer i \<in> set obs \<and> m_Name (i_Meta i) = n)"
  by (auto simp: provides_key_def provides_secret_def provides_account_def provides_issuer_def list_ex_iff
      split: kobject.split_asm) (force split: kobject.split)+

text \<open>What the fluentd pods of both controllers refer to.\<close>

lemma fluentd_references:
  assumes keys: "\<And>n k. (n, k) \<in> set config_entries \<Longrightarrow> provides_key obs n k"
    and secrets: "provides_secret obs AuditLoggingClientCertSecName" "provides_secret obs AuditLoggingServerCertSecName"
    and account: "provides_account obs OperandServiceAccount"
    and t: "ps_Containers (pt_Spec t) = Some [c]" "c_Env c = c_Env init_fluentdMainContainer"
      "ps_Volumes (pt_Spec t) = buildFluentdDeploymentVolumes" "ps_ServiceAccountName (pt_Spec t) = OperandServiceAccount"
  shows "list_all (provides obs) (pod_references t)"
  using secrets account keys[of "cm_name ConfigName" EnableAuditLogForwardKey] keys[of "cm_name ConfigName" FluentdConfigKey]
    keys[of "cm_name SourceConfigName" SourceConfigKey] keys[of "cm_name SplunkConfigName" SplunkConfigKey]
    keys[of "cm_name QRadarConfigName" QRadarConfigKey]
  by (simp add: pod_references_def t env_references_def volume_references_def buildFluentdDeploymentVolumes_def
      cm_volume_def config_entries_def init_fluentdMainContainer_def zero_container_def del: provides_simps)

lemma daemonset_volumes: "buildDaemonsetVolumes inst = buildFluentdDeploymentVolumes"
  by (simp add: buildFluentdDeploymentVolumes_def buildDaemonsetVolumes_def)

lemma mounts_resolve:
  "list_all (mount_resolves (elems buildFluentdDeploymentVolumes)) (elems buildFluentdDeploymentVolumeMounts)"
  "list_all (mount_resolves (elems buildFluentdDeploymentVolumes)) (elems (buildDaemonsetVolumeMounts inst))"
  "distinct (map vm_MountPath (elems buildFluentdDeploymentVolumeMounts))"
  "distinct (map vm_MountPath (elems (buildDaemonsetVolumeMounts inst)))"
  "distinct (map v_Name (elems buildFluentdDeploymentVolumes))"
  by (simp_all add: buildFluentdDeploymentVolumes_def buildFluentdDeploymentVolumeMounts_def
      buildDaemonsetVolumeMounts_def mount_resolves_def mount_def cm_volume_def zero_mount_def
      FluentdConfigKey_def SourceConfigKey_def SplunkConfigKey_def QRadarConfigKey_def
      fluentdInput_def qRadarOutput_def splunkOutput_def FluentdConfigName_def SourceConfigName_def
      QRadarConfigName_def SplunkConfigName_def AuditLoggingClientCertSecName_def AuditLoggingServerCertSecName_def)

lemma fluentd_ports_reach:
  "list_all (\<lambda>p. cp_ContainerPort p \<in> set (map sp_TargetPort (elems (sv_Ports (BuildAuditService name ns)))))
     (elems (c_Ports init_fluentdMainContainer))"
  by (simp add: init_fluentdMainContainer_def BuildAuditService_def service_port_of_def Let_def zero_container_def)

lemma config_entry_name: "(n, k) \<in> set config_entries \<Longrightarrow> n \<in> set FluentdConfigMaps"
  by (auto simp: config_entries_def FluentdConfigMaps_def)

lemma ca_provides_key:
  assumes "yaml_literal (r_yaml r)" "values_ok inst" "(n, k) \<in> set config_entries"
  shows "provides_key (ca_operands r inst) n k"
  using config_has_key(1)[OF assms(1,3,2)] config_meta(1)[OF assms(1) config_entry_name[OF assms(3)] assms(2)]
    config_entry_name[OF assms(3)]
  by (auto simp: ca_operands_def intro!: exI[of _ "expected_config r inst n"])

lemma al_provides_key:
  assumes "yaml_literal (r_yaml r)" "(n, k) \<in> set config_entries"
  shows "provides_key (al_operands r inst ns) n k"
  using config_has_key(2)[OF assms] config_meta(2)[OF assms(1) config_entry_name[OF assms(2)], of inst ns]
    config_entry_name[OF assms(2)]
  by (auto simp: al_operands_def intro!: exI[of _ "al_expected_config r inst ns n"])

lemma al_certs_provide:
  "provides_secret (al_operands r inst ns) AuditLoggingClientCertSecName"
  "provides_secret (al_operands r inst ns) AuditLoggingServerCertSecName"
  by (auto simp: al_operands_def al_expected_cert_def BuildCertsForAuditLogging_def Let_def
      AuditLoggingHTTPSCertName_def AuditLoggingCertName_def)

lemma ca_members:
  "OSecret (BuildSecret inst) \<in> set (ca_operands r inst)"
  "OCert (expected_https_cert inst) \<in> set (ca_operands r inst)"
  "OCert (BuildRootCACert (ca_Namespace inst)) \<in> set (ca_operands r inst)"
  "OIssuer (BuildGodIssuer (ca_Namespace inst)) \<in> set (ca_operands r inst)"
  "OIssuer (BuildRootCAIssuer (ca_Namespace inst)) \<in> set (ca_operands r inst)"
  by (simp_all add: ca_operands_def)

lemma ca_names:
  "m_Name (se_Meta (BuildSecret inst)) = AuditLoggingClientCertSecName"
  "cs_SecretName (ct_Spec (expected_https_cert inst)) = AuditLoggingServerCertSecName"
  "cs_SecretName (ct_Spec (BuildRootCACert ns)) = RootCert" "cs_IssuerName (ct_Spec (BuildRootCACert ns)) = GodIssuer"
  "m_Name (i_Meta (BuildGodIssuer ns)) = GodIssuer" "m_Name (i_Meta (BuildRootCAIssuer ns)) = RootIssuer"
  "i_Spec (BuildGodIssuer ns) = \<lparr>is_SelfSigned = True, is_CA = None, is_other = []\<rparr>"
  "is_CA (i_Spec (BuildRootCAIssuer ns)) = Some RootCert"
  "ca_Issuer (ca_Spec inst) = [] \<Longrightarrow> cs_IssuerName (ct_Spec (expected_https_cert inst)) = RootIssuer"
  by (simp_all add: BuildSecret_def expected_https_cert_def BuildCertsForAuditLogging_def BuildRootCACert_def
      BuildGodIssuer_def BuildRootCAIssuer_def Let_def RootIssuer_def)

lemma ca_secrets_provide:
  "provides_secret (ca_operands r inst) AuditLoggingClientCertSecName"
  "provides_secret (ca_operands r inst) AuditLoggingServerCertSecName"
  "provides_secret (ca_operands r inst) RootCert"
  using ca_members[of inst r] ca_names by fastforce+

lemma ca_issuers_provide:
  "provides_issuer (ca_operands r inst) GodIssuer" "provides_issuer (ca_operands r inst) RootIssuer"
  using ca_members(4,5)[of inst r] ca_names by fastforce+

lemma ca_accounts_provide: "provides_account (ca_operands r inst) OperandServiceAccount"
  by (auto simp: ca_operands_def BuildServiceAccount_def)

lemma al_accounts:
  "provides_account (al_operands r inst ns) name \<longleftrightarrow> name = OperandServiceAccount"
  by (auto simp: al_operands_def BuildServiceAccount_def)

lemma al_issuers: "\<not> provides_issuer (al_operands r inst ns) name"
  by (auto simp: al_operands_def)

lemma ca_issuers:
  "provides_issuer (ca_operands r inst) name \<longleftrightarrow> name = GodIssuer \<or> name = RootIssuer"
  using ca_names(5,6) by (auto simp: ca_operands_def)

lemma ca_fluentd_references:
  assumes "yaml_literal (r_yaml r)" "values_ok inst"
  shows "list_all (provides (ca_operands r inst)) (pod_references (ds_Template (d_Spec (expected_fluentd r inst))))"
  using fluentd_pods[of r inst]
    fluentd_references[OF ca_provides_key[OF assms] ca_secrets_provide(1,2) ca_accounts_provide] by metis

lemma al_fluentd_references:
  assumes "yaml_literal (r_yaml r)"
  shows "list_all (provides (al_operands r inst ns)) (pod_references (dss_Template (dset_Spec (expected_daemonset r inst ns))))"
  using daemonset_pods[of r inst ns] daemonset_volumes[of inst]
    fluentd_references[OF al_provides_key[OF assms] al_certs_provide al_accounts[THEN iffD2, OF refl]] by metis

text \<open>The pods of the clean-up job and of the policy controller name nothing but their accounts.\<close>

lemma other_references:
  "pod_references (j_Template (BuildJobForAuditLogging env inst ns)) = [RAccount jobServiceAccountName]"
  "pod_references (ds_Template (d_Spec (expected_policy r inst ns))) = [RAccount AuditPolicyServiceAccount]"
  by (simp_all add: pod_references_def BuildJobForAuditLogging_def buildJobContainer_def env_references_def
      volume_references_def zero_pod_spec_def zero_container_def expected_policy_def
      BuildDeploymentForPolicyController_def init_globals_def init_policyControllerMainContainer_def Let_def)

lemma all_pods_fit:
  "pods_fit (ds_Template (d_Spec (expected_fluentd r ca)))" (is ?F)
  "pods_fit (dss_Template (dset_Spec (expected_daemonset r inst ns)))" (is ?D)
  "pods_fit (j_Template (BuildJobForAuditLogging env inst ns))"
  "pods_fit (ds_Template (d_Spec (expected_policy r inst ns)))"
proof -
  show ?F using fluentd_pods[of r ca] mounts_resolve(1,3,5) by (fastforce simp: pods_fit_def container_fits_def)
  show ?D using daemonset_pods[of r inst ns] daemonset_volumes[of inst] mounts_resolve(2,4)[of inst] mounts_resolve(5)
    by (fastforce simp: pods_fit_def container_fits_def)
qed (simp_all add: pods_fit_def container_fits_def mount_resolves_def BuildJobForAuditLogging_def buildJobContainer_def
      zero_pod_spec_def zero_container_def zero_mount_def expected_policy_def BuildDeploymentForPolicyController_def
      init_globals_def init_policyControllerMainContainer_def Let_def)

lemma resolved: "list_all (provides obs) xs \<Longrightarrow> filter (\<lambda>x. \<not> provides obs x) xs = []"
  by (simp add: filter_empty_conv list_all_iff)

lemma BuildAuditService_selector: "sv_Selector (BuildAuditService name ns) = LabelsForSelector FluentdName name"
  by (simp add: BuildAuditService_def)

lemma services_reach:
  "service_reaches (BuildAuditService (ca_Name inst) (ca_Namespace inst)) (ds_Template (d_Spec (expected_fluentd r inst)))"
  "service_reaches (BuildAuditService (al_Name al) ns) (dss_Template (dset_Spec (expected_daemonset r al ns)))"
proof -
  obtain c where "ps_Containers (pt_Spec (ds_Template (d_Spec (expected_fluentd r inst)))) = Some [c]"
      "c_Ports c = c_Ports init_fluentdMainContainer"
      "m_Labels (pt_Meta (ds_Template (d_Spec (expected_fluentd r inst)))) = LabelsForPodMetadata FluentdName (ca_Name inst)"
    using fluentd_pods[of r inst] by metis
  then show "service_reaches (BuildAuditService (ca_Name inst) (ca_Namespace inst)) (ds_Template (d_Spec (expected_fluentd r inst)))"
    using fluentd_ports_reach[of "ca_Name inst" "ca_Namespace inst"]
    by (simp add: service_reaches_def BuildAuditService_selector selector_le_pod_labels)
  obtain c where "ps_Containers (pt_Spec (dss_Template (dset_Spec (expected_daemonset r al ns)))) = Some [c]"
      "c_Ports c = c_Ports init_fluentdMainContainer"
      "m_Labels (pt_Meta (dss_Template (dset_Spec (expected_daemonset r al ns)))) = LabelsForPodMetadata FluentdName (al_Name al)"
    using daemonset_pods[of r al ns] by metis
  then show "service_reaches (BuildAuditService (al_Name al) ns) (dss_Template (dset_Spec (expected_daemonset r al ns)))"
    using fluentd_ports_reach[of "al_Name al" ns]
    by (simp add: service_reaches_def BuildAuditService_selector selector_le_pod_labels)
qed

subsection \<open>Properties\<close>

lemma ca_unresolved:
  assumes "yaml_literal (r_yaml r)" "values_ok inst"
  shows "unresolved (ca_operands r inst) =
    (if ca_Issuer (ca_Spec inst) \<in> {[], RootIssuer, GodIssuer} then [] else [RIssuer (ca_Issuer (ca_Spec inst))])"
proof -
  have refs: "concat (map object_references (ca_operands r inst)) =
      [RIssuer GodIssuer, RSecret RootCert, RIssuer (cs_IssuerName (ct_Spec (expected_https_cert inst)))] @
      pod_references (ds_Template (d_Spec (expected_fluentd r inst)))"
    by (simp add: ca_operands_def FluentdConfigMaps_def ca_names)
  have issuer: "cs_IssuerName (ct_Spec (expected_https_cert inst)) =
      (if ca_Issuer (ca_Spec inst) = [] then RootIssuer else ca_Issuer (ca_Spec inst))"
    by (simp add: expected_https_cert_def BuildCertsForAuditLogging_def Let_def RootIssuer_def)
  show ?thesis
    unfolding unresolved_def refs filter_append resolved[OF ca_fluentd_references[OF assms]]
    using ca_secrets_provide(3)[of r inst] by (auto simp: ca_issuers issuer simp del: provides_simps)
qed

lemma al_unresolved:
  assumes "yaml_literal (r_yaml r)"
  shows "unresolved (al_operands r inst ns) =
    (let issuer = RIssuer (if alf_Issuer (al_Fluentd (al_Spec inst)) = [] then DefaultIssuer
                           else alf_Issuer (al_Fluentd (al_Spec inst)))
     in [RAccount jobServiceAccountName, RAccount AuditPolicyServiceAccount, issuer, issuer])"
proof -
  have issuer: "cs_IssuerName (ct_Spec (al_expected_cert inst ns name)) =
      (if alf_Issuer (al_Fluentd (al_Spec inst)) = [] then DefaultIssuer else alf_Issuer (al_Fluentd (al_Spec inst)))" for name
    by (simp add: al_expected_cert_def BuildCertsForAuditLogging_def Let_def)
  have refs: "concat (map object_references (al_operands r inst ns)) =
      [RAccount jobServiceAccountName, RAccount AuditPolicyServiceAccount,
       RIssuer (cs_IssuerName (ct_Spec (al_expected_cert inst ns AuditLoggingHTTPSCertName))),
       RIssuer (cs_IssuerName (ct_Spec (al_expected_cert inst ns AuditLoggingCertName)))] @
      pod_references (dss_Template (dset_Spec (expected_daemonset r inst ns)))"
    by (simp add: al_operands_def FluentdConfigMaps_def other_references)
  have "jobServiceAccountName \<noteq> OperandServiceAccount" "AuditPolicyServiceAccount \<noteq> OperandServiceAccount"
    by (simp_all add: jobServiceAccountName_def OperandServiceAccount_def AuditPolicyServiceAccount_def)
  then show ?thesis
    unfolding unresolved_def refs filter_append resolved[OF al_fluentd_references[OF assms]] issuer
    by (simp add: al_accounts al_issuers Let_def del: provides_simps)
qed

lemma operands_fit: "list_all object_fits (ca_operands r inst)" "list_all object_fits (al_operands r al ns)"
  by (simp_all add: ca_operands_def al_operands_def all_pods_fit list_all_iff)

text \<open>A name is looked up in the namespace of the object that has it; the operands are all in one.\<close>

definition all_in :: "string \<Rightarrow> kobject list \<Rightarrow> bool" where
  "all_in ns = list_all (\<lambda>ob. m_Namespace (object_meta ob) = ns)"

lemma operands_all_in:
  assumes "yaml_literal (r_yaml r)"
  shows "values_ok inst \<Longrightarrow> all_in (ca_Namespace inst) (ca_operands r inst)" "all_in ns (al_operands r al ns)"
  using config_meta[OF assms]
  by (simp_all add: all_in_def ca_operands_def al_operands_def list_all_iff fluentd_meta daemonset_meta policy_meta
      BuildGodIssuer_def BuildRootCACert_def BuildRootCAIssuer_def expected_https_cert_def al_expected_cert_def
      BuildCertsForAuditLogging_def BuildSecret_def BuildServiceAccount_def BuildAuditService_def
      BuildJobForAuditLogging_def Let_def)

text \<open>C9: Which names of the operands lead outside. Among the operands of a \<open>CommonAudit\<close> every service account,
  ConfigMap key, secret and issuer that a pod, a certificate or an issuer names is one of these operands
  (a secret may be the one that a certificate is written to), in the same namespace, but for the issuer of the resource, when it
  names one of its own. Among those of an \<open>AuditLogging\<close>, all pods included, exactly four references are
  answered by none: the service accounts of the clean-up job and of the policy controller, which are
  created when the operator is installed, and the issuer of the two certificates. In every pod each mount
  names a volume, with a file in it where it has a sub-path, and no path is mounted twice; and the service
  selects the fluentd pods and targets every port they open.\<close>

theorem references_resolve:
  assumes "yaml_literal (r_yaml r)" "values_ok inst"
  shows "unresolved (ca_operands r inst) =
      (if ca_Issuer (ca_Spec inst) \<in> {[], RootIssuer, GodIssuer} then [] else [RIssuer (ca_Issuer (ca_Spec inst))]) \<and>
    unresolved (al_operands r al ns) =
      (let issuer = RIssuer (if alf_Issuer (al_Fluentd (al_Spec al)) = [] then DefaultIssuer
                             else alf_Issuer (al_Fluentd (al_Spec al)))
       in [RAccount jobServiceAccountName, RAccount AuditPolicyServiceAccount, issuer, issuer]) \<and>
    all_in (ca_Namespace inst) (ca_operands r inst) \<and> all_in ns (al_operands r al ns) \<and>
    list_all object_fits (ca_operands r inst) \<and> list_all object_fits (al_operands r al ns) \<and>
    service_reaches (BuildAuditService (ca_Name inst) (ca_Namespace inst)) (ds_Template (d_Spec (expected_fluentd r inst))) \<and>
    service_reaches (BuildAuditService (al_Name al) ns) (dss_Template (dset_Spec (expected_daemonset r al ns)))"
  using ca_unresolved[OF assms] al_unresolved[OF assms(1)] operands_all_in(1)[OF assms] operands_all_in(2)[OF assms(1)] operands_fit services_reach by blast

lemma sample_common_values: "values_ok sample_common" "ca_Issuer (ca_Spec sample_common) = []"
  by (simp_all add: sample_common_def new_common_def zero_common_spec_def zero_splunk_def zero_syslog_def
      Let_def values_ok_def value_ok_def plain_value_def printable_def nl_def)

theorem references_resolve_witness:
  "unresolved (ca_operands (memory_reconciler ''cs'') sample_common) = [] \<and>
   list_all object_fits (al_operands (memory_reconciler ''cs'') sample_audit ''cs'')"
  using references_resolve[of "memory_reconciler ''cs''" sample_common sample_audit "''cs''"] sample_common_values
    yaml_block_literal
  by (simp add: memory_reconciler_def)

text \<open>A kind is watched by the controller, and the manager's cache selects the object by a label it has.\<close>

definition seen :: "watches \<Rightarrow> string \<Rightarrow> string \<Rightarrow> kobject \<Rightarrow> bool" where
  "seen w certmgrGroup certmgrVersion ob \<longleftrightarrow>
     kind_name (object_kind ob) \<in> set (wt_Owns w) \<and>
     list_ex (\<lambda>(gvk, sel). Kind gvk = kind_name (object_kind ob) \<and> has_key (m_Labels (object_meta ob)) sel)
       (gvkLabelMap certmgrGroup certmgrVersion)"

lemma LabelsForMetadata_seen: "has_key (LabelsForMetadata name) AuditTypeLabel"
  by (simp add: has_key_def LabelsForMetadata_def)

lemma seen_iff:
  "seen w g v ob \<longleftrightarrow> kind_name (object_kind ob) \<in> set (wt_Owns w) \<and> has_key (m_Labels (object_meta ob)) AuditTypeLabel"
  by (cases "object_kind ob") (simp_all add: seen_def gvkLabelMap_def)

text \<open>C24: Nothing that a controller creates escapes it. The operands of a resource are the objects that its
  reconcile methods look after, one per method; the controller watches the kind of each, so that a
  change of one starts a round; and each carries the label without which the cache of a manager that
  watches all namespaces would not show it to the controller.\<close>

theorem operands_seen:
  assumes "yaml_literal (r_yaml r)" "values_ok inst"
  shows "map key_of (ca_operands r inst) = map g_key (ca_gauges r inst) \<and>
    map key_of (al_operands r al ns) = map g_key (al_gauges r al ns) \<and>
    list_all (seen ca_watches g v) (ca_operands r inst) \<and> list_all (seen al_watches g v) (al_operands r al ns)"
proof -
  note meta = config_meta(1)[OF assms(1) _ assms(2)] config_meta(2)[OF assms(1)] fluentd_meta daemonset_meta policy_meta
  have "map key_of (ca_operands r inst) = map g_key (ca_gauges r inst)"
    by (simp add: ca_operands_def ca_gauges_def ca_parts_def key_of_def meta_key_def meta config_gauge_def
        issuer_gauge_def cert_gauge_def secret_gauge_def account_gauge_def service_gauge_def fluentd_gauge_def
        BuildSecret_def BuildServiceAccount_def BuildAuditService_def object_gauge_simps Let_def)
  moreover have "map key_of (al_operands r al ns) = map g_key (al_gauges r al ns)"
    by (simp add: al_operands_def al_gauges_def al_parts_def key_of_def meta_key_def meta al_config_gauge_def
        cert_gauge_def al_account_gauge_def service_gauge_def daemonset_gauge_def policy_gauge_def job_gauge_def
        BuildJobForAuditLogging_def BuildServiceAccount_def BuildAuditService_def object_gauge_simps Let_def)
  moreover have "list_all (seen ca_watches g v) (ca_operands r inst)"
    by (simp add: ca_operands_def list_all_iff seen_iff meta ca_watches_def LabelsForMetadata_seen BuildGodIssuer_def
        BuildRootCACert_def BuildRootCAIssuer_def expected_https_cert_def BuildCertsForAuditLogging_def Let_def
        BuildSecret_def BuildServiceAccount_def BuildAuditService_def)
  moreover have "list_all (seen al_watches g v) (al_operands r al ns)"
    by (simp add: al_operands_def list_all_iff seen_iff meta al_watches_def LabelsForMetadata_seen
        BuildJobForAuditLogging_def al_expected_cert_def BuildCertsForAuditLogging_def Let_def
        BuildServiceAccount_def BuildAuditService_def)
  ultimately show ?thesis by blast
qed

theorem operands_seen_witness:
  "list_all (seen ca_watches ''cert-manager.io'' ''v1'') (ca_operands (memory_reconciler ''cs'') sample_common) \<and>
   list_all (seen al_watches ''cert-manager.io'' ''v1'') (al_operands (memory_reconciler ''cs'') sample_audit ''cs'')"
  using operands_seen[of "memory_reconciler ''cs''" sample_common sample_audit "''cs''"] sample_common_values(1)
    yaml_block_literal
  by (simp add: memory_reconciler_def)

end
