(* ===== verification/ControllerGuards.thy ===== *)
theory ControllerGuards
  imports CommonAuditConverges AuditLoggingConverges
begin

text \<open>
  The guards of the two controllers: when \<open>Reconcile\<close> refuses a resource, that it touches no operand
  then, that the two kinds of resources exclude each other in the namespace of the common services, and
  the default of the policy controller.
\<close>

subsection \<open>Up to the guards\<close>

lemma ca_start:
  assumes serves: "serves_common view (r_cr r)"
    and find: "find (\<lambda>a. meta_key (ca_Meta a) = req) (commons (view w)) = Some a"
  obtains b w' where "ca_Reconcile r req (w, g) = ca_check_and_run r req b (w', g)"
    "objects (view w') = objects (view w)" "audits (view w') = audits (view w)"
    "list_all2 same_common (commons (view w)) (commons (view w'))"
proof -
  obtain b w1 where b: "cr_get_common (r_cr r) req w = (Inr b, w1)" "same_common a b" "view w1 = view w"
    using serves_common_get[OF serves find] by metis
  have mem: "a \<in> set (commons (view w1))" using find b(3) by (auto simp: find_Some_iff)
  have refl: "list_all2 same_common (commons (view w)) (commons (view w1))"
    by (simp add: b(3) list.rel_refl same_common_def)
  show ?thesis
  proof (cases "length (elems (ca_Nodes (ca_Status b))) = 0")
    case True
    have "same_common a (ca_default_status b)" using b(2) by (simp add: same_common_def ca_default_status_def)
    from serves_common_status[OF serves mem this] obtain b2 w2 where
      "cr_status_common (r_cr r) (ca_default_status b) w1 = (Inr b2, w2)"
      "objects (view w2) = objects (view w1)" "audits (view w2) = audits (view w1)"
      "list_all2 same_common (commons (view w1)) (commons (view w2))" by metis
    with b True show ?thesis by (intro that[of b2 w2]) (simp_all add: ca_Reconcile_def)
  next
    case False
    with b refl show ?thesis by (intro that[of b w1]) (simp_all add: ca_Reconcile_def)
  qed
qed

lemma al_start:
  assumes serves: "serves_audit view (r_cr r)"
    and find: "find (\<lambda>a. meta_key (al_Meta a) = req) (audits (view w)) = Some a"
  obtains b w' where "al_Reconcile r req (w, g) = al_check_and_run r b (w', g)" "same_audit a b"
    "objects (view w') = objects (view w)" "commons (view w') = commons (view w)"
    "list_all2 same_audit (audits (view w)) (audits (view w'))"
proof -
  obtain b w1 where b: "cr_get_audit (r_cr r) req w = (Inr b, w1)" "same_audit a b" "view w1 = view w"
    using serves_audit_get[OF serves find] by metis
  have mem: "a \<in> set (audits (view w1))" using find b(3) by (auto simp: find_Some_iff)
  have refl: "list_all2 same_audit (audits (view w)) (audits (view w1))"
    by (simp add: b(3) list.rel_refl same_audit_def)
  show ?thesis
  proof (cases "length (elems (al_Nodes (al_Status b))) = 0")
    case True
    have same: "same_audit a (al_default_status b)" using b(2) by (simp add: same_audit_def al_default_status_def)
    from serves_audit_status[OF serves mem this] obtain b2 w2 where
      b2: "cr_status_audit (r_cr r) (al_default_status b) w1 = (Inr b2, w2)" "same_audit (al_default_status b) b2"
      "objects (view w2) = objects (view w1)" "commons (view w2) = commons (view w1)"
      "list_all2 same_audit (audits (view w1)) (audits (view w2))" by metis
    have "same_audit a b2" using same b2(2) by (simp add: same_audit_def)
    with b b2 True show ?thesis by (intro that[of b2 w2]) (simp_all add: al_Reconcile_def)
  next
    case False
    with b refl show ?thesis by (intro that[of b w1]) (simp_all add: al_Reconcile_def)
  qed
qed

lemma same_commons_in:
  "list_all2 same_common as bs \<Longrightarrow>
   length (filter (\<lambda>a. P (ca_Namespace a)) bs) = length (filter (\<lambda>a. P (ca_Namespace a)) as)"
  by (induction rule: list_all2_induct) (auto simp: same_common_def meta_key_def)

subsection \<open>Refusals\<close>

text \<open>The outcome of \<open>Reconcile\<close> when it does not get to the operands, and \<open>None\<close> when it does.\<close>

definition ca_refusal :: "'w reconciler \<Rightarrow> nsname \<Rightarrow> cluster \<Rightarrow> outcome option" where
  "ca_refusal r req c =
     (if find (\<lambda>a. meta_key (ca_Meta a) = req) (commons c) = None then Some Done
      else case GetCSNamespace (r_env r) of
             Inl err \<Rightarrow> Some (Failed (OtherError err))
           | Inr cs \<Rightarrow>
               if audits c \<noteq> [] \<and> key_ns req = cs then Some Done
               else if 1 < length (filter (\<lambda>a. key_ns req = [] \<or> ca_Namespace a = key_ns req) (commons c))
               then Some Done else None)"

definition al_refusal :: "'w reconciler \<Rightarrow> nsname \<Rightarrow> cluster \<Rightarrow> outcome option" where
  "al_refusal r req c =
     (if find (\<lambda>a. meta_key (al_Meta a) = req) (audits c) = None then Some Done
      else if 1 < length (audits c) then Some Done
      else case GetCSNamespace (r_env r) of
             Inl err \<Rightarrow> Some (Failed (OtherError err))
           | Inr cs \<Rightarrow>
               if filter (\<lambda>a. cs = [] \<or> ca_Namespace a = cs) (commons c) \<noteq> [] then Some Done else None)"

lemma ca_check_refuses:
  assumes serves: "serves_common view (r_cr r)"
    and refusal: "ca_refusal r req (view w) = Some out"
    and found: "find (\<lambda>a. meta_key (ca_Meta a) = req) (commons (view w)) \<noteq> None"
  shows "\<exists>w'. ca_check_and_run r req b (w, g) = (out, (w', g)) \<and> objects (view w') = objects (view w)"
proof (cases "GetCSNamespace (r_env r)")
  case (Inl err)
  then show ?thesis using refusal found by (simp add: ca_refusal_def ca_check_and_run_def)
next
  case (Inr cs)
  obtain w1 where w1: "cr_list_audit (r_cr r) w = (Inr (audits (view w)), w1)" "view w1 = view w"
    using serves_common_rest(2)[OF serves, of w] by blast
  obtain w2 where w2: "cr_list_common (r_cr r) (key_ns req) w1 =
      (Inr (filter (\<lambda>a. key_ns req = [] \<or> ca_Namespace a = key_ns req) (commons (view w))), w2)" "view w2 = view w"
    using serves_common_rest(1)[OF serves, of "key_ns req" w1] w1(2) by metis
  show ?thesis
    using refusal found Inr w1 w2 serves_common_rest(3)[OF serves]
    by (auto simp: ca_refusal_def ca_check_and_run_def ca_updateEvent_def split: if_splits)
qed

lemma al_check_refuses:
  assumes serves: "serves_audit view (r_cr r)"
    and refusal: "al_refusal r req (view w) = Some out"
    and found: "find (\<lambda>a. meta_key (al_Meta a) = req) (audits (view w)) \<noteq> None"
  shows "\<exists>w'. al_check_and_run r b (w, g) = (out, (w', g)) \<and> objects (view w') = objects (view w)"
proof -
  obtain w1 where w1: "cr_list_audit (r_cr r) w = (Inr (audits (view w)), w1)" "view w1 = view w"
    using serves_audit_rest(2)[OF serves, of w] by blast
  show ?thesis
  proof (cases "GetCSNamespace (r_env r)")
    case (Inl err)
    then show ?thesis
      using refusal found w1 serves_audit_rest(3)[OF serves]
      by (auto simp: al_refusal_def al_check_and_run_def al_updateEvent_def split: if_splits)
  next
    case (Inr cs)
    obtain w2 where w2: "cr_list_common (r_cr r) cs w1 =
        (Inr (filter (\<lambda>a. cs = [] \<or> ca_Namespace a = cs) (commons (view w))), w2)" "view w2 = view w"
      using serves_audit_rest(1)[OF serves, of cs w1] w1(2) by metis
    show ?thesis
      using refusal found Inr w1 w2 serves_audit_rest(3)[OF serves]
      by (auto simp: al_refusal_def al_check_and_run_def al_updateEvent_def split: if_splits)
  qed
qed

lemma ca_refuses:
  assumes serves: "serves_common view (r_cr r)" and refusal: "ca_refusal r req (view w) = Some out"
  shows "\<exists>w'. ca_Reconcile r req (w, g) = (out, (w', g)) \<and> objects (view w') = objects (view w)"
proof (cases "find (\<lambda>a. meta_key (ca_Meta a) = req) (commons (view w))")
  case None
  have "case find (\<lambda>a. meta_key (ca_Meta a) = req) (commons (view w)) of
        None \<Rightarrow> (\<exists>w'. cr_get_common (r_cr r) req w = (Inl NotFound, w') \<and> view w' = view w)
      | Some a \<Rightarrow> (\<exists>b w'. cr_get_common (r_cr r) req w = (Inr b, w') \<and> same_common a b \<and> view w' = view w)"
    using serves unfolding serves_common_def by blast
  then show ?thesis using None refusal by (auto simp: ca_Reconcile_def ca_refusal_def)
next
  case (Some a)
  from ca_start[OF serves Some] obtain b w1 where
    w1: "ca_Reconcile r req (w, g) = ca_check_and_run r req b (w1, g)"
      "objects (view w1) = objects (view w)" "audits (view w1) = audits (view w)"
      "list_all2 same_common (commons (view w)) (commons (view w1))" by metis
  obtain a' where found: "find (\<lambda>a. meta_key (ca_Meta a) = req) (commons (view w1)) = Some a'"
    using find_same_common[OF w1(4) Some] by blast
  have "ca_refusal r req (view w1) = Some out"
    using refusal w1(3) found Some same_commons_in[OF w1(4), of "\<lambda>n. key_ns req = [] \<or> n = key_ns req"]
    by (simp add: ca_refusal_def cong: if_cong sum.case_cong)
  from ca_check_refuses[OF serves this] found w1(1,2) show ?thesis by fastforce
qed

lemma al_refuses:
  assumes serves: "serves_audit view (r_cr r)" and refusal: "al_refusal r req (view w) = Some out"
  shows "\<exists>w'. al_Reconcile r req (w, g) = (out, (w', g)) \<and> objects (view w') = objects (view w)"
proof (cases "find (\<lambda>a. meta_key (al_Meta a) = req) (audits (view w))")
  case None
  have "case find (\<lambda>a. meta_key (al_Meta a) = req) (audits (view w)) of
        None \<Rightarrow> (\<exists>w'. cr_get_audit (r_cr r) req w = (Inl NotFound, w') \<and> view w' = view w)
      | Some a \<Rightarrow> (\<exists>b w'. cr_get_audit (r_cr r) req w = (Inr b, w') \<and> same_audit a b \<and> view w' = view w)"
    using serves unfolding serves_audit_def by blast
  then show ?thesis using None refusal by (auto simp: al_Reconcile_def al_refusal_def)
next
  case (Some a)
  from al_start[OF serves Some] obtain b w1 where
    w1: "al_Reconcile r req (w, g) = al_check_and_run r b (w1, g)"
      "objects (view w1) = objects (view w)" "commons (view w1) = commons (view w)"
      "list_all2 same_audit (audits (view w)) (audits (view w1))" by metis
  obtain a' where found: "find (\<lambda>a. meta_key (al_Meta a) = req) (audits (view w1)) = Some a'"
    using find_same_audit[OF w1(4) Some] by blast
  have "al_refusal r req (view w1) = Some out"
    using refusal w1(3) found Some list_all2_lengthD[OF w1(4)]
    by (simp add: al_refusal_def cong: if_cong sum.case_cong)
  from al_check_refuses[OF serves this] found w1(1,2) show ?thesis by fastforce
qed

lemma al_policy_request:
  assumes serves: "serves_audit view (r_cr r)"
    and found: "find (\<lambda>a. meta_key (al_Meta a) = req) (audits (view w)) = Some a"
    and admitted: "al_refusal r req (view w) = None" and unset: "EnableAuditPolicy (al_policy a) = []"
  shows "\<exists>inst w1. same_audit a inst \<and> objects (view w1) = objects (view w) \<and>
    al_Reconcile r req (w, g) = lift_world (al_enablePolicyControllerByDefault r inst) (w1, g)"
proof -
  from al_start[OF serves found] obtain b w1 where
    w1: "al_Reconcile r req (w, g) = al_check_and_run r b (w1, g)" "same_audit a b"
      "objects (view w1) = objects (view w)" "commons (view w1) = commons (view w)"
      "list_all2 same_audit (audits (view w)) (audits (view w1))" by metis
  obtain cs where cs: "length (audits (view w1)) \<le> 1" "GetCSNamespace (r_env r) = Inr cs"
      "filter (\<lambda>a. cs = [] \<or> ca_Namespace a = cs) (commons (view w1)) = []"
    using admitted found list_all2_lengthD[OF w1(5)] w1(4)
    by (auto simp: al_refusal_def split: if_splits sum.splits)
  obtain w2 where w2: "cr_list_audit (r_cr r) w1 = (Inr (audits (view w1)), w2)" "view w2 = view w1"
    using serves_audit_rest(2)[OF serves, of w1] by blast
  obtain w3 where w3: "cr_list_common (r_cr r) cs w2 = (Inr [], w3)" "view w3 = view w1"
    using serves_audit_rest(1)[OF serves, of cs w2] w2(2) cs(3) by metis
  let ?w4 = "al_updateEvent r b ''Instance found'' EventTypeNormal ''Initializing'' w3"
  have "EnableAuditPolicy (al_policy b) = []" using unset w1(2) by (simp add: same_audit_def)
  then have "al_check_and_run r b (w1, g) = lift_world (al_enablePolicyControllerByDefault r b) (?w4, g)"
    using cs w2(1) w3(1) by (simp add: al_check_and_run_def Let_def)
  moreover have "view ?w4 = view w1"
    using serves_audit_rest(3)[OF serves] w3(2) by (simp add: al_updateEvent_def)
  ultimately show ?thesis
    using w1(1,2,3) by (intro exI[of _ b] exI[of _ ?w4]) simp
qed

subsection \<open>Properties\<close>

text \<open>C13: When \<open>Reconcile\<close> of CommonAudit refuses a request, it touches no operand. It ends quietly when
  there is no such resource, when an AuditLogging exists and the request is for the namespace of the
  common services, or when the namespace has more than one CommonAudit; it fails when the environment
  does not name that namespace.\<close>

theorem common_refusal_safe:
  assumes "serves_common view (r_cr r)" "ca_refusal r req (view w) = Some out"
  shows "\<exists>w'. ca_Reconcile r req (w, g) = (out, (w', g)) \<and> objects (view w') = objects (view w)"
  using assms by (rule ca_refuses)

definition rival_cluster :: cluster where
  "rival_cluster = \<lparr>objects = Map.empty, commons = [sample_common], audits = [sample_audit]\<rparr>"

lemma rival_refused:
  "ca_refusal (memory_reconciler ''ns'') (NamespacedName ''ns'' ''ca'') (stored rival_cluster) = Some Done"
  by (simp add: ca_refusal_def rival_cluster_def stored_def memory_reconciler_def GetCSNamespace_def split: option.splits)

theorem common_refusal_safe_witness:
  "\<exists>c. ca_Reconcile (memory_reconciler ''ns'') (NamespacedName ''ns'' ''ca'') (rival_cluster, init_globals) =
     (Done, (c, init_globals)) \<and> objects (stored c) = objects (stored rival_cluster)"
  by (rule common_refusal_safe[OF memory_serves(1) rival_refused])

text \<open>C14: When \<open>Reconcile\<close> of AuditLogging refuses a request, it touches no operand. It ends quietly when
  there is no such resource, when the cluster has more than one AuditLogging, or when a CommonAudit
  lives in the namespace of the common services; it fails when the environment does not name that
  namespace.\<close>

theorem audit_refusal_safe:
  assumes "serves_audit view (r_cr r)" "al_refusal r req (view w) = Some out"
  shows "\<exists>w'. al_Reconcile r req (w, g) = (out, (w', g)) \<and> objects (view w') = objects (view w)"
  using assms by (rule al_refuses)

lemma twin_refused:
  "al_refusal (memory_reconciler ''cs'') (NamespacedName [] ''al'')
     (stored (rival_cluster\<lparr>audits := [sample_audit, new_auditlogging ''other'']\<rparr>)) = Some Done"
  by (simp add: al_refusal_def stored_def)

theorem audit_refusal_safe_witness:
  "\<exists>c. al_Reconcile (memory_reconciler ''cs'') (NamespacedName [] ''al'')
      (rival_cluster\<lparr>audits := [sample_audit, new_auditlogging ''other'']\<rparr>, init_globals) = (Done, (c, init_globals)) \<and>
    objects (stored c) = Map.empty"
  using audit_refusal_safe[OF memory_serves(2) twin_refused, of init_globals]
  by (simp add: rival_cluster_def stored_def)

text \<open>C12: The two controllers exclude each other. In a cluster with an AuditLogging and a CommonAudit in the
  namespace of the common services, neither controller touches an operand, for no request in that
  namespace and for no AuditLogging: each ends quietly and waits for the other's resource to go.\<close>

theorem controllers_exclude_each_other:
  assumes "serves_common view (r_cr r)" "serves_audit view (r_cr r)"
    and "GetCSNamespace (r_env r) = Inr cs" "audits (view w) \<noteq> []"
    and "a \<in> set (commons (view w))" "ca_Namespace a = cs"
  shows "(\<exists>w'. ca_Reconcile r (NamespacedName cs name) (w, g) = (Done, (w', g)) \<and> objects (view w') = objects (view w)) \<and>
    (\<exists>w'. al_Reconcile r req (w, g) = (Done, (w', g)) \<and> objects (view w') = objects (view w))"
proof
  have "ca_refusal r (NamespacedName cs name) (view w) = Some Done"
    using assms(3,4) by (simp add: ca_refusal_def)
  from ca_refuses[OF assms(1) this]
  show "\<exists>w'. ca_Reconcile r (NamespacedName cs name) (w, g) = (Done, (w', g)) \<and> objects (view w') = objects (view w)" .
  have "filter (\<lambda>a. cs = [] \<or> ca_Namespace a = cs) (commons (view w)) \<noteq> []"
    using assms(5,6) by (auto simp: filter_empty_conv)
  then have "al_refusal r req (view w) = Some Done"
    using assms(3) by (simp add: al_refusal_def)
  from al_refuses[OF assms(2) this]
  show "\<exists>w'. al_Reconcile r req (w, g) = (Done, (w', g)) \<and> objects (view w') = objects (view w)" .
qed

theorem controllers_exclude_each_other_witness:
  "(\<exists>c. ca_Reconcile (memory_reconciler ''ns'') (NamespacedName ''ns'' ''ca'') (rival_cluster, init_globals) =
      (Done, (c, init_globals)) \<and> objects (stored c) = Map.empty) \<and>
   (\<exists>c. al_Reconcile (memory_reconciler ''ns'') (NamespacedName [] ''al'') (rival_cluster, init_globals) =
      (Done, (c, init_globals)) \<and> objects (stored c) = Map.empty)"
proof -
  have "GetCSNamespace (r_env (memory_reconciler ''ns'')) = Inr ''ns''"
    by (simp add: memory_reconciler_def GetCSNamespace_def)
  moreover have "audits (stored rival_cluster) \<noteq> []" "sample_common \<in> set (commons (stored rival_cluster))"
      "ca_Namespace sample_common = ''ns''" "objects (stored rival_cluster) = Map.empty"
    by (auto simp: rival_cluster_def stored_def sample_common_def new_common_def zero_meta_def Let_def)
  ultimately show ?thesis
    using controllers_exclude_each_other[OF memory_serves] by metis
qed

text \<open>C39: An admitted AuditLogging that does not say whether it wants the policy controller is given the
  default: Reconcile sends one update, of that resource with \<open>EnableAuditPolicy\<close> set to true and the rest of
  its spec as it was, and touches no operand in this round. It fails when the update fails, and
  otherwise ends quietly: the next round comes from the change itself.\<close>

theorem policy_enabled_by_default:
  assumes "serves_audit view (r_cr r)" "find (\<lambda>a. meta_key (al_Meta a) = req) (audits (view w)) = Some a"
    and "al_refusal r req (view w) = None" "EnableAuditPolicy (al_policy a) = []"
  shows "\<exists>new w1. meta_key (al_Meta new) = req \<and> objects (view w1) = objects (view w) \<and>
    al_Spec new = (al_Spec a)\<lparr>al_PolicyController := (al_policy a)\<lparr>EnableAuditPolicy := ''true''\<rparr>\<rparr> \<and>
    al_Reconcile r req (w, g) =
      (case cr_update_audit (r_cr r) new w1 of
         (Some err, w') \<Rightarrow> (Failed err, (w', g)) | (None, w') \<Rightarrow> (Done, (w', g)))"
proof -
  obtain inst w1 where inst: "same_audit a inst" "objects (view w1) = objects (view w)"
      "al_Reconcile r req (w, g) = lift_world (al_enablePolicyControllerByDefault r inst) (w1, g)"
    using al_policy_request[OF assms] by metis
  let ?new = "inst\<lparr>al_Spec := (al_Spec inst)\<lparr>al_PolicyController :=
      (al_PolicyController (al_Spec inst))\<lparr>EnableAuditPolicy := ''true''\<rparr>\<rparr>\<rparr>"
  have "meta_key (al_Meta a) = req" using assms(2) by (auto simp: find_Some_iff)
  then have "meta_key (al_Meta ?new) = req"
      "al_Spec ?new = (al_Spec a)\<lparr>al_PolicyController := (al_policy a)\<lparr>EnableAuditPolicy := ''true''\<rparr>\<rparr>"
    using inst(1) by (simp_all add: same_audit_def)
  moreover have "al_Reconcile r req (w, g) =
      (case cr_update_audit (r_cr r) ?new w1 of
         (Some err, w') \<Rightarrow> (Failed err, (w', g)) | (None, w') \<Rightarrow> (Done, (w', g)))"
    unfolding inst(3)
    by (simp add: lift_world_def al_enablePolicyControllerByDefault_def Let_def DefaultEnablePolicyController_def
        split: option.splits prod.splits)
  ultimately show ?thesis using inst(2) by blast
qed

definition undecided_cluster :: cluster where
  "undecided_cluster = \<lparr>objects = Map.empty, commons = [], audits = [new_auditlogging ''al'']\<rparr>"

theorem policy_enabled_by_default_witness:
  "\<exists>c. al_Reconcile (memory_reconciler ''cs'') (NamespacedName [] ''al'') (undecided_cluster, init_globals) =
     (Done, (c, init_globals))"
proof -
  let ?r = "memory_reconciler ''cs''" and ?a = "new_auditlogging ''al''"
  have "find (\<lambda>a. meta_key (al_Meta a) = NamespacedName [] ''al'') (audits (stored undecided_cluster)) = Some ?a"
    by (simp add: undecided_cluster_def stored_def meta_key_def new_auditlogging_def zero_meta_def)
  moreover have "al_refusal ?r (NamespacedName [] ''al'') (stored undecided_cluster) = None"
    by (simp add: al_refusal_def undecided_cluster_def stored_def memory_reconciler_def GetCSNamespace_def
        meta_key_def new_auditlogging_def zero_meta_def)
  moreover have "EnableAuditPolicy (al_policy ?a) = []"
    by (simp add: new_auditlogging_def)
  ultimately obtain new w1 where "al_Reconcile ?r (NamespacedName [] ''al'') (undecided_cluster, init_globals) =
      (case cr_update_audit (r_cr ?r) new w1 of
         (Some err, w') \<Rightarrow> (Failed err, (w', init_globals)) | (None, w') \<Rightarrow> (Done, (w', init_globals)))"
    using policy_enabled_by_default[OF memory_serves(2), of "NamespacedName [] ''al''" undecided_cluster ?a "''cs''" init_globals]
    by blast
  then show ?thesis by (simp add: memory_reconciler_def memory_cr_client_def split: prod.splits)
qed

end
