(* ===== verification/ConfigRepairs.thy ===== *)
theory ConfigRepairs
  imports CommonAuditSettles AuditLoggingSettles MemoryServer
begin

text \<open>
  What the two methods \<open>reconcileConfig\<close> do to a ConfigMap that somebody else may have edited: a repair
  changes only the keys that the operator manages, and the two inputs at which they fail, a ConfigMap
  without data and an output plugin file whose settings have a closing bracket.
\<close>

subsection \<open>Repairs\<close>

text \<open>The keys that a repair may write.\<close>

definition ca_managed :: "string \<Rightarrow> string set" where
  "ca_managed name =
     (if name = cm_name ConfigName then {EnableAuditLogForwardKey, FluentdConfigKey}
      else if name = cm_name SourceConfigName then {SourceConfigKey}
      else if name = cm_name HTTPIngestName then {HTTPIngestURLKey}
      else if name = cm_name SplunkConfigName then {SplunkConfigKey}
      else {QRadarConfigKey})"

definition al_managed :: "string \<Rightarrow> string set" where
  "al_managed name = (if name = cm_name ConfigName then {EnableAuditLogForwardKey} else ca_managed name)"

definition same_but :: "string set \<Rightarrow> configmap \<Rightarrow> configmap \<Rightarrow> bool" where
  "same_but K a b \<longleftrightarrow> cm_Meta a = cm_Meta b \<and> (\<forall>k. k \<notin> K \<longrightarrow> mget (cm_Data a) k = mget (cm_Data b) k)"

lemma same_but_set:
  "k \<in> K \<Longrightarrow> mset_at (cm_Data cm) k v = Some d \<Longrightarrow> same_but K (cm\<lparr>cm_Data := d\<rparr>) cm"
  by (auto simp: same_but_def mget_mset_at)

lemma same_but_trans: "same_but K a b \<Longrightarrow> same_but K b c \<Longrightarrow> same_but K a c"
  by (simp add: same_but_def)

lemma sync_key_same_but:
  assumes "sync_key e k (cm, u) = Some (cm', u')" "k \<in> K"
  shows "same_but K cm' cm"
  using assms(1) same_but_set[OF assms(2)]
  by (auto simp: sync_key_def same_but_def split: if_splits option.splits)

lemma drift_of_Repair: "drift_of x = Repair cm \<Longrightarrow> x = Some (cm, True)"
  by (induction x rule: drift_of.induct) auto

lemma ca_repair_same_but:
  assumes "ca_config_drift inst name e found = Repair cm"
  shows "same_but (ca_managed name) cm found"
proof -
  have sync: "same_but (ca_managed name) cm found"
    if "drift_of (sync_key e k (found, False)) = Repair cm" "k \<in> ca_managed name" for k
    using sync_key_same_but[OF drift_of_Repair[OF that(1)] that(2)] .
  show ?thesis
  proof (cases "name = cm_name ConfigName")
    case True
    then obtain mid u where mid: "sync_key e EnableAuditLogForwardKey (found, False) = Some (mid, u)"
        "sync_key e FluentdConfigKey (mid, u) = Some (cm, True)"
      using drift_of_Repair assms by (fastforce simp: ca_config_drift_def bind_eq_Some_conv)
    show ?thesis
      using same_but_trans[OF sync_key_same_but[OF mid(2)] sync_key_same_but[OF mid(1)]] True
      by (simp add: ca_managed_def)
  next
    case False
    show ?thesis
      using assms False sync[of SourceConfigKey] sync[of HTTPIngestURLKey]
      by (auto simp: ca_config_drift_def ca_managed_def Let_def intro: same_but_set
          split: if_splits option.splits prod.splits)
  qed
qed

lemma al_repair_same_but:
  assumes "al_config_drift yaml name e found = Repair cm"
  shows "same_but (al_managed name) cm found"
proof -
  have sync: "same_but (al_managed name) cm found"
    if "drift_of (sync_key e k (found, False)) = Repair cm" "k \<in> al_managed name" for k
    using sync_key_same_but[OF drift_of_Repair[OF that(1)] that(2)] .
  show ?thesis
    using assms sync[of EnableAuditLogForwardKey] sync[of SourceConfigKey] sync[of HTTPIngestURLKey]
    by (auto simp: al_config_drift_def al_managed_def ca_managed_def Let_def intro: same_but_set
        split: if_splits option.splits sum.splits)
qed

subsection \<open>A file that is not understood\<close>

lemma Many1_taken: "(g, r) \<in> set (alts (Many1 p) s) \<Longrightarrow> \<exists>b. s = b @ r \<and> g = [] \<and> list_all p b"
proof (cases s)
  case (Cons c cs)
  assume "(g, r) \<in> set (alts (Many1 p) s)"
  then obtain k where k: "p c" "g = []" "r = drop k cs" "k \<le> length (takeWhile p cs)"
    using Cons by (auto simp: alts_Many_all simp del: upt_Suc split: if_splits)
  have "cs = takeWhile p cs @ dropWhile p cs" by simp
  then have "take k cs = take k (takeWhile p cs)" using k(4) by (metis take_append append_Nil2 diff_is_0_eq take_0)
  then have "list_all p (take k cs)" by (auto simp: list_all_iff dest: in_set_takeD set_takeWhileD)
  then show ?thesis using Cons k by (intro exI[of _ "c # take k cs"]) simp
qed simp

text \<open>A match of the expression is a text in brackets without a closing bracket inside.\<close>

lemma between_tags_sound:
  assumes "FindStringSubmatch re_between_tags s \<noteq> []"
  shows "\<exists>pre b rest. s = pre @ ''>'' @ newline @ b @ newline @ ''<'' @ rest \<and> CHR '']'' \<notin> set b"
proof -
  obtain pre m g rest where f: "find_match re_between_tags s = Some (pre, m, g, rest)"
    using assms by (auto simp: FindStringSubmatch_def split: option.splits)
  have "\<exists>t. s = pre @ t \<and> match_here re_between_tags t = Some (m, g, rest)"
    using f
  proof (induction s arbitrary: pre)
    case Nil
    then show ?case by (subst (asm) find_match.simps) (auto split: option.splits prod.splits)
  next
    case (Cons c s)
    show ?case
    proof (cases "match_here re_between_tags (c # s)")
      case None
      with Cons.prems obtain pre' where "pre = c # pre'" "find_match re_between_tags s = Some (pre', m, g, rest)"
        by (subst (asm) find_match.simps) (auto split: option.splits)
      with Cons.IH show ?thesis by fastforce
    next
      case (Some x)
      with Cons.prems show ?thesis
        by (subst (asm) find_match.simps) (auto split: prod.splits)
    qed
  qed
  then obtain t where t: "s = pre @ t" "match_here re_between_tags t = Some (m, g, rest)" by blast
  then have "(g, rest) \<in> set (alts re_between_tags t)"
    by (auto simp: match_here_def split: list.splits)
  then obtain t1 g2 t2 where 1: "t = (''>'' @ newline) @ t1" "(g2, t2) \<in> set (alts (Many1 (\<lambda>c. c \<noteq> CHR '']'')) t1)"
      "take 2 t2 = newline @ ''<''" "rest = drop 2 t2"
    unfolding re_between_tags_def
    by (auto simp: eval_nat_numeral split: if_splits) (metis append_take_drop_id append_Cons append_Nil)+
  obtain b where "t1 = b @ t2" "list_all (\<lambda>c. c \<noteq> CHR '']'') b" using Many1_taken[OF 1(2)] by blast
  moreover have "t2 = newline @ ''<'' @ rest" using 1(3,4) by (metis append_take_drop_id append.assoc)
  ultimately show ?thesis using t(1) 1(1) by (auto simp: list_all_iff)
qed

text \<open>Settings with a closing bracket, in a file without further tags, are not found.\<close>

definition bracket_lines :: "string list \<Rightarrow> bool" where
  "bracket_lines body \<longleftrightarrow> body \<noteq> [] \<and> list_ex (\<lambda>l. CHR '']'' \<in> set l) body \<and>
     list_all (\<lambda>l. CHR ''<'' \<notin> set l \<and> CHR ''>'' \<notin> set l) body"

lemma join_lines_mem: "l \<in> set ls \<Longrightarrow> set l \<subseteq> set (join_lines ls)"
  by (induction ls rule: induct_list012) auto

lemma bracket_lines_join:
  assumes "bracket_lines body"
  shows "CHR '']'' \<in> set (join_lines body)" "CHR ''<'' \<notin> set (join_lines body)" "CHR ''>'' \<notin> set (join_lines body)"
proof -
  show "CHR '']'' \<in> set (join_lines body)"
    using assms join_lines_mem[of _ body] by (auto simp: bracket_lines_def list_ex_iff)
  show "CHR ''<'' \<notin> set (join_lines body)" "CHR ''>'' \<notin> set (join_lines body)"
    using assms join_lines_set[of body] by (auto simp: bracket_lines_def list_all_iff nl_def)
qed

lemma no_bracket_before:
  assumes "J @ x = b @ nl # CHR ''<'' # y" "CHR ''<'' \<notin> set J" "CHR '']'' \<notin> set b"
  shows "CHR '']'' \<notin> set J"
proof -
  from assms(1) consider us where "J = b @ us" "us @ x = nl # CHR ''<'' # y" | us where "J @ us = b"
    unfolding append_eq_append_conv2 by metis
  then show ?thesis
  proof cases
    case 1
    then have "us = [] \<or> us = [nl]"
      using assms(2) by (auto simp: append_eq_Cons_conv)
    then show ?thesis using 1(1) assms(3) by (auto simp: nl_def)
  next
    case 2
    then show ?thesis using assms(3) by auto
  qed
qed

lemma next_at:
  "x \<notin> set a \<Longrightarrow> a @ x # u = p @ x # q \<Longrightarrow> p = a \<and> q = u \<or> (\<exists>us. p = a @ x # us \<and> u = us @ x # q)"
proof (induction a arbitrary: p)
  case Nil
  then show ?case by (cases p) auto
next
  case (Cons c a)
  then show ?case by (cases p) auto
qed

lemma brackets_not_matched:
  assumes "bracket_lines body" "CHR ''>'' \<notin> set tags" "rest = [] \<or> rest = newline"
  shows "getConfig (plugin_text tags body @ rest) = Inl ''output plugin config misformatted''"
proof -
  let ?pre = "''<match '' @ tags" and ?J = "join_lines body"
  let ?s = "?pre @ ''>'' @ newline @ ?J @ newline @ ''<'' @ (''/match>'' @ rest)"
  note J = bracket_lines_join[OF assms(1)]
  have "FindStringSubmatch re_between_tags ?s = []"
  proof (rule ccontr)
    assume "FindStringSubmatch re_between_tags ?s \<noteq> []"
    then obtain pre b rest' where eq: "?s = pre @ ''>'' @ newline @ b @ newline @ ''<'' @ rest'"
        and b: "CHR '']'' \<notin> set b"
      using between_tags_sound by blast
    let ?t = "newline @ ?J @ newline @ ''</match''"
    have "?pre @ CHR ''>'' # ?t @ CHR ''>'' # rest = pre @ CHR ''>'' # newline @ b @ newline @ ''<'' @ rest'"
      using eq by simp
    moreover have no: "CHR ''>'' \<notin> set ?pre" "CHR ''>'' \<notin> set ?t" using assms(2) J(3) by (auto simp: nl_def)
    ultimately consider "?t @ CHR ''>'' # rest = newline @ b @ newline @ ''<'' @ rest'"
      | us where "?t @ CHR ''>'' # rest = us @ CHR ''>'' # newline @ b @ newline @ ''<'' @ rest'"
      using next_at[OF no(1), of "?t @ CHR ''>'' # rest" pre "newline @ b @ newline @ ''<'' @ rest'"] by metis
    then show False
    proof cases
      case 1
      then have "?J @ newline @ ''</match>'' @ rest = b @ nl # CHR ''<'' # rest'" by simp
      from no_bracket_before[OF this J(2) b] J(1) show False by blast
    next
      case 2
      have "CHR ''>'' \<notin> set rest" using assms(3) by (auto simp: nl_def)
      then have "rest = newline @ b @ newline @ ''<'' @ rest'"
        using next_at[OF no(2) 2] by auto
      then show False using assms(3) by auto
    qed
  qed
  then show ?thesis
    using assms(1) by (simp add: getConfig_def plugin_text_eq bracket_lines_def)
qed

subsection \<open>A repair suffices\<close>

lemma sync_key_data: "sync_key e k (cm, u) = Some (cm', True) \<Longrightarrow> \<not> u \<Longrightarrow> cm_Data cm \<noteq> None"
  by (auto simp: sync_key_def dest: mset_at_SomeD split: if_splits option.splits)

lemma sync_key_nil:
  "cm_Data cm = None \<Longrightarrow> sync_key e k (cm, u) = (if EqualConfig cm e k then Some (cm, u) else None)"
  by (simp add: sync_key_def mset_at_def)

lemma ca_plain_settled:
  assumes "\<not> siem_name name" "ca_config_drift inst name e found = Repair cm"
  shows "ca_config_drift inst name e cm = InSync"
proof (cases "cm_Data found")
  case None
  then show ?thesis
    using assms by (auto simp: ca_config_drift_def siem_name_def sync_key_nil split: if_splits)
next
  case (Some d)
  obtain d' where d': "ca_config_drift inst name e found =
      (if \<forall>k \<in> set (plain_keys name). EqualConfig found e k then InSync else Repair (found\<lparr>cm_Data := Some d'\<rparr>))"
      "\<forall>k \<in> set (plain_keys name). mget (Some d') k = mget (cm_Data e) k"
    using plain_drift[OF assms(1) Some] by metis
  then have cm: "cm = found\<lparr>cm_Data := Some d'\<rparr>" using assms(2) by (auto split: if_splits)
  then have "\<forall>k \<in> set (plain_keys name). EqualConfig cm e k" using d'(2) by (simp add: EqualConfig_def)
  moreover have "cm_Data cm = Some d'" by (simp add: cm)
  ultimately show ?thesis using plain_drift[OF assms(1), of cm d' inst e] by auto
qed

lemma sync_key_settled:
  assumes "drift_of (sync_key e k (found, False)) = Repair cm"
  shows "drift_of (sync_key e k (cm, False)) = InSync"
proof -
  obtain d where "cm_Data found = Some d"
    using sync_key_data[OF drift_of_Repair[OF assms]] by auto
  from single_drift[OF this, of e k] assms obtain d' where
    "cm = found\<lparr>cm_Data := Some d'\<rparr>" "mget (Some d') k = mget (cm_Data e) k"
    by (auto split: if_splits)
  then show ?thesis by (simp add: sync_key_def EqualConfig_def)
qed

lemma al_plain_settled:
  assumes "\<not> siem_name name" "al_config_drift yaml name e found = Repair cm"
  shows "al_config_drift yaml name e cm = InSync"
  using assms sync_key_settled[of e _ found cm]
  by (auto simp: al_config_drift_def siem_name_def split: if_splits)

subsection \<open>A value that is never accepted\<close>

lemma run_reconcilers_member_Done:
  "fst (run_reconcilers recs s) = Done \<Longrightarrow> rec \<in> set recs \<Longrightarrow> \<exists>s'. fst (rec s') = Done"
proof (induction recs arbitrary: s)
  case (Cons r0 recs)
  obtain res s1 where r0: "r0 s = (res, s1)" by (cases "r0 s")
  with Cons.prems(1) have "res = Done" "fst (run_reconcilers recs s1) = Done"
    by (auto simp: stops_def split: if_splits)
  then show ?case using Cons.IH Cons.prems(2) r0 by (metis fst_conv set_ConsD)
qed simp

lemma get_or_create_Done:
  assumes "fst (get_or_create ops key obj check w) = Done"
  shows "\<exists>found w'. op_get ops key w = (Inr found, w') \<and> fst (check found w') = Done"
  using assms by (auto simp: get_or_create_def create_owned_def split: prod.splits sum.splits option.splits if_splits)

lemma settle_config_Done: "fst (settle_config r restart found d w) = Done \<Longrightarrow> d = InSync"
  by (auto simp: settle_config_def change_def split: drift.splits prod.splits option.splits)

lemma blank_not_in_sync:
  assumes "CHR '' '' \<in> set (sk_Host (ca_splunk inst)) \<or> CHR '' '' \<in> set (sk_Token (ca_splunk inst))"
    and "m_Name (cm_Meta found) = cm_name SplunkConfigName"
  shows "ca_config_drift inst (cm_name SplunkConfigName) e found \<noteq> InSync"
proof -
  have "configured inst found" using assms by (auto simp: configured_def is_splunk_def zero_splunk_def)
  moreover obtain v where "v \<in> set (siem_values inst found)" "CHR '' '' \<in> set v"
    using assms by (auto simp: siem_values_def is_splunk_def splunk_values_def)
  ultimately have "\<not> fst (EqualSIEMConfig inst found)" by (rule blank_rejected)
  then show ?thesis by (auto simp: ca_config_drift_def cm_name_defs Let_def split: prod.splits option.splits)
qed

lemma blank_config_unsettled:
  assumes st: "stores view (cl_configmaps (r_client r)) KConfigMap OConfigMap cm_Meta adm"
    and blank: "CHR '' '' \<in> set (sk_Host (ca_splunk inst)) \<or> CHR '' '' \<in> set (sk_Token (ca_splunk inst))"
  shows "fst (ca_reconcileConfig r inst (cm_name SplunkConfigName) w) \<noteq> Done"
proof
  let ?key = "NamespacedName (ca_Namespace inst) (cm_name SplunkConfigName)"
  assume "fst (ca_reconcileConfig r inst (cm_name SplunkConfigName) w) = Done"
  then obtain e found w' where get: "op_get (cl_configmaps (r_client r)) ?key w = (Inr found, w')"
      and sync: "ca_config_drift inst (cm_name SplunkConfigName) e found = InSync"
    unfolding ca_reconcileConfig_def
    by (auto split: sum.splits dest!: get_or_create_Done settle_config_Done)
  obtain ob where "objects (view w) (KConfigMap, ?key) = Some ob"
    using get stores_get_None[OF st, of w ?key] by (cases "objects (view w) (KConfigMap, ?key)") auto
  then have "meta_key (cm_Meta found) = ?key" using get stores_get_Some[OF st, of w ?key] by auto
  then have "m_Name (cm_Meta found) = cm_name SplunkConfigName" by (simp add: meta_key_def)
  from blank_not_in_sync[OF blank this] sync show False by blast
qed

lemma blank_unsettled:
  assumes "lawful view ad r"
    and "CHR '' '' \<in> set (sk_Host (ca_splunk inst)) \<or> CHR '' '' \<in> set (sk_Token (ca_splunk inst))"
  shows "fst (ca_run r inst s) \<noteq> Done"
proof
  assume "fst (ca_run r inst s) = Done"
  then have quiet: "fst (run_reconcilers (ca_reconcilers r inst) s) = Done"
    by (auto simp: ca_run_def stops_def split: prod.splits if_splits)
  have mem: "lift_world (ca_reconcileAuditConfigMaps r inst) \<in> set (ca_reconcilers r inst)"
    by (simp add: ca_reconcilers_def)
  obtain w where quiet': "fst (ca_reconcileAuditConfigMaps r inst w) = Done"
    using run_reconcilers_member_Done[OF quiet mem] by (auto simp: lift_world_def split_beta)
  have mem': "ca_reconcileConfig r inst (cm_name SplunkConfigName) \<in>
      set (map (ca_reconcileConfig r inst) FluentdConfigMaps)"
    by (simp add: FluentdConfigMaps_def)
  show False
    using run_reconcilers_member_Done[OF quiet'[unfolded ca_reconcileAuditConfigMaps_def] mem']
      blank_config_unsettled[OF lawful_stores(1)[OF assms(1)] assms(2)] by blast
qed

subsection \<open>Properties\<close>

text \<open>C23: A repair of a ConfigMap changes nothing but the values that the operator manages: the metadata, and
  every key that somebody else has added, stay as they were. A ConfigMap other than those of the SIEMs
  needs no second repair.\<close>

theorem repairs_keep_the_rest:
  "(ca_config_drift inst name e found = Repair cm \<longrightarrow>
      same_but (ca_managed name) cm found \<and> (\<not> siem_name name \<longrightarrow> ca_config_drift inst name e cm = InSync)) \<and>
   (al_config_drift yaml name e found = Repair cm \<longrightarrow>
      same_but (al_managed name) cm found \<and> (\<not> siem_name name \<longrightarrow> al_config_drift yaml name e cm = InSync))"
  using ca_repair_same_but ca_plain_settled al_repair_same_but al_plain_settled by blast

definition edited_map :: configmap where
  "edited_map = \<lparr>cm_Meta = zero_meta\<lparr>m_Name := cm_name HTTPIngestName\<rparr>,
     cm_Data = maplit [(''note'', ''mine''), (HTTPIngestURLKey, ''wrong'')]\<rparr>"

definition wanted_map :: configmap where
  "wanted_map = \<lparr>cm_Meta = zero_meta, cm_Data = maplit [(HTTPIngestURLKey, ''right'')]\<rparr>"

theorem repairs_keep_the_rest_witness:
  "\<exists>cm. al_config_drift yaml_block (cm_name HTTPIngestName) wanted_map edited_map = Repair cm \<and>
     same_but {HTTPIngestURLKey} cm edited_map \<and> mget (cm_Data cm) ''note'' = ''mine'' \<and>
     al_config_drift yaml_block (cm_name HTTPIngestName) wanted_map cm = InSync"
proof -
  obtain cm where cm: "al_config_drift yaml_block (cm_name HTTPIngestName) wanted_map edited_map = Repair cm"
    by (simp add: al_config_drift_def cm_name_defs sync_key_def EqualConfig_def wanted_map_def edited_map_def
        mget_def HTTPIngestURLKey_def mset_at_def)
  moreover have "\<not> siem_name (cm_name HTTPIngestName)" "al_managed (cm_name HTTPIngestName) = {HTTPIngestURLKey}"
    by (simp_all add: siem_name_def cm_name_defs al_managed_def ca_managed_def)
  ultimately have "same_but {HTTPIngestURLKey} cm edited_map"
      "al_config_drift yaml_block (cm_name HTTPIngestName) wanted_map cm = InSync"
    using repairs_keep_the_rest[of _ "cm_name HTTPIngestName" wanted_map edited_map cm yaml_block] by metis+
  then show ?thesis
    using cm by (auto simp: same_but_def edited_map_def mget_def HTTPIngestURLKey_def)
qed

text \<open>C27: A ConfigMap for the ingest addresses that has lost its data (which the server stores as no map at
  all) is not repaired: both controllers panic on the assignment to the nil map, in this round and in
  every later one.\<close>

theorem nil_data_panics:
  assumes "op_get (cl_configmaps (r_client r)) (NamespacedName ns (cm_name HTTPIngestName)) w = (Inr found, w')"
    and "cm_Data found = None" "ca_Namespace inst = ns"
  shows "ca_reconcileConfig r inst (cm_name HTTPIngestName) w = (Panicked, w') \<and>
    al_reconcileConfig r al (cm_name HTTPIngestName) ns w = (Panicked, w')"
  using assms
  by (simp add: ca_reconcileConfig_def al_reconcileConfig_def BuildFluentdConfigMap_def BuildConfigMap_def
      get_or_create_def ca_config_drift_def al_config_drift_def cm_name_defs sync_key_def EqualConfig_def
      settle_config_def ingest_url_def mset_at_def)

definition emptied_cluster :: cluster where
  "emptied_cluster = \<lparr>objects = [(KConfigMap, NamespacedName ''ns'' (cm_name HTTPIngestName)) \<mapsto>
      OConfigMap \<lparr>cm_Meta = zero_meta\<lparr>m_Name := cm_name HTTPIngestName, m_Namespace := ''ns''\<rparr>, cm_Data = None\<rparr>],
    commons = [], audits = []\<rparr>"

theorem nil_data_panics_witness:
  "fst (ca_reconcileConfig (memory_reconciler ''ns'') (new_common ''ca'' ''ns'') (cm_name HTTPIngestName) emptied_cluster) = Panicked"
proof -
  let ?cm = "\<lparr>cm_Meta = zero_meta\<lparr>m_Name := cm_name HTTPIngestName, m_Namespace := ''ns''\<rparr>, cm_Data = None\<rparr>"
  have "op_get (cl_configmaps (r_client (memory_reconciler ''ns''))) (NamespacedName ''ns'' (cm_name HTTPIngestName))
      emptied_cluster = (Inr ?cm, emptied_cluster)"
    by (simp add: memory_reconciler_def memory_client_def memory_ops_def emptied_cluster_def stored_def meta_key_def)
  from nil_data_panics[OF this, of "new_common ''ca'' ''ns''"] show ?thesis
    by (simp add: new_common_def)
qed

text \<open>C26: Settings with a closing bracket, for example the address of a host in brackets, keep the output
  plugin file of an AuditLogging from being updated: when its match tags are out of date and its
  settings have no other tags, reconcileConfig fails with the error of a misformatted file, and leaves
  the file as it is.\<close>

theorem bracket_settings_fail:
  assumes "op_get (cl_configmaps (r_client r)) (NamespacedName ns (cm_name SplunkConfigName)) w = (Inr found, w')"
    and "m_Name (cm_Meta found) = cm_name SplunkConfigName" "\<not> EqualMatchTags found"
    and "mget (cm_Data found) SplunkConfigKey = plugin_text tags body @ rest" "rest = [] \<or> rest = newline"
    and "bracket_lines body" "CHR ''>'' \<notin> set tags" "yaml_literal (r_yaml r)"
  shows "al_reconcileConfig r inst (cm_name SplunkConfigName) ns w =
    (Failed (OtherError ''output plugin config misformatted''), w')"
proof -
  have "cm_name SplunkConfigName \<in> set FluentdConfigMaps" by (simp add: FluentdConfigMaps_def)
  then obtain e where e: "BuildConfigMap (r_yaml r) inst (cm_name SplunkConfigName) ns = Inr e"
    using BuildConfigMap_new[OF assms(8)] by blast
  have "BuildWithSIEMConfigs (r_yaml r) found = Inl ''output plugin config misformatted''"
    using brackets_not_matched[OF assms(6,7,5)] assms(2,4) by (simp add: BuildWithSIEMConfigs_def)
  then have "al_config_drift (r_yaml r) (cm_name SplunkConfigName) e found =
      DriftError ''output plugin config misformatted''"
    using assms(3) by (simp add: al_config_drift_def cm_name_defs)
  then show ?thesis
    using assms(1) e by (simp add: al_reconcileConfig_def get_or_create_def settle_config_def)
qed

definition bracketed_cluster :: cluster where
  "bracketed_cluster = \<lparr>objects = [(KConfigMap, NamespacedName ''ns'' (cm_name SplunkConfigName)) \<mapsto>
      OConfigMap \<lparr>cm_Meta = zero_meta\<lparr>m_Name := cm_name SplunkConfigName, m_Namespace := ''ns''\<rparr>,
        cm_Data = maplit [(SplunkConfigKey, plugin_text ''icp-audit'' [''hec_host [fd00::1]''])]\<rparr>],
    commons = [], audits = []\<rparr>"

theorem bracket_settings_fail_witness:
  "al_reconcileConfig (memory_reconciler ''ns'') (new_auditlogging ''al'') (cm_name SplunkConfigName) ''ns'' bracketed_cluster =
     (Failed (OtherError ''output plugin config misformatted''), bracketed_cluster)"
proof -
  let ?text = "plugin_text ''icp-audit'' [''hec_host [fd00::1]'']"
  let ?cm = "\<lparr>cm_Meta = zero_meta\<lparr>m_Name := cm_name SplunkConfigName, m_Namespace := ''ns''\<rparr>,
        cm_Data = maplit [(SplunkConfigKey, ?text)]\<rparr>"
  have get: "op_get (cl_configmaps (r_client (memory_reconciler ''ns''))) (NamespacedName ''ns'' (cm_name SplunkConfigName))
      bracketed_cluster = (Inr ?cm, bracketed_cluster)"
    by (simp add: memory_reconciler_def memory_client_def memory_ops_def bracketed_cluster_def stored_def meta_key_def)
  have "\<not> contains ?text (''match '' @ current_tags)" by code_simp
  then have stale: "\<not> EqualMatchTags ?cm"
    by (simp add: EqualMatchTags_iff siem_text_def siem_key_def is_splunk_def mget_def)
  show ?thesis
    by (rule bracket_settings_fail[OF get _ stale, of "''icp-audit''" "[''hec_host [fd00::1]'']" "[]"])
      (simp_all add: mget_def bracket_lines_def memory_reconciler_def yaml_block_literal)
qed

text \<open>C32: A blank in the host or the token of Splunk keeps the controller of CommonAudit from ever finishing:
  under the laws of the API server no run of the reconcile methods ends quietly, because the comparison
  reads a value only up to the first blank and so rejects what the update has just written.\<close>

theorem blank_value_never_settles:
  assumes "lawful view ad r"
    and "CHR '' '' \<in> set (sk_Host (ca_splunk inst)) \<or> CHR '' '' \<in> set (sk_Token (ca_splunk inst))"
  shows "fst (ca_run r inst s) \<noteq> Done"
  by (rule blank_unsettled[OF assms])

theorem blank_value_never_settles_witness:
  "fst (ca_run (memory_reconciler ''cs'') sample_blank (emptied_cluster, init_globals)) \<noteq> Done"
proof (rule blank_value_never_settles)
  show "lawful stored memory_admission (memory_reconciler ''cs'')" by (rule memory_lawful)
  show "CHR '' '' \<in> set (sk_Host (ca_splunk sample_blank)) \<or> CHR '' '' \<in> set (sk_Token (ca_splunk sample_blank))"
    by (simp add: sample_blank_def)
qed

end
