(* ===== verification/Interleaving.thy ===== *)
theory Interleaving
  imports WorkloadProps
begin

text \<open>
  The two controllers run at the same time, and their builders write the fields of the one package
  variable \<open>fluentdMainContainer\<close> without a lock before they copy it into the object they build. Here a
  build is a thread of single assignments, in the order of the statements of deployments.go, and the
  threads are interleaved in every way.
\<close>

subsection \<open>Threads of assignments\<close>

datatype assignment =
    SetVolumeMounts "volume_mount slice"
  | SetImage string
  | SetImagePullPolicy string
  | SetSecurityContext "security_context option"
  | SetResources resource_requirements

fun assign_to :: "assignment \<Rightarrow> container \<Rightarrow> container" where
  "assign_to (SetVolumeMounts v) c = c\<lparr>c_VolumeMounts := v\<rparr>"
| "assign_to (SetImage v) c = c\<lparr>c_Image := v\<rparr>"
| "assign_to (SetImagePullPolicy v) c = c\<lparr>c_ImagePullPolicy := v\<rparr>"
| "assign_to (SetSecurityContext v) c = c\<lparr>c_SecurityContext := v\<rparr>"
| "assign_to (SetResources v) c = c\<lparr>c_Resources := v\<rparr>"

text \<open>What a build writes: the mounts, the pull policy and the resources are its own.\<close>

record build =
  b_Mounts :: "volume_mount slice"
  b_PullPolicy :: string
  b_Resources :: resource_requirements

definition assignments :: "environ \<Rightarrow> build \<Rightarrow> assignment list" where
  "assignments env b =
     [SetVolumeMounts (b_Mounts b), SetImage (Getenv env ''FLUENTD_IMAGE''),
      SetImagePullPolicy (getPullPolicy (b_PullPolicy b)), SetSecurityContext (Some restrictedSecurityContext),
      SetResources (b_Resources b)]"

definition deployment_build :: "quantity_pkg \<Rightarrow> CommonAudit \<Rightarrow> build" where
  "deployment_build q inst =
     \<lparr>b_Mounts = buildFluentdDeploymentVolumeMounts, b_PullPolicy = caf_PullPolicy (ca_Fluentd (ca_Spec inst)),
      b_Resources = the (buildResources q (caf_Resources (ca_Fluentd (ca_Spec inst))) defaultFluentdResources)\<rparr>"

definition daemonset_build :: "quantity_pkg \<Rightarrow> AuditLogging \<Rightarrow> build" where
  "daemonset_build q inst =
     \<lparr>b_Mounts = buildDaemonsetVolumeMounts inst, b_PullPolicy = alf_PullPolicy (al_Fluentd (al_Spec inst)),
      b_Resources = the (buildResources q (alf_Resources (al_Fluentd (al_Spec inst))) defaultFluentdResources)\<rparr>"

text \<open>
  A thread has assignments to do and, at its end, the container that it has copied. Each assignment
  and the copy are taken as one step. Go promises no such thing of accesses that race: a slice, a
  string or a struct may be read half written. What is shown below is what can happen even where
  each of these accesses is atomic.
\<close>

record thread =
  pending :: "assignment list"
  copied :: "container option"

type_synonym machine = "container \<times> thread list"

inductive tick :: "machine \<Rightarrow> machine \<Rightarrow> bool" where
  assign: "i < length ts \<Longrightarrow> pending (ts ! i) = a # as \<Longrightarrow>
    tick (c, ts) (assign_to a c, ts[i := (ts ! i)\<lparr>pending := as\<rparr>])"
| copy: "i < length ts \<Longrightarrow> pending (ts ! i) = [] \<Longrightarrow> copied (ts ! i) = None \<Longrightarrow>
    tick (c, ts) (c, ts[i := (ts ! i)\<lparr>copied := Some c\<rparr>])"

definition start :: "environ \<Rightarrow> container \<Rightarrow> build list \<Rightarrow> machine" where
  "start env c bs = (c, map (\<lambda>b. \<lparr>pending = assignments env b, copied = None\<rparr>) bs)"

inductive reaches :: "machine \<Rightarrow> machine \<Rightarrow> bool" where
  refl: "reaches m m"
| step: "reaches m m' \<Longrightarrow> tick m' m'' \<Longrightarrow> reaches m m''"

text \<open>One schedule: the thread that runs at each moment. A thread that cannot run does nothing.\<close>

fun run :: "nat list \<Rightarrow> machine \<Rightarrow> machine" where
  "run [] m = m"
| "run (i # is) (c, ts) =
     (if i < length ts
      then case pending (ts ! i) of
             a # as \<Rightarrow> run is (assign_to a c, ts[i := (ts ! i)\<lparr>pending := as\<rparr>])
           | [] \<Rightarrow> if copied (ts ! i) = None then run is (c, ts[i := (ts ! i)\<lparr>copied := Some c\<rparr>]) else run is (c, ts)
      else run is (c, ts))"

lemma reaches_trans: "reaches b c \<Longrightarrow> reaches a b \<Longrightarrow> reaches a c"
  by (induction rule: reaches.induct) (auto intro: reaches.intros)

lemma run_reaches: "reaches m (run is m)"
proof (induction "is" m rule: run.induct)
  case (2 i "is" c ts)
  show ?case
  proof (cases "i < length ts")
    case True
    show ?thesis
    proof (cases "pending (ts ! i)")
      case Nil
      then show ?thesis
        using True Nil 2(1)[OF True Nil] 2(2)[OF True Nil] reaches_trans reaches.step[OF reaches.refl tick.copy[OF True Nil]]
        by (cases "copied (ts ! i)") auto
    next
      case (Cons a as)
      then show ?thesis
        using True Cons 2(3)[OF True Cons] reaches_trans[OF _ reaches.step[OF reaches.refl tick.assign[OF True Cons]]]
        by auto
    qed
  next
    case False
    then show ?thesis using 2(4) by simp
  qed
qed (simp add: reaches.refl)

subsection \<open>One build alone\<close>

lemma builder_container:
  assumes "fluentd_fixed g"
  shows "\<exists>g' d. BuildDeploymentForFluentd env q ca g = Some (d, g') \<and>
      ps_Containers (pt_Spec (ds_Template (d_Spec d))) =
        Some [foldl (\<lambda>c a. assign_to a c) (fluentdMainContainer g) (assignments env (deployment_build q ca))]"
    and "\<exists>g' d. BuildDaemonForFluentd env q inst ns g = Some (d, g') \<and>
      ps_Containers (pt_Spec (dss_Template (dset_Spec d))) =
        Some [foldl (\<lambda>c a. assign_to a c) (fluentdMainContainer g) (assignments env (daemonset_build q inst))]"
  using default_resources_total[of q "caf_Resources (ca_Fluentd (ca_Spec ca))"]
    default_resources_total[of q "alf_Resources (al_Fluentd (al_Spec inst))"]
  by (auto simp: BuildDeploymentForFluentd_def BuildDaemonForFluentd_def Let_def assignments_def
      deployment_build_def daemonset_build_def)

subsection \<open>Any interleaving\<close>

text \<open>What a copied container is made of, whoever wrote its fields.\<close>

definition mixed :: "environ \<Rightarrow> build list \<Rightarrow> container \<Rightarrow> bool" where
  "mixed env bs c \<longleftrightarrow> same_fixed c init_fluentdMainContainer \<and> c_Args c = c_Args init_fluentdMainContainer \<and>
     c_VolumeMounts c \<in> b_Mounts ` set bs \<and> c_Image c = Getenv env ''FLUENTD_IMAGE'' \<and>
     c_ImagePullPolicy c \<in> (getPullPolicy \<circ> b_PullPolicy) ` set bs \<and>
     c_SecurityContext c = Some restrictedSecurityContext \<and> c_Resources c \<in> b_Resources ` set bs"

text \<open>The container after some thread has done \<open>n\<close> of its assignments.\<close>

definition written :: "environ \<Rightarrow> build list \<Rightarrow> nat \<Rightarrow> container \<Rightarrow> bool" where
  "written env bs n c \<longleftrightarrow>
     (1 \<le> n \<longrightarrow> c_VolumeMounts c \<in> b_Mounts ` set bs) \<and>
     (2 \<le> n \<longrightarrow> c_Image c = Getenv env ''FLUENTD_IMAGE'') \<and>
     (3 \<le> n \<longrightarrow> c_ImagePullPolicy c \<in> (getPullPolicy \<circ> b_PullPolicy) ` set bs) \<and>
     (4 \<le> n \<longrightarrow> c_SecurityContext c = Some restrictedSecurityContext) \<and>
     (5 \<le> n \<longrightarrow> c_Resources c \<in> b_Resources ` set bs)"

definition fixed_container :: "container \<Rightarrow> bool" where
  "fixed_container c \<longleftrightarrow>
     same_fixed c init_fluentdMainContainer \<and> c_Args c = c_Args init_fluentdMainContainer"

definition thread_ok :: "environ \<Rightarrow> build list \<Rightarrow> container \<Rightarrow> build \<Rightarrow> thread \<Rightarrow> bool" where
  "thread_ok env bs c b t \<longleftrightarrow>
     (\<exists>n \<le> 5. pending t = drop n (assignments env b) \<and> written env bs n c) \<and>
     (\<forall>x. copied t = Some x \<longrightarrow> mixed env bs x)"

definition machine_ok :: "environ \<Rightarrow> build list \<Rightarrow> machine \<Rightarrow> bool" where
  "machine_ok env bs m \<longleftrightarrow> fixed_container (fst m) \<and> list_all2 (thread_ok env bs (fst m)) bs (snd m)"

lemma nat_le_5: "n \<le> 5 \<longleftrightarrow> n = 0 \<or> n = 1 \<or> n = 2 \<or> n = 3 \<or> n = 4 \<or> n = (5::nat)"
  by auto

lemma assign_written:
  assumes "b \<in> set bs" "n \<le> 5" "drop n (assignments env b) = a # as" "written env bs n c" "fixed_container c"
  shows "written env bs (Suc n) (assign_to a c)" "Suc n \<le> 5" "as = drop (Suc n) (assignments env b)"
    "fixed_container (assign_to a c)" "written env bs k c \<Longrightarrow> written env bs k (assign_to a c)"
proof -
  have a: "n = 0 \<and> a = SetVolumeMounts (b_Mounts b) \<or> n = 1 \<and> a = SetImage (Getenv env ''FLUENTD_IMAGE'') \<or>
      n = 2 \<and> a = SetImagePullPolicy (getPullPolicy (b_PullPolicy b)) \<or>
      n = 3 \<and> a = SetSecurityContext (Some restrictedSecurityContext) \<or> n = 4 \<and> a = SetResources (b_Resources b)"
    using assms(2,3) by (auto simp: nat_le_5 assignments_def simp del: getPullPolicy.simps)
  show "written env bs (Suc n) (assign_to a c)"
    using a assms(1,4) by (elim disjE) (simp_all add: written_def del: getPullPolicy.simps)
  show "Suc n \<le> 5" using a by auto
  show "as = drop (Suc n) (assignments env b)" using assms(3) by (metis drop_Suc list.sel(3) tl_drop)
  show "fixed_container (assign_to a c)"
    using assms(5) by (cases a) (simp_all add: fixed_container_def same_fixed_def)
  show "written env bs k (assign_to a c)" if "written env bs k c"
    using that a assms(1) by (elim disjE) (simp_all add: written_def del: getPullPolicy.simps)
qed

lemma tick_ok:
  assumes "tick m m'" "machine_ok env bs m"
  shows "machine_ok env bs m'"
  using assms
proof (induction rule: tick.induct)
  case (assign i ts a as c)
  let ?t = "ts ! i" and ?b = "bs ! i" and ?c = "assign_to a c"
  have fixed: "fixed_container c" and all: "list_all2 (thread_ok env bs c) bs ts"
    using assign.prems by (simp_all add: machine_ok_def)
  have i: "i < length bs" "thread_ok env bs c ?b ?t"
    using all assign.hyps(1) by (auto simp: list_all2_conv_all_nth)
  then obtain n where n: "n \<le> 5" "drop n (assignments env ?b) = a # as" "written env bs n c"
    using assign.hyps(2) by (auto simp: thread_ok_def)
  have mem: "?b \<in> set bs" using i(1) by simp
  note w = assign_written[OF mem n fixed]
  have kept: "thread_ok env bs ?c b t" if "thread_ok env bs c b t" for b t
    using that w(5) by (auto simp: thread_ok_def)
  have "thread_ok env bs ?c ?b (?t\<lparr>pending := as\<rparr>)"
    using i(2) w(1,2,3) unfolding thread_ok_def by (metis thread.select_convs thread.update_convs thread.surjective)
  moreover have "list_all2 (thread_ok env bs ?c) bs ts"
    by (rule list_all2_mono[OF all kept])
  ultimately have "list_all2 (thread_ok env bs ?c) bs (ts[i := ?t\<lparr>pending := as\<rparr>])"
    using list_all2_update_cong[of "thread_ok env bs ?c" bs ts "?b" "?t\<lparr>pending := as\<rparr>" i] by simp
  then show ?case using w(4) by (simp add: machine_ok_def)
next
  case (copy i ts c)
  let ?t = "ts ! i" and ?b = "bs ! i"
  have fixed: "fixed_container c" and all: "list_all2 (thread_ok env bs c) bs ts"
    using copy.prems by (simp_all add: machine_ok_def)
  have i: "i < length bs" "thread_ok env bs c ?b ?t"
    using all copy.hyps(1) by (auto simp: list_all2_conv_all_nth)
  then obtain n where n: "n \<le> 5" "drop n (assignments env ?b) = []" "written env bs n c"
    using copy.hyps(2) by (auto simp: thread_ok_def)
  then have "n = 5" by (auto simp: assignments_def)
  with n(3) fixed have "mixed env bs c" by (simp add: mixed_def written_def fixed_container_def)
  with i(2) have "thread_ok env bs c ?b (?t\<lparr>copied := Some c\<rparr>)" by (auto simp: thread_ok_def)
  then have "list_all2 (thread_ok env bs c) bs (ts[i := ?t\<lparr>copied := Some c\<rparr>])"
    using list_all2_update_cong[OF all, of ?b "?t\<lparr>copied := Some c\<rparr>" i] by simp
  then show ?case using fixed by (simp add: machine_ok_def)
qed

lemma reaches_ok: "reaches m m' \<Longrightarrow> machine_ok env bs m \<Longrightarrow> machine_ok env bs m'"
  by (induction rule: reaches.induct) (auto intro: tick_ok)

lemma start_ok: "fixed_container c \<Longrightarrow> machine_ok env bs (start env c bs)"
  by (auto simp: machine_ok_def start_def list_all2_conv_all_nth thread_ok_def written_def intro!: exI[of _ 0])

lemma fluentd_fixed_container: "fluentd_fixed g \<Longrightarrow> fixed_container (fluentdMainContainer g)"
  by (simp add: fluentd_fixed_def fixed_container_def)

lemma interleaved:
  assumes "fluentd_fixed g" "reaches (start env (fluentdMainContainer g) bs) (c, ts)"
    and "i < length ts" "copied (ts ! i) = Some x"
  shows "mixed env bs x"
proof -
  have "machine_ok env bs (c, ts)"
    using reaches_ok[OF assms(2) start_ok[OF fluentd_fixed_container[OF assms(1)]]] .
  then have "thread_ok env bs c (bs ! i) (ts ! i)"
    using assms(3) by (auto simp: machine_ok_def list_all2_conv_all_nth)
  then show ?thesis using assms(4) by (simp add: thread_ok_def)
qed

subsection \<open>Who wrote what is copied\<close>

text \<open>
  The \<open>k\<close>-th turn of a thread is its \<open>k\<close>-th assignment, counted from zero, and the turn after its
  last assignment is its copy. \<open>turns n k is\<close> lists the threads in the order in which the schedule gives
  them their \<open>k\<close>-th turn; the last of them has written the \<open>k\<close>-th of the shared fields.
\<close>

definition turns :: "nat \<Rightarrow> nat \<Rightarrow> nat list \<Rightarrow> nat list" where
  "turns n k is = map ((!) is) (filter (\<lambda>t. is ! t < n \<and> count_list (take t is) (is ! t) = k) [0..<length is])"

definition last_writer :: "nat \<Rightarrow> nat \<Rightarrow> nat list \<Rightarrow> nat" where
  "last_writer n k is = last (turns n k is)"

lemma turns_Nil [simp]: "turns n k [] = []"
  by (simp add: turns_def)

lemma turns_snoc [simp]:
  "turns n k (is @ [j]) = turns n k is @ (if j < n \<and> count_list is j = k then [j] else [])"
proof -
  have "filter (\<lambda>t. (is @ [j]) ! t < n \<and> count_list (take t (is @ [j])) ((is @ [j]) ! t) = k) [0..<length is] =
      filter (\<lambda>t. is ! t < n \<and> count_list (take t is) (is ! t) = k) [0..<length is]"
    by (rule filter_cong) (simp_all add: nth_append)
  then show ?thesis by (simp add: turns_def nth_append)
qed

text \<open>Every thread that has had its \<open>k\<close>-th turn is among them.\<close>

lemma turns_set: "set (turns n k is) = {j. j < n \<and> k < count_list is j}"
  by (induction "is" rule: rev_induct) (auto simp: less_Suc_eq)

lemma turns_nonempty: "j < n \<Longrightarrow> k < count_list is j \<Longrightarrow> turns n k is \<noteq> []"
  using turns_set[of n k "is"] by force

lemma last_writer_less:
  assumes "j < n" "k < count_list is j"
  shows "last_writer n k is < n"
proof -
  have "last (turns n k is) \<in> set (turns n k is)" using turns_nonempty[OF assms] by simp
  then show ?thesis by (simp add: last_writer_def turns_set)
qed

text \<open>A field as the last of the builds has left it, or as it was.\<close>

definition latest :: "build list \<Rightarrow> nat \<Rightarrow> nat list \<Rightarrow> (build \<Rightarrow> 'a) \<Rightarrow> 'a \<Rightarrow> 'a" where
  "latest bs k is f old =
     (if turns (length bs) k is = [] then old else f (bs ! last_writer (length bs) k is))"

lemma latest_Nil [simp]: "latest bs k [] f old = old"
  by (simp add: latest_def)

lemma latest_snoc [simp]:
  "latest bs k (is @ [j]) f old =
     (if j < length bs \<and> count_list is j = k then f (bs ! j) else latest bs k is f old)"
  by (simp add: latest_def last_writer_def)

definition container_after :: "environ \<Rightarrow> build list \<Rightarrow> container \<Rightarrow> nat list \<Rightarrow> container" where
  "container_after env bs c is = c
     \<lparr>c_VolumeMounts := latest bs 0 is b_Mounts (c_VolumeMounts c),
      c_Image := latest bs 1 is (\<lambda>_. Getenv env ''FLUENTD_IMAGE'') (c_Image c),
      c_ImagePullPolicy := latest bs 2 is (getPullPolicy \<circ> b_PullPolicy) (c_ImagePullPolicy c),
      c_SecurityContext := latest bs 3 is (\<lambda>_. Some restrictedSecurityContext) (c_SecurityContext c),
      c_Resources := latest bs 4 is b_Resources (c_Resources c)\<rparr>"

lemma assignment_at:
  "assignments env b ! 0 = SetVolumeMounts (b_Mounts b)"
  "assignments env b ! 1 = SetImage (Getenv env ''FLUENTD_IMAGE'')"
  "assignments env b ! 2 = SetImagePullPolicy (getPullPolicy (b_PullPolicy b))"
  "assignments env b ! 3 = SetSecurityContext (Some restrictedSecurityContext)"
  "assignments env b ! 4 = SetResources (b_Resources b)"
  by (simp_all add: assignments_def del: getPullPolicy.simps)

lemma assign_again:
  fixes c :: container
  defines "m \<equiv> \<lambda>v i p s r. c\<lparr>c_VolumeMounts := v, c_Image := i, c_ImagePullPolicy := p, c_SecurityContext := s, c_Resources := r\<rparr>"
  shows "(m v i p s r)\<lparr>c_VolumeMounts := v'\<rparr> = m v' i p s r" "(m v i p s r)\<lparr>c_Image := i'\<rparr> = m v i' p s r"
    "(m v i p s r)\<lparr>c_ImagePullPolicy := p'\<rparr> = m v i p' s r" "(m v i p s r)\<lparr>c_SecurityContext := s'\<rparr> = m v i p s' r"
    "(m v i p s r)\<lparr>c_Resources := r'\<rparr> = m v i p s r'"
  unfolding m_def by (cases c; simp)+

lemma container_after_assign:
  assumes "j < length bs" "count_list is j < 5"
  shows "assign_to (assignments env (bs ! j) ! count_list is j) (container_after env bs c is) =
    container_after env bs c (is @ [j])"
proof -
  consider "count_list is j = 0" | "count_list is j = 1" | "count_list is j = 2" | "count_list is j = 3"
    | "count_list is j = 4" using assms(2) by linarith
  then show ?thesis
    unfolding container_after_def latest_snoc
    by cases (simp_all only: assms(1) assignment_at assign_to.simps one_neq_zero zero_neq_one numeral_eq_iff
      num.distinct num.inject zero_neq_numeral numeral_neq_zero one_eq_numeral_iff numeral_eq_one_iff simp_thms if_True
      if_False comp_apply assign_again)
qed

lemma latest_idle:
  "\<not> (j < length bs \<and> count_list is j < 5) \<Longrightarrow> k < 5 \<Longrightarrow> latest bs k (is @ [j]) f old = latest bs k is f old"
  by auto

lemma container_after_idle:
  assumes "\<not> (j < length bs \<and> count_list is j < 5)"
  shows "container_after env bs c (is @ [j]) = container_after env bs c is"
proof -
  have "0 < (5::nat)" "1 < (5::nat)" "2 < (5::nat)" "3 < (5::nat)" "4 < (5::nat)" by simp_all
  note idle = this[THEN latest_idle[OF assms]]
  show ?thesis unfolding container_after_def idle ..
qed

subsection \<open>The machine after a schedule\<close>

definition progress :: "environ \<Rightarrow> build list \<Rightarrow> container \<Rightarrow> nat list \<Rightarrow> machine \<Rightarrow> bool" where
  "progress env bs c is m \<longleftrightarrow> fst m = container_after env bs c is \<and> length (snd m) = length bs \<and>
     (\<forall>j < length bs. pending (snd m ! j) = drop (count_list is j) (assignments env (bs ! j)) \<and>
        (copied (snd m ! j) = None \<longleftrightarrow> count_list is j \<le> 5))"

lemma length_assignments [simp]: "length (assignments env b) = 5"
  by (simp add: assignments_def)

lemma run_append: "run (xs @ ys) m = run ys (run xs m)"
  by (induction xs m rule: run.induct) (auto split: list.split)

text \<open>One turn.\<close>

lemma run_one:
  "run [j] (c, ts) =
     (if j < length ts
      then case pending (ts ! j) of
             a # as \<Rightarrow> (assign_to a c, ts[j := (ts ! j)\<lparr>pending := as\<rparr>])
           | [] \<Rightarrow> if copied (ts ! j) = None then (c, ts[j := (ts ! j)\<lparr>copied := Some c\<rparr>]) else (c, ts)
      else (c, ts))"
  by (cases "j < length ts"; cases "pending (ts ! j)"; cases "copied (ts ! j)"; simp)

lemma progress_turn:
  assumes "progress env bs c is m"
  shows "progress env bs c (is @ [j]) (run [j] m)"
proof -
  obtain x ts where m: "m = (x, ts)" by (cases m)
  note p = assms[unfolded m progress_def fst_conv snd_conv]
  consider (idle) "\<not> j < length bs" | (assign) "j < length bs" "count_list is j < 5"
    | (copy) "j < length bs" "5 \<le> count_list is j" by fastforce
  then show ?thesis
  proof cases
    case idle
    then show ?thesis using p unfolding m run_one by (auto simp: progress_def container_after_idle)
  next
    case assign
    let ?k = "count_list is j" and ?as = "assignments env (bs ! j)"
    have "pending (ts ! j) = ?as ! ?k # drop (Suc ?k) ?as"
      using p assign by (simp add: Cons_nth_drop_Suc)
    then show ?thesis using p assign unfolding m run_one
      by (auto simp: progress_def container_after_assign nth_list_update)
  next
    case copy
    then have "pending (ts ! j) = []" using p by simp
    then show ?thesis using p copy unfolding m run_one
      by (auto simp: progress_def container_after_idle nth_list_update)
  qed
qed

lemma progress_run: "progress env bs c is (run is (start env c bs))"
proof (induction "is" rule: rev_induct)
  case Nil
  show ?case by (simp add: progress_def start_def container_after_def)
next
  case (snoc j "is")
  then show ?case using progress_turn by (simp only: run_append)
qed

text \<open>What has been copied stays.\<close>

lemma copied_stays:
  "i < length (snd m) \<Longrightarrow> copied (snd m ! i) = Some x \<Longrightarrow> copied (snd (run is m) ! i) = Some x"
proof (induction "is" m rule: run.induct)
  case (2 j "is" c ts)
  show ?case
    using 2 by (cases "j = i"; cases "j < length ts"; cases "pending (ts ! j)"; cases "copied (ts ! j)"; simp)
qed simp

lemma container_copied:
  assumes "i < length bs" "count_list pre i = 5"
  shows "copied (snd (run (pre @ i # post) (start env c bs)) ! i) = Some (container_after env bs c pre)"
proof -
  obtain x ts where m: "run pre (start env c bs) = (x, ts)" by fastforce
  note p = progress_run[of env bs c pre, unfolded m progress_def fst_conv snd_conv]
  have "run [i] (x, ts) = (x, ts[i := (ts ! i)\<lparr>copied := Some x\<rparr>])"
    using p assms unfolding run_one by simp
  then have "run (pre @ i # post) (start env c bs) = run post (x, ts[i := (ts ! i)\<lparr>copied := Some x\<rparr>])"
    using run_append[of pre "i # post"] run_append[of "[i]" post] m by simp
  moreover have "copied (snd (run post (x, ts[i := (ts ! i)\<lparr>copied := Some x\<rparr>])) ! i) = Some x"
    using copied_stays[of i "(x, ts[i := (ts ! i)\<lparr>copied := Some x\<rparr>])" x] p assms(1) by simp
  ultimately show ?thesis using p by simp
qed

text \<open>Every execution follows some schedule.\<close>

lemma tick_run: "tick m m' \<Longrightarrow> \<exists>i. run [i] m = m'"
proof (induction rule: tick.induct)
  case (assign i ts a as c)
  then show ?case by (intro exI[of _ i]) simp
next
  case (copy i ts c)
  then show ?case by (intro exI[of _ i]) simp
qed

lemma reaches_run: "reaches m m' \<Longrightarrow> \<exists>is. run is m = m'"
proof (induction rule: reaches.induct)
  case (refl m)
  show ?case by (rule exI[of _ "[]"]) simp
next
  case (step m m' m'')
  then show ?case using tick_run run_append by metis
qed

text \<open>After its last assignment a thread finds every field written.\<close>

lemma container_after_last:
  assumes "i < length bs" "count_list pre i = 5"
  shows "container_after env bs c pre = c
     \<lparr>c_VolumeMounts := b_Mounts (bs ! last_writer (length bs) 0 pre),
      c_Image := Getenv env ''FLUENTD_IMAGE'',
      c_ImagePullPolicy := getPullPolicy (b_PullPolicy (bs ! last_writer (length bs) 2 pre)),
      c_SecurityContext := Some restrictedSecurityContext,
      c_Resources := b_Resources (bs ! last_writer (length bs) 4 pre)\<rparr>"
proof -
  have "turns (length bs) k pre \<noteq> []" if "k < 5" for k
    using turns_nonempty[OF assms(1)] that assms(2) by simp
  then have "turns (length bs) 0 pre \<noteq> []" "turns (length bs) 1 pre \<noteq> []" "turns (length bs) 2 pre \<noteq> []"
      "turns (length bs) 3 pre \<noteq> []" "turns (length bs) 4 pre \<noteq> []" by simp_all
  then show ?thesis unfolding container_after_def latest_def by (simp only: if_False comp_apply)
qed

subsection \<open>Two builds\<close>

text \<open>The mounts of thread 0 are overtaken: thread 1 takes its first turn after the first turn of thread 0.\<close>

definition overtaken :: "nat list \<Rightarrow> bool" where
  "overtaken is \<longleftrightarrow> 1 \<in> set is \<and> 0 \<in> set (takeWhile (\<lambda>j. j \<noteq> 1) is)"

lemma mounts_differ: "buildDaemonsetVolumeMounts inst \<noteq> buildFluentdDeploymentVolumeMounts"
  by (simp add: buildDaemonsetVolumeMounts_def buildFluentdDeploymentVolumeMounts_def)

lemma first_turns:
  "turns 2 0 is =
     (if 0 \<notin> set is \<and> 1 \<notin> set is then [] else if 1 \<notin> set is then [0] else if 0 \<notin> set is then [1]
      else if overtaken is then [0, 1] else [1, 0])"
proof (induction "is" rule: rev_induct)
  case (snoc j "is")
  have tw: "takeWhile (\<lambda>j. j \<noteq> 1) (is @ [j]) =
      (if 1 \<in> set is then takeWhile (\<lambda>j. j \<noteq> 1) is else is @ (if j = 1 then [] else [j]))"
    by (auto simp: takeWhile_append)
  have zero: "count_list is j = 0 \<longleftrightarrow> j \<notin> set is" by (simp add: count_list_0_iff)
  show ?case
    unfolding turns_snoc snoc.IH zero overtaken_def tw
    using set_takeWhileD[of 0 "\<lambda>j. j \<noteq> 1" "is"]
    by (cases "j = 0"; cases "j = 1") (auto simp: less_2_cases_iff)
qed simp

lemma mounts_writer:
  assumes "0 \<in> set is"
  shows "last_writer 2 0 is = (if overtaken is then 1 else 0)"
  using assms by (auto simp: last_writer_def first_turns overtaken_def)

subsection \<open>Properties\<close>

text \<open>C17: However the builds of several resources are interleaved, assignment by assignment, a container
  that one of them copies has the fixed parts of the template (name, command, arguments, environment,
  ports and probes), the image and the security context that every build sets, and mounts, a pull
  policy and resources that some of the builds has asked for, each as a whole.\<close>

theorem interleaved_builds:
  assumes "fluentd_fixed g" "reaches (start env (fluentdMainContainer g) bs) (c, ts)"
    and "i < length ts" "copied (ts ! i) = Some x"
  shows "mixed env bs x"
  using assms by (rule interleaved)

abbreviation race_start :: machine where
  "race_start \<equiv> start Map.empty (fluentdMainContainer init_globals)
     [deployment_build sample_quantity (new_common ''ca'' ''ns''), daemonset_build sample_quantity (new_auditlogging ''al'')]"

theorem interleaved_builds_witness:
  "\<exists>x. copied (snd (run [0, 1, 0, 0, 0, 0, 0] race_start) ! 0) = Some x \<and>
     mixed Map.empty [deployment_build sample_quantity (new_common ''ca'' ''ns''),
       daemonset_build sample_quantity (new_auditlogging ''al'')] x"
proof -
  let ?m = "run [0, 1, 0, 0, 0, 0, 0] race_start"
  obtain x where x: "copied (snd ?m ! 0) = Some x"
    by (simp add: start_def assignments_def)
  have "fluentd_fixed init_globals" using built_fixed[OF built.init] by blast
  moreover have "reaches race_start (fst ?m, snd ?m)" using run_reaches by simp
  moreover have "0 < length (snd ?m)" by (simp add: start_def assignments_def)
  ultimately show ?thesis using interleaved_builds x by blast
qed

text \<open>C29: The fields of a copied container are those of the builds that wrote them last. For any number of
  builds and any schedule, a build that has made its five assignments and gets its turn copies a container
  in which each of the five fields comes from the build that, among all of them, was the last to make
  that assignment before this moment; what the schedule holds afterwards does not change the copy.\<close>

theorem copied_from_last_writers:
  assumes "i < length bs" "count_list pre i = 5"
  shows "copied (snd (run (pre @ i # post) (start env c bs)) ! i) = Some (c
     \<lparr>c_VolumeMounts := b_Mounts (bs ! last_writer (length bs) 0 pre),
      c_Image := Getenv env ''FLUENTD_IMAGE'',
      c_ImagePullPolicy := getPullPolicy (b_PullPolicy (bs ! last_writer (length bs) 2 pre)),
      c_SecurityContext := Some restrictedSecurityContext,
      c_Resources := b_Resources (bs ! last_writer (length bs) 4 pre)\<rparr>)"
  unfolding container_copied[OF assms] container_after_last[OF assms] ..

theorem copied_from_last_writers_witness:
  "\<exists>x. copied (snd (run [0, 1, 0, 0, 0, 1, 1, 0, 0, 1] race_start) ! 0) = Some x \<and>
     c_VolumeMounts x = buildDaemonsetVolumeMounts (new_auditlogging ''al'') \<and> c_ImagePullPolicy x = PullIfNotPresent"
proof -
  let ?pre = "[0, 1, 0, 0, 0, 1, 1, 0] :: nat list"
  let ?b = "daemonset_build sample_quantity (new_auditlogging ''al'')"
  let ?bs = "[deployment_build sample_quantity (new_common ''ca'' ''ns''), ?b]"
  have writers: "last_writer (length ?bs) 0 ?pre = 1" "last_writer (length ?bs) 2 ?pre = 1"
    by (simp_all add: last_writer_def turns_def upt_rec)
  have b: "?bs ! 1 = ?b" by simp
  have i: "0 < length ?bs" "count_list ?pre 0 = 5" by simp_all
  have "getPullPolicy (b_PullPolicy ?b) = PullIfNotPresent"
    by (simp add: daemonset_build_def new_auditlogging_def Let_def)
  moreover have "b_Mounts ?b = buildDaemonsetVolumeMounts (new_auditlogging ''al'')"
    by (simp add: daemonset_build_def)
  moreover note copied_from_last_writers[OF i, of "[1]" Map.empty "fluentdMainContainer init_globals", unfolded writers b]
  ultimately show ?thesis by (simp only: append_Cons append_Nil) simp
qed

text \<open>C28: The unsynchronised writes of the two builders are a race. In every schedule of the deployment's build
  (thread 0) and the daemon set's (thread 1), the deployment gets the mounts of the daemon set exactly when
  the daemon set's build assigns its mounts after the deployment's build has assigned its own and before
  that one copies the container; the comparison with the deployment that was meant rejects it then. When
  neither the mounts nor the pull policy nor the resources are overtaken, the deployment is the one that
  was meant.\<close>

theorem builders_race:
  assumes "count_list pre 0 = 5"
  shows "\<exists>x. copied (snd (run (pre @ 0 # post) (start env c [deployment_build q ca, daemonset_build q inst])) ! 0) = Some x \<and>
     (c_VolumeMounts x = buildDaemonsetVolumeMounts inst \<longleftrightarrow> overtaken pre) \<and>
     (overtaken pre \<longrightarrow>
        \<not> EqualContainers q (foldl (\<lambda>c a. assign_to a c) c (assignments env (deployment_build q ca))) x allowModify) \<and>
     (\<not> overtaken pre \<and> last_writer 2 2 pre = 0 \<and> last_writer 2 4 pre = 0 \<longrightarrow>
        x = foldl (\<lambda>c a. assign_to a c) c (assignments env (deployment_build q ca)))"
proof -
  let ?bs = "[deployment_build q ca, daemonset_build q inst]" and ?d = "deployment_build q ca"
  have i: "0 < length ?bs" by simp
  have 0: "0 \<in> set pre" using assms by (cases "0 \<in> set pre") (simp_all add: count_list_0_iff)
  define own where "own = foldl (\<lambda>c a. assign_to a c) c (assignments env ?d)"
  define x where "x = container_after env ?bs c pre"
  have own_eq: "own = c\<lparr>c_VolumeMounts := b_Mounts ?d, c_Image := Getenv env ''FLUENTD_IMAGE'',
      c_ImagePullPolicy := getPullPolicy (b_PullPolicy ?d), c_SecurityContext := Some restrictedSecurityContext,
      c_Resources := b_Resources ?d\<rparr>"
    by (simp add: own_def assignments_def del: getPullPolicy.simps)
  have two: "length ?bs = 2" by simp
  note x_eq = container_after_last[OF i assms, of env c, folded x_def, unfolded two]
  have writer: "?bs ! last_writer 2 0 pre = (if overtaken pre then daemonset_build q inst else ?d)"
    by (simp add: mounts_writer[OF 0])
  have mounts: "c_VolumeMounts x = (if overtaken pre then buildDaemonsetVolumeMounts inst else buildFluentdDeploymentVolumeMounts)"
      "c_VolumeMounts own = buildFluentdDeploymentVolumeMounts"
    unfolding x_eq own_eq writer by (simp_all add: deployment_build_def daemonset_build_def)
  have "c_VolumeMounts x = buildDaemonsetVolumeMounts inst \<longleftrightarrow> overtaken pre"
    using mounts(1) mounts_differ[of inst] mounts_differ[of inst, symmetric] by simp
  moreover have "\<not> EqualContainers q own x allowModify" if "overtaken pre"
    using that mounts mounts_differ by (simp add: EqualContainers_iff)
  moreover have "x = own" if "\<not> overtaken pre \<and> last_writer 2 2 pre = 0 \<and> last_writer 2 4 pre = 0"
  proof -
    have own_last: "?bs ! last_writer 2 0 pre = ?d" "?bs ! last_writer 2 2 pre = ?d" "?bs ! last_writer 2 4 pre = ?d"
      using that writer by simp_all
    show ?thesis unfolding x_eq own_eq own_last ..
  qed
  ultimately show ?thesis using container_copied[OF i assms, of post env c, folded x_def]
    unfolding own_def[symmetric] by (intro exI[of _ x] conjI impI) assumption+
qed

theorem builders_race_witness:
  "\<exists>x. copied (snd (run [0, 0, 0, 0, 0, 1, 0] race_start) ! 0) = Some x \<and>
     \<not> EqualContainers sample_quantity (foldl (\<lambda>c a. assign_to a c) (fluentdMainContainer init_globals)
         (assignments Map.empty (deployment_build sample_quantity (new_common ''ca'' ''ns'')))) x False"
proof -
  have "overtaken [0, 0, 0, 0, 0, 1]" by (simp add: overtaken_def)
  then show ?thesis
    using builders_race[where pre = "[0, 0, 0, 0, 0, 1]" and post = "[]" and q = sample_quantity and env = Map.empty
        and c = "fluentdMainContainer init_globals" and ca = "new_common ''ca'' ''ns''" and allowModify = False
        and inst = "new_auditlogging ''al''"] by auto
qed

end
