(* ===== verification/HostAddresses.thy ===== *)
theory HostAddresses
  imports CommonAuditConverges
begin

text \<open>
  Which host aliases, and how many replicas, of a \<open>CommonAudit\<close> reach the fluentd deployment on the cluster:
  the aliases whose address \<open>net.ParseIP\<close> accepts, in their order; in particular a dotted quad is accepted
  exactly when each of its numbers fits in a byte.
\<close>

lemma dec_values_digit: "d < 10 \<Longrightarrow> map_of dec_values (digit_char d) = Some d"
  by (auto simp: dec_values_def digit_char_def less_Suc_eq numeral_eq_Suc)

text \<open>Reading back a number that is followed by something that is no digit.\<close>

lemma dtoi_loop_utoa:
  "dtoi_loop (utoa n @ rest) 0 i =
     (if n \<ge> 16777215 then None else dtoi_loop rest n (i + length (utoa n)))"
proof (induction n arbitrary: rest rule: utoa.induct)
  case (1 n)
  show ?case
  proof (cases "n < 10")
    case True
    then have "utoa n = [digit_char n]" by (subst utoa.simps) simp
    then show ?thesis using True by (simp add: dec_values_digit Let_def)
  next
    case False
    let ?m = "n div 10" and ?d = "n mod 10"
    have u: "utoa n = utoa ?m @ [digit_char ?d]" using False by (subst utoa.simps) simp
    have d: "map_of dec_values (digit_char ?d) = Some ?d" by (rule dec_values_digit) simp
    have eq: "?m * 10 + ?d = n" by simp
    show ?thesis
    proof (cases "?m \<ge> 16777215")
      case True
      then have "n \<ge> 16777215" by simp
      then show ?thesis using True "1.IH"[OF False, of "digit_char ?d # rest"] by (simp add: u)
    next
      case m: False
      then have "dtoi_loop (utoa n @ rest) 0 i = dtoi_loop (digit_char ?d # rest) ?m (i + length (utoa ?m))"
        using "1.IH"[OF False, of "digit_char ?d # rest"] by (simp add: u)
      also have "\<dots> = (if n \<ge> 16777215 then None else dtoi_loop rest n (i + length (utoa n)))"
        by (simp only: dtoi_loop.simps d option.case Let_def eq) (simp add: u)
      finally show ?thesis .
    qed
  qed
qed

lemma utoa_nonempty: "utoa n \<noteq> []"
  by (subst utoa.simps) simp

lemma dtoi_utoa:
  assumes "rest = [] \<or> hd rest = CHR ''.''"
  shows "dtoi (utoa n @ rest) = (if n \<ge> 16777215 then None else Some (n, length (utoa n)))"
proof -
  have "dtoi_loop rest n j = Some (n, j)" for j
    using assms by (cases rest) (auto simp: dec_values_def)
  then show ?thesis using dtoi_loop_utoa[of n rest 0] utoa_nonempty[of n] by (simp add: dtoi_def)
qed

lemma utoa_first: "length (utoa n) > 1 \<Longrightarrow> hd (utoa n) \<noteq> CHR ''0''"
proof (induction n rule: utoa.induct)
  case (1 n)
  show ?case
  proof (cases "n < 10")
    case True
    then show ?thesis using "1.prems" by (subst (asm) utoa.simps) simp
  next
    case False
    let ?m = "n div 10"
    have u: "utoa n = utoa ?m @ [digit_char (n mod 10)]" using False by (subst utoa.simps) simp
    show ?thesis
    proof (cases "?m < 10")
      case True
      then have "utoa ?m = [digit_char ?m]" by (subst utoa.simps) simp
      moreover have "digit_char k \<noteq> CHR ''0''" if "0 < k" "k < 10" for k
        using that by (auto simp: digit_char_def less_Suc_eq numeral_eq_Suc)
      ultimately show ?thesis using u True False by simp
    next
      case m: False
      then have "utoa ?m = utoa (?m div 10) @ [digit_char (?m mod 10)]" by (subst utoa.simps) simp
      then have "length (utoa ?m) > 1" using utoa_nonempty[of "?m div 10"] by (cases "utoa (?m div 10)") auto
      then show ?thesis using "1.IH"[OF False] u utoa_nonempty[of ?m] by (simp add: hd_append)
    qed
  qed
qed

definition quad :: "nat \<Rightarrow> nat \<Rightarrow> nat \<Rightarrow> nat \<Rightarrow> string" where
  "quad a b c d = utoa a @ ''.'' @ utoa b @ ''.'' @ utoa c @ ''.'' @ utoa d"

lemma ipv4_number:
  assumes "rest = [] \<or> hd rest = CHR ''.''"
  shows "ipv4_loop (Suc k) True (utoa n @ rest) \<longleftrightarrow> n \<le> 255 \<and> ipv4_loop k False rest"
    and "ipv4_loop (Suc k) False (CHR ''.'' # utoa n @ rest) \<longleftrightarrow> n \<le> 255 \<and> ipv4_loop k False rest"
  using dtoi_utoa[OF assms, of n] utoa_first[of n] utoa_nonempty[of n]
  by (auto simp: hd_append)

lemma ParseIP_quad: "ParseIP (quad a b c d) \<longleftrightarrow> a \<le> 255 \<and> b \<le> 255 \<and> c \<le> 255 \<and> d \<le> 255"
proof -
  have "CHR ''.'' \<notin> set (utoa a)" "CHR '':'' \<notin> set (utoa a)"
    using set_utoa[of a] by (auto simp: digits_def)
  then have "dropWhile (\<lambda>x. x \<noteq> CHR ''.'' \<and> x \<noteq> CHR '':'') (utoa a @ CHR ''.'' # s) = CHR ''.'' # s" for s
    by (subst dropWhile_append2) auto
  then have "ParseIP (quad a b c d) = parseIPv4 (quad a b c d)"
    by (simp add: ParseIP_def quad_def)
  also have "\<dots> = ipv4_loop (Suc (Suc (Suc (Suc 0)))) True (quad a b c d)"
    by (simp add: parseIPv4_def eval_nat_numeral)
  also have "\<dots> \<longleftrightarrow> a \<le> 255 \<and> b \<le> 255 \<and> c \<le> 255 \<and> d \<le> 255"
    using ipv4_number(1)[of "CHR ''.'' # utoa b @ CHR ''.'' # utoa c @ CHR ''.'' # utoa d" _ a]
      ipv4_number(2)[of "CHR ''.'' # utoa c @ CHR ''.'' # utoa d" _ b]
      ipv4_number(2)[of "CHR ''.'' # utoa d" _ c] ipv4_number(2)[of "[]" "0" d]
    by (simp add: quad_def del: ipv4_loop.simps(2))
  finally show ?thesis .
qed

subsection \<open>What a comparison that succeeds says\<close>

definition alias_of :: "CommonAuditSpecHostAliases \<Rightarrow> host_alias" where
  "alias_of h = \<lparr>ha_IP = HostIP h, ha_Hostnames = Hostnames h\<rparr>"

definition deployment_aliases :: "deployment \<Rightarrow> host_alias list" where
  "deployment_aliases d = elems (ps_HostAliases (pt_Spec (ds_Template (d_Spec d))))"

lemma built_aliases:
  "BuildDeploymentForFluentd env q ca g = Some (d, g') \<Longrightarrow> deployment_aliases d =
     map alias_of (filter (\<lambda>h. ParseIP (HostIP h)) (elems (HostAliases (ca_Outputs (ca_Spec ca)))))"
  by (simp add: deployment_aliases_def fluentd_deployment_aliases build_host_aliases_def valid_host_aliases_eq
      alias_of_def[abs_def])

lemma built_replicas:
  "BuildDeploymentForFluentd env q ca g = Some (d, g') \<Longrightarrow> ds_Replicas (d_Spec d) =
     Some (if sint (ca_Replicas (ca_Spec ca)) > 0 then ca_Replicas (ca_Spec ca) else defaultReplicas)"
  by (auto simp: BuildDeploymentForFluentd_def Let_def split: option.splits)

lemma accepted_follows:
  assumes "EqualDeployments (r_quantity r) (expected_fluentd r inst) x False = Some True"
  shows "deployment_aliases x =
      map alias_of (filter (\<lambda>h. ParseIP (HostIP h)) (elems (HostAliases (ca_Outputs (ca_Spec inst)))))"
    and "ds_Replicas (d_Spec x) =
      Some (if sint (ca_Replicas (ca_Spec inst)) > 0 then ca_Replicas (ca_Spec inst) else defaultReplicas)"
proof -
  have "fluentd_fixed init_globals" using built_fixed[OF built.init] by blast
  then obtain g' where built:
      "BuildDeploymentForFluentd (r_env r) (r_quantity r) inst init_globals = Some (expected_fluentd r inst, g')"
    by (rule expected_fluentd_built)
  show "deployment_aliases x =
      map alias_of (filter (\<lambda>h. ParseIP (HostIP h)) (elems (HostAliases (ca_Outputs (ca_Spec inst)))))"
    using assms built_aliases[OF built] EqualDeployments_eq[OF fluentd_has_container(1)[OF built]]
    by (simp add: pods_agree_def deployment_aliases_def)
  show "ds_Replicas (d_Spec x) =
      Some (if sint (ca_Replicas (ca_Spec inst)) > 0 then ca_Replicas (ca_Spec inst) else defaultReplicas)"
    using assms built_replicas[OF built] EqualDeployments_eq[OF fluentd_has_container(1)[OF built]] by simp
qed

lemma alias_of_eq: "alias_of h = alias_of k \<longleftrightarrow> HostIP h = HostIP k \<and> Hostnames h = Hostnames k"
  by (simp add: alias_of_def)

subsection \<open>Properties\<close>

text \<open>C40: The host aliases and the replicas of the resource reach the cluster. After at most 53 rounds, from any
  state of the operands, the fluentd deployment that is stored has as its host aliases exactly those of
  the resource whose address parses, in their order and with their names, and the replicas of the
  resource when they are positive, one otherwise. An alias whose address is written as four numbers
  with dots, however large, is there exactly when none of the numbers is above 255.\<close>

theorem deployment_follows_resource:
  assumes "lawful view ad r" "serves_common view (r_cr r)"
    and "values_ok inst" "usable_aliases inst" "ca_admitted r inst req (view w)"
    and "steps_wf view (ca_gauges r inst) w" "built g"
  shows "\<exists>w' g' d. rounds 53 (ca_Reconcile r req) (w, g) = Some (Done, (w', g')) \<and>
    objects (view w') (KDeployment, NamespacedName (ca_Namespace inst) FluentdDeploymentName) = Some (ODeployment d) \<and>
    deployment_aliases d =
      map alias_of (filter (\<lambda>h. ParseIP (HostIP h)) (elems (HostAliases (ca_Outputs (ca_Spec inst))))) \<and>
    ds_Replicas (d_Spec d) =
      Some (if sint (ca_Replicas (ca_Spec inst)) > 0 then ca_Replicas (ca_Spec inst) else defaultReplicas) \<and>
    (\<forall>h i j k l. h \<in> set (elems (HostAliases (ca_Outputs (ca_Spec inst)))) \<and> HostIP h = quad i j k l \<longrightarrow>
       (alias_of h \<in> set (deployment_aliases d) \<longleftrightarrow> i \<le> 255 \<and> j \<le> 255 \<and> k \<le> 255 \<and> l \<le> 255))"
proof -
  have "ca_inv view ad r inst req (view w) (w, g)"
    using assms by (simp add: ca_inv_def others_kept_def)
  from ca_reaches[OF this assms(2)] obtain w' g' d where
    rounds: "rounds 53 (ca_Reconcile r req) (w, g) = Some (Done, (w', g'))" and
    d: "objects (view w') (KDeployment, NamespacedName (ca_Namespace inst) FluentdDeploymentName) = Some (ODeployment d)"
      "EqualDeployments (r_quantity r) (expected_fluentd r inst) d False = Some True"
    by (fastforce simp: common_in_place_def Let_def)
  note follows = accepted_follows[OF d(2)]
  have "alias_of h \<in> set (deployment_aliases d) \<longleftrightarrow> i \<le> 255 \<and> j \<le> 255 \<and> k \<le> 255 \<and> l \<le> 255"
    if "h \<in> set (elems (HostAliases (ca_Outputs (ca_Spec inst)))) \<and> HostIP h = quad i j k l" for h i j k l
    using that ParseIP_quad[of i j k l] by (auto simp: follows(1) alias_of_eq)
  with rounds d(1) follows show ?thesis by blast
qed

text \<open>A resource with two aliases, of which one has a number that is too large, and no replicas.\<close>

definition sample_hosts :: CommonAudit where
  "sample_hosts = sample_common\<lparr>ca_Spec := (ca_Spec sample_common)\<lparr>ca_Outputs :=
     (ca_Outputs (ca_Spec sample_common))\<lparr>HostAliases := Some
       [\<lparr>HostIP = quad 10 0 0 256, Hostnames = Some [''a'']\<rparr>, \<lparr>HostIP = quad 10 0 0 7, Hostnames = Some [''b'']\<rparr>]\<rparr>\<rparr>\<rparr>"

theorem deployment_follows_resource_witness:
  "\<exists>w' g' d. rounds 53 (ca_Reconcile (memory_reconciler ''cs'') (NamespacedName ''ns'' ''ca''))
       (sample_cluster\<lparr>commons := [sample_hosts]\<rparr>, init_globals) = Some (Done, (w', g')) \<and>
     objects (stored w') (KDeployment, NamespacedName ''ns'' FluentdDeploymentName) = Some (ODeployment d) \<and>
     deployment_aliases d = [\<lparr>ha_IP = ''10.0.0.7'', ha_Hostnames = Some [''b'']\<rparr>] \<and> ds_Replicas (d_Spec d) = Some 1"
proof -
  let ?r = "memory_reconciler ''cs''" and ?c = "sample_cluster\<lparr>commons := [sample_hosts]\<rparr>"
  have ok: "values_ok sample_hosts"
    using sample_usable(1) by (simp add: sample_hosts_def values_ok_def)
  have aliases: "usable_aliases sample_hosts"
    by (simp add: sample_hosts_def usable_aliases_def build_host_aliases_def ParseIP_quad)
  have admitted: "ca_admitted ?r sample_hosts (NamespacedName ''ns'' ''ca'') (stored ?c)"
    by (simp add: ca_admitted_def stored_def sample_hosts_def sample_cluster_def sample_common_def new_common_def
        Let_def meta_key_def same_common_def memory_reconciler_def GetCSNamespace_def zero_meta_def)
  have wf: "steps_wf stored (ca_gauges ?r sample_hosts) ?c"
    by (auto simp: steps_wf_def stored_def sample_cluster_def ca_gauges_def ca_parts_def config_gauge_def
        issuer_gauge_def cert_gauge_def secret_gauge_def account_gauge_def service_gauge_def fluentd_gauge_def
        value_wf_def split: option.splits)
  have "map alias_of (filter (\<lambda>h. ParseIP (HostIP h)) (elems (HostAliases (ca_Outputs (ca_Spec sample_hosts))))) =
      [\<lparr>ha_IP = ''10.0.0.7'', ha_Hostnames = Some [''b'']\<rparr>]"
    using ParseIP_quad[of 10 0 0 256] ParseIP_quad[of 10 0 0 7]
    by (simp add: sample_hosts_def alias_of_def quad_def utoa.simps digit_char_def)
  moreover have "ca_Namespace sample_hosts = ''ns''" "ca_Replicas (ca_Spec sample_hosts) = 0"
    by (simp_all add: sample_hosts_def sample_common_def new_common_def zero_common_spec_def Let_def zero_meta_def)
  moreover note deployment_follows_resource[OF memory_lawful memory_serves(1) ok aliases admitted wf built.init]
  ultimately show ?thesis by (simp only: defaultReplicas_def sint_0 less_irrefl if_False) blast
qed

end
