(* ===== verification/Comparisons.thy ===== *)
theory Comparisons
  imports WorkloadProps "HOL-Library.Multiset"
begin

text \<open>
  Reference definitions: exactly what the comparisons of workloads read, the number of replicas, the
  nodes that the status reports, and the utilities of util.go.
\<close>

subsection \<open>Comparisons\<close>

text \<open>The resources of two containers agree when the four amounts do, whatever else is in the lists.\<close>

definition amounts_agree :: "quantity_pkg \<Rightarrow> resource_requirements \<Rightarrow> resource_requirements \<Rightarrow> bool" where
  "amounts_agree q a b \<longleftrightarrow>
     q_Equal q (q_Cpu q (rr_Limits a)) (q_Cpu q (rr_Limits b)) \<and>
     q_Equal q (q_Memory q (rr_Limits a)) (q_Memory q (rr_Limits b)) \<and>
     q_Equal q (q_Cpu q (rr_Requests a)) (q_Cpu q (rr_Requests b)) \<and>
     q_Equal q (q_Memory q (rr_Requests a)) (q_Memory q (rr_Requests b))"

text \<open>The fields that are compared: of the pods, and of their first containers.\<close>

definition pods_view ::
    "pod_template \<Rightarrow> bool \<Rightarrow> labels \<times> string \<times> host_alias slice option \<times> nat" where
  "pods_view t allowModify =
     (m_Annotations (pt_Meta t), ps_ServiceAccountName (pt_Spec t),
      if allowModify then None else Some (ps_HostAliases (pt_Spec t)), length (elems (ps_Containers (pt_Spec t))))"

definition container_view ::
    "container \<Rightarrow> string \<times> string \<times> string \<times> volume_mount slice \<times> security_context option \<times>
      container_port slice \<times> string slice \<times> env_var slice" where
  "container_view c = (c_Name c, c_Image c, c_ImagePullPolicy c, c_VolumeMounts c, c_SecurityContext c,
     c_Ports c, c_Args c, c_Env c)"

lemma pods_agree_views:
  "pods_agree q e f m \<longleftrightarrow> pods_view e m = pods_view f m \<and>
     (let ce = hd (elems (ps_Containers (pt_Spec e))); cf = hd (elems (ps_Containers (pt_Spec f)))
      in container_view ce = container_view cf \<and> amounts_agree q (c_Resources cf) (c_Resources ce))"
  by (auto simp: pods_agree_def pods_view_def container_view_def EqualContainers_iff equalResources_def
      amounts_agree_def Let_def)

subsection \<open>Properties\<close>

text \<open>C22: What the comparison of workloads reads. For an expected workload with a container, the comparison of
  deployments holds exactly when the replicas, the annotations and the service account of the pods, the
  number of containers and, in the first one, name, image, pull policy, mounts, security context, ports,
  arguments, environment and the amounts of CPU and memory agree, and, unless changes are allowed, the
  host aliases; the comparison of daemon sets reads the same of the pods, without host aliases. Nothing
  else (labels, volumes, affinity, tolerations, probes, further containers) is noticed.\<close>

theorem workload_comparisons:
  assumes "has_container (ds_Template (d_Spec e))" "has_container (dss_Template (dset_Spec e'))"
  shows "EqualDeployments q e f m = Some (ds_Replicas (d_Spec e) = ds_Replicas (d_Spec f) \<and>
      (let t = ds_Template (d_Spec e); u = ds_Template (d_Spec f);
           ct = hd (elems (ps_Containers (pt_Spec t))); cu = hd (elems (ps_Containers (pt_Spec u)))
       in pods_view t m = pods_view u m \<and> container_view ct = container_view cu \<and>
          amounts_agree q (c_Resources cu) (c_Resources ct))) \<and>
    EqualDaemonSets q e' f' = Some
      (let t = dss_Template (dset_Spec e'); u = dss_Template (dset_Spec f');
           ct = hd (elems (ps_Containers (pt_Spec t))); cu = hd (elems (ps_Containers (pt_Spec u)))
       in pods_view t True = pods_view u True \<and> container_view ct = container_view cu \<and>
          amounts_agree q (c_Resources cu) (c_Resources ct))"
  using EqualPods_eq[of "dss_Template (dset_Spec e')"] assms
  by (simp add: EqualDeployments_eq EqualDaemonSets_def has_container_def pods_agree_views Let_def)

theorem workload_comparisons_witness:
  "\<exists>d ds. EqualDeployments sample_quantity d
      (d\<lparr>d_Spec := (d_Spec d)\<lparr>ds_MatchLabels := None, ds_Template := (ds_Template (d_Spec d))
        \<lparr>pt_Spec := (pt_Spec (ds_Template (d_Spec d)))\<lparr>ps_Volumes := None\<rparr>\<rparr>\<rparr>\<rparr>) False = Some True \<and>
    EqualDaemonSets sample_quantity ds ds = Some True"
proof -
  obtain d g' ds g'' where d: "BuildDeploymentForFluentd Map.empty sample_quantity (new_common ''ca'' ''ns'') init_globals = Some (d, g')"
      "BuildDaemonForFluentd Map.empty sample_quantity (new_auditlogging ''al'') ''ns'' init_globals = Some (ds, g'')"
    using fluentd_builders_total by metis
  have "amounts_agree sample_quantity r r" for r
    by (simp add: amounts_agree_def sample_quantity_def)
  then show ?thesis
    using workload_comparisons[OF fluentd_has_container(1)[OF d(1)] fluentd_has_container(2)[OF d(2)], of sample_quantity]
    by (intro exI[of _ d] exI[of _ ds]) (simp add: pods_view_def Let_def)
qed

text \<open>The fluentd deployment runs at least one replica, and as many as the resource asks for when that is
  a positive number; zero and every negative 32-bit value mean one. The policy controller runs one.\<close>

theorem replicas_bounds:
  "\<exists>d g' n. BuildDeploymentForFluentd env q ca g = Some (d, g') \<and> ds_Replicas (d_Spec d) = Some n \<and>
     1 \<le> sint n \<and> sint n = max 1 (sint (ca_Replicas (ca_Spec ca))) \<and>
     ds_Replicas (d_Spec (fst (BuildDeploymentForPolicyController env inst ns g))) = Some 1"
proof -
  obtain d g' where d: "BuildDeploymentForFluentd env q ca g = Some (d, g')"
    using fluentd_builders_total(1) by blast
  then show ?thesis
    by (auto simp: BuildDeploymentForFluentd_def BuildDeploymentForPolicyController_def Let_def replicas_def
        defaultReplicas_def split: option.splits if_splits)
qed

text \<open>The status names every pod once, in the order of the alphabet, and \<open>none\<close> when there is no pod.\<close>

theorem status_nodes_sorted:
  "\<exists>ns. status_nodes pods = Some ns \<and> sorted ns \<and>
     mset ns = (if pods = [] then {#''none''#} else mset (map (m_Name \<circ> pod_Meta) pods))"
  by (auto simp: status_nodes_def GetPodNames_eq Let_def DefaultStatusForCR_def sort_strings_def)

text \<open>The utilities agree with their reference definitions: membership; removal of every occurrence of a
  string, keeping the order; the copy of the labels, which is never nil and lacks exactly the label that
  cert-manager writes; the names of the pods.\<close>

theorem util_references:
  "ContainsString xs s = (s \<in> set xs) \<and>
   elems (RemoveString xs s) = filter (\<lambda>x. x \<noteq> s) xs \<and>
   \<not> ContainsString (elems (RemoveString xs s)) s \<and>
   (\<exists>m. CopyLables labels = Some m \<and>
      fmlookup m k = (if k = ''certmanager.k8s.io/time-restarted'' then None
                      else case labels of None \<Rightarrow> None | Some l \<Rightarrow> fmlookup l k)) \<and>
   elems (GetPodNames pods) = map (m_Name \<circ> pod_Meta) pods"
proof -
  obtain m where "CopyLables labels = Some m" by (simp add: CopyLables_def Let_def)
  then show ?thesis using CopyLables_lookup[of labels m k]
    by (simp add: elems_RemoveString GetPodNames_eq)
qed

end
