(* ===== verification/Faults.thy ===== *)
theory Faults
  imports LawfulServer
begin

text \<open>
  An API server whose requests can fail. \<open>flaky\<close> puts a schedule of faults in front of the client of a
  reconciler: the \<open>n\<close>-th request works, fails before it reaches the server, or is carried out although its
  answer is lost. A method of the operator \<open>tolerates\<close> faults when with them it either does what it does
  without or reports an error; a method that is measured without faults then makes progress, is settled, or
  spends one of them.
\<close>

subsection \<open>Schedules of faults\<close>

text \<open>Once the schedule is used up, every request works. The texts are those of the errors returned.\<close>

datatype fault = Works | Fails string | Lost string

type_synonym 'w faulty = "'w \<times> fault list"

text \<open>One request; \<open>err\<close> makes its answer out of an error.\<close>

fun faulty :: "(api_error \<Rightarrow> 'r) \<Rightarrow> ('w \<Rightarrow> 'r \<times> 'w) \<Rightarrow> 'w faulty \<Rightarrow> 'r \<times> 'w faulty" where
  "faulty err f (w, Fails msg # fs) = (err (OtherError msg), (w, fs))"
| "faulty err f (w, Lost msg # fs) = (err (OtherError msg), (snd (f w), fs))"
| "faulty err f (w, Works # fs) = (case f w of (res, w') \<Rightarrow> (res, (w', fs)))"
| "faulty err f (w, []) = (case f w of (res, w') \<Rightarrow> (res, (w', [])))"

definition flaky_ops :: "('w, 'o) ops \<Rightarrow> ('w faulty, 'o) ops" where
  "flaky_ops ops =
     \<lparr>op_get = (\<lambda>k. faulty Inl (op_get ops k)), op_create = (\<lambda>x. faulty Some (op_create ops x)),
      op_update = (\<lambda>x. faulty Some (op_update ops x)), op_delete = (\<lambda>x. faulty Some (op_delete ops x))\<rparr>"

definition flaky_client :: "'w client \<Rightarrow> 'w faulty client" where
  "flaky_client c =
     \<lparr>cl_configmaps = flaky_ops (cl_configmaps c), cl_secrets = flaky_ops (cl_secrets c),
      cl_services = flaky_ops (cl_services c), cl_accounts = flaky_ops (cl_accounts c),
      cl_deployments = flaky_ops (cl_deployments c), cl_daemonsets = flaky_ops (cl_daemonsets c),
      cl_jobs = flaky_ops (cl_jobs c), cl_issuers = flaky_ops (cl_issuers c), cl_certs = flaky_ops (cl_certs c),
      cl_list_pods = (\<lambda>ns sel. faulty Inl (cl_list_pods c ns sel)),
      cl_delete_pod = (\<lambda>p. faulty Some (cl_delete_pod c p))\<rparr>"

definition flaky_cr :: "'w cr_client \<Rightarrow> 'w faulty cr_client" where
  "flaky_cr c =
     \<lparr>cr_get_common = (\<lambda>k. faulty Inl (cr_get_common c k)),
      cr_status_common = (\<lambda>x. faulty Inl (cr_status_common c x)),
      cr_list_common = (\<lambda>ns. faulty Inl (cr_list_common c ns)),
      cr_get_audit = (\<lambda>k. faulty Inl (cr_get_audit c k)),
      cr_update_audit = (\<lambda>x. faulty Some (cr_update_audit c x)),
      cr_status_audit = (\<lambda>x. faulty Inl (cr_status_audit c x)),
      cr_list_audit = faulty Inl (cr_list_audit c),
      cr_event = (\<lambda>e (w, fs). (cr_event c e w, fs))\<rparr>"

definition flaky :: "'w reconciler \<Rightarrow> 'w faulty reconciler" where
  "flaky r =
     \<lparr>r_client = flaky_client (r_client r), r_cr = flaky_cr (r_cr r), r_set_owner = r_set_owner r,
      r_env = r_env r, r_yaml = r_yaml r, r_quantity = r_quantity r\<rparr>"

lemma flaky_simps [simp]:
  "r_client (flaky r) = flaky_client (r_client r)" "r_cr (flaky r) = flaky_cr (r_cr r)"
  "r_set_owner (flaky r) = r_set_owner r" "r_env (flaky r) = r_env r" "r_yaml (flaky r) = r_yaml r"
  "r_quantity (flaky r) = r_quantity r"
  by (simp_all add: flaky_def)

lemma flaky_client_simps [simp]:
  "cl_configmaps (flaky_client c) = flaky_ops (cl_configmaps c)" "cl_secrets (flaky_client c) = flaky_ops (cl_secrets c)"
  "cl_services (flaky_client c) = flaky_ops (cl_services c)" "cl_accounts (flaky_client c) = flaky_ops (cl_accounts c)"
  "cl_deployments (flaky_client c) = flaky_ops (cl_deployments c)"
  "cl_daemonsets (flaky_client c) = flaky_ops (cl_daemonsets c)" "cl_jobs (flaky_client c) = flaky_ops (cl_jobs c)"
  "cl_issuers (flaky_client c) = flaky_ops (cl_issuers c)" "cl_certs (flaky_client c) = flaky_ops (cl_certs c)"
  "cl_list_pods (flaky_client c) ns sel = faulty Inl (cl_list_pods c ns sel)"
  "cl_delete_pod (flaky_client c) p = faulty Some (cl_delete_pod c p)"
  by (simp_all add: flaky_client_def)

lemma flaky_cr_simps [simp]:
  "cr_get_common (flaky_cr c) k = faulty Inl (cr_get_common c k)"
  "cr_status_common (flaky_cr c) x = faulty Inl (cr_status_common c x)"
  "cr_list_common (flaky_cr c) ns = faulty Inl (cr_list_common c ns)"
  "cr_get_audit (flaky_cr c) k = faulty Inl (cr_get_audit c k)"
  "cr_status_audit (flaky_cr c) y = faulty Inl (cr_status_audit c y)"
  "cr_list_audit (flaky_cr c) = faulty Inl (cr_list_audit c)"
  "cr_event (flaky_cr c) e (w, fs) = (cr_event c e w, fs)"
  by (simp_all add: flaky_cr_def)

lemma flaky_ops_simps [simp]:
  "op_get (flaky_ops ops) k = faulty Inl (op_get ops k)" "op_create (flaky_ops ops) x = faulty Some (op_create ops x)"
  "op_update (flaky_ops ops) x = faulty Some (op_update ops x)"
  "op_delete (flaky_ops ops) x = faulty Some (op_delete ops x)"
  by (simp_all add: flaky_ops_def)

lemma flaky_owned [simp]: "owned (flaky r) owner m mk = owned r owner m mk"
  by (simp add: owned_def)

text \<open>A request works, or it spends a fault and reports an error.\<close>

lemma faulty_cases:
  obtains (works) fs' where "faulty err f (w, fs) = (fst (f w), (snd (f w), fs'))" "length fs' \<le> length fs"
  | (fails) msg w' fs' where "faulty err f (w, fs) = (err (OtherError msg), (w', fs'))" "length fs' < length fs"
      "w' = w \<or> w' = snd (f w)"
proof (cases fs)
  case Nil
  then show ?thesis using works[of "[]"] by (simp add: split_def)
next
  case (Cons x gs)
  show ?thesis
    by (cases x) (use Cons works[of gs] fails[of _ _ gs] in \<open>auto simp: split_def\<close>)
qed

subsection \<open>Tolerance\<close>

text \<open>The result with faults, \<open>res'\<close>, against that without, from the world \<open>w\<close> with the schedule \<open>fs\<close>.\<close>

definition tolerated ::
    "('w \<Rightarrow> cluster) \<Rightarrow> 'w \<Rightarrow> fault list \<Rightarrow> outcome \<times> 'w \<Rightarrow> outcome \<times> 'w faulty \<Rightarrow> bool" where
  "tolerated view w fs res res' \<longleftrightarrow>
     fst res' = fst res \<and> view (fst (snd res')) = view (snd res) \<and> length (snd (snd res')) \<le> length fs \<or>
     (\<exists>err. fst res' = Failed err) \<and> view (fst (snd res')) \<in> {view w, view (snd res)} \<and>
       length (snd (snd res')) < length fs"

definition tolerates :: "('w \<Rightarrow> cluster) \<Rightarrow> ('w \<Rightarrow> outcome \<times> 'w) \<Rightarrow> ('w faulty \<Rightarrow> outcome \<times> 'w faulty) \<Rightarrow> bool" where
  "tolerates view f f' \<longleftrightarrow> (\<forall>w fs. tolerated view w fs (f w) (f' (w, fs)))"

lemma tolerated_worksI:
  "res' = (out, (w', fs')) \<Longrightarrow> fst res = out \<Longrightarrow> view (snd res) = view w' \<Longrightarrow> length fs' \<le> length fs \<Longrightarrow>
   tolerated view w fs res res'"
  by (simp add: tolerated_def)

lemma tolerated_failsI:
  "res' = (Failed err, (w', fs')) \<Longrightarrow> view w' = view w \<or> view w' = view (snd res) \<Longrightarrow> length fs' < length fs \<Longrightarrow>
   tolerated view w fs res res'"
  by (auto simp: tolerated_def)

text \<open>After a request that worked and left the view alone.\<close>

lemma tolerated_later:
  "tolerated view w1 fs1 res res' \<Longrightarrow> view w1 = view w \<Longrightarrow> length fs1 \<le> length fs \<Longrightarrow> tolerated view w fs res res'"
  by (auto simp: tolerated_def)

lemma tolerates_same: "(\<And>w fs. f' (w, fs) = (out, (w, fs))) \<Longrightarrow> (\<And>w. f w = (out, w)) \<Longrightarrow> tolerates view f f'"
  by (simp add: tolerates_def tolerated_def)

lemma tolerates_change: "tolerates view (change req x) (change (\<lambda>x. faulty Some (req x)) x)"
  unfolding tolerates_def
proof (intro allI)
  fix w fs
  show "tolerated view w fs (change req x w) (change (\<lambda>x. faulty Some (req x)) x (w, fs))"
  proof (cases rule: faulty_cases[of Some "req x" w fs])
    case (works fs')
    then show ?thesis
      by (intro tolerated_worksI[where w' = "snd (req x w)" and fs' = fs'])
        (auto simp: change_def split: prod.splits option.splits)
  next
    case (fails msg w' fs')
    have "w' = w \<or> w' = snd (change req x w)"
      using fails(3) by (auto simp: change_def split: prod.splits option.splits)
    then show ?thesis
      by (intro tolerated_failsI[where err = "OtherError msg" and w' = w' and fs' = fs'])
        (use fails in \<open>auto simp: change_def\<close>)
  qed
qed

lemma tolerates_change_ops:
  "tolerates view (change (op_update ops) x) (change (op_update (flaky_ops ops)) x)"
  "tolerates view (change (op_delete ops) x) (change (op_delete (flaky_ops ops)) x)"
proof -
  have eq: "op_update (flaky_ops ops) = (\<lambda>x. faulty Some (op_update ops x))"
      "op_delete (flaky_ops ops) = (\<lambda>x. faulty Some (op_delete ops x))"
    by (rule ext, simp)+
  show "tolerates view (change (op_update ops) x) (change (op_update (flaky_ops ops)) x)"
    "tolerates view (change (op_delete ops) x) (change (op_delete (flaky_ops ops)) x)"
    unfolding eq by (rule tolerates_change)+
qed

lemma tolerates_create: "tolerates view (create_owned ops obj) (create_owned (flaky_ops ops) obj)"
  unfolding tolerates_def
proof (intro allI)
  fix w fs
  show "tolerated view w fs (create_owned ops obj w) (create_owned (flaky_ops ops) obj (w, fs))"
  proof (cases obj)
    case (Inl err)
    then show ?thesis by (simp add: create_owned_def tolerated_def)
  next
    case (Inr e)
    show ?thesis
    proof (cases rule: faulty_cases[of Some "op_create ops e" w fs])
      case (works fs')
      then show ?thesis
        by (intro tolerated_worksI[where w' = "snd (op_create ops e w)" and fs' = fs'])
          (auto simp: create_owned_def Inr split: prod.splits option.splits)
    next
      case (fails msg w' fs')
      have "w' = w \<or> w' = snd (create_owned ops obj w)"
        using fails(3) by (auto simp: create_owned_def Inr split: prod.splits option.splits)
      then show ?thesis
        by (intro tolerated_failsI[where err = "OtherError msg" and w' = w' and fs' = fs'])
          (use fails in \<open>auto simp: create_owned_def Inr\<close>)
    qed
  qed
qed

lemma tolerates_get_or_create:
  assumes read: "\<And>w. view (snd (op_get ops key w)) = view w"
    and check: "\<And>x. tolerates view (check x) (check' x)"
  shows "tolerates view (get_or_create ops key obj check) (get_or_create (flaky_ops ops) key obj check')"
  unfolding tolerates_def
proof (intro allI)
  fix w fs
  show "tolerated view w fs (get_or_create ops key obj check w) (get_or_create (flaky_ops ops) key obj check' (w, fs))"
  proof (cases rule: faulty_cases[of Inl "op_get ops key" w fs])
    case (works fs')
    obtain res w1 where get: "op_get ops key w = (res, w1)" by (cases "op_get ops key w")
    have w1: "view w1 = view w" using read[of w] get by simp
    have later: "tolerated view w1 fs' (f w1) (f' (w1, fs')) \<Longrightarrow> tolerated view w fs (f w1) (f' (w1, fs'))" for f f'
      by (rule tolerated_later[where ?w1.0 = w1 and ?fs1.0 = fs']) (use w1 works(2) in simp_all)
    show ?thesis
    proof (cases res)
      case (Inl err)
      have quiet: "tolerated view w fs (Failed err, w1) (Failed err, (w1, fs'))"
        using works(2) by (simp add: tolerated_def)
      have "tolerated view w fs (create_owned ops obj w1) (create_owned (flaky_ops ops) obj (w1, fs'))"
        by (rule later) (use tolerates_create[of view ops obj] in \<open>simp add: tolerates_def\<close>)
      with quiet show ?thesis using Inl get works(1) by (simp add: get_or_create_def)
    next
      case (Inr x)
      have "tolerated view w fs (check x w1) (check' x (w1, fs'))"
        by (rule later) (use check[of x] in \<open>simp add: tolerates_def\<close>)
      then show ?thesis using Inr get works(1) by (simp add: get_or_create_def)
    qed
  next
    case (fails msg w' fs')
    have "view w' = view w" using fails(3) read[of w] by auto
    then show ?thesis
      by (intro tolerated_failsI[where err = "OtherError msg" and w' = w' and fs' = fs'])
        (use fails in \<open>simp_all add: get_or_create_def\<close>)
  qed
qed

lemma tolerates_update_when:
  "tolerates view (\<lambda>w. if b then change (op_update ops) x w else (Done, w))
     (\<lambda>w. if b then change (op_update (flaky_ops ops)) x w else (Done, w))"
  "tolerates view (\<lambda>w. if b then change (op_delete ops) x w else (Done, w))
     (\<lambda>w. if b then change (op_delete (flaky_ops ops)) x w else (Done, w))"
  using tolerates_change_ops[of view ops x] tolerates_same[of "Pair Done" Done "Pair Done" view]
  by (cases b; simp)+

lemma tolerates_settle_deployment:
  "tolerates view (settle_deployment r e m x) (settle_deployment (flaky r) e m x)"
proof (cases "EqualDeployments (r_quantity r) e x m")
  case None
  then show ?thesis by (intro tolerates_same[of _ Panicked]) (simp_all add: settle_deployment_def)
next
  case (Some equal)
  have eq: "settle_deployment r e m x = (\<lambda>w. if \<not> equal
      then change (op_update (cl_deployments (r_client r))) (with_deployment_spec e x) w else (Done, w))"
    by (rule ext) (simp add: settle_deployment_def Some)
  have eq': "settle_deployment (flaky r) e m x = (\<lambda>w. if \<not> equal
      then change (op_update (flaky_ops (cl_deployments (r_client r)))) (with_deployment_spec e x) w else (Done, w))"
    by (rule ext) (simp add: settle_deployment_def Some)
  show ?thesis unfolding eq eq' by (rule tolerates_update_when)
qed

lemma tolerates_settle_daemonset:
  "tolerates view (settle_daemonset r e x) (settle_daemonset (flaky r) e x)"
proof (cases "EqualDaemonSets (r_quantity r) e x")
  case None
  then show ?thesis by (intro tolerates_same[of _ Panicked]) (simp_all add: settle_daemonset_def)
next
  case (Some equal)
  have eq: "settle_daemonset r e x = (\<lambda>w. if \<not> equal
      then change (op_update (cl_daemonsets (r_client r))) (with_daemonset_spec e x) w else (Done, w))"
    by (rule ext) (simp add: settle_daemonset_def Some)
  have eq': "settle_daemonset (flaky r) e x = (\<lambda>w. if \<not> equal
      then change (op_update (flaky_ops (cl_daemonsets (r_client r)))) (with_daemonset_spec e x) w else (Done, w))"
    by (rule ext) (simp add: settle_daemonset_def Some)
  show ?thesis unfolding eq eq' by (rule tolerates_update_when)
qed

subsection \<open>Pods\<close>

text \<open>Restarting the pods leaves the objects alone, whichever requests fail.\<close>

definition spares :: "('w \<Rightarrow> cluster) \<Rightarrow> ('w faulty \<Rightarrow> 'r \<times> 'w faulty) \<Rightarrow> bool" where
  "spares view f \<longleftrightarrow> (\<forall>w fs. view (fst (snd (f (w, fs)))) = view w \<and> length (snd (snd (f (w, fs)))) \<le> length fs)"

lemma spares_faulty: "(\<And>w. view (snd (f w)) = view w) \<Longrightarrow> spares view (faulty err f)"
  unfolding spares_def
proof (intro allI)
  fix w fs
  assume same: "\<And>w. view (snd (f w)) = view w"
  show "view (fst (snd (faulty err f (w, fs)))) = view w \<and> length (snd (snd (faulty err f (w, fs)))) \<le> length fs"
    by (cases rule: faulty_cases[of err f w fs]) (use same in auto)
qed

lemma sparesD:
  "spares view f \<Longrightarrow> f (w, fs) = (res, (w', fs')) \<Longrightarrow> view w' = view w \<and> length fs' \<le> length fs"
  unfolding spares_def by (metis fst_conv snd_conv)

lemma lawful_pods:
  assumes "lawful view ad r"
  shows "view (snd (cl_list_pods (r_client r) ns sel w)) = view w" "view (snd (cl_delete_pod (r_client r) p w)) = view w"
  using assms unfolding lawful_def stores_objects_def by (metis snd_conv)+

lemma spares_pods:
  assumes "lawful view ad r"
  shows "spares view (cl_list_pods (r_client (flaky r)) ns sel)" "spares view (cl_delete_pod (r_client (flaky r)) p)"
proof -
  have "cl_list_pods (r_client (flaky r)) ns sel = faulty Inl (cl_list_pods (r_client r) ns sel)"
    "cl_delete_pod (r_client (flaky r)) p = faulty Some (cl_delete_pod (r_client r) p)" by simp_all
  then show "spares view (cl_list_pods (r_client (flaky r)) ns sel)"
    "spares view (cl_delete_pod (r_client (flaky r)) p)"
    by (simp_all only: spares_faulty lawful_pods[OF assms])
qed

lemma spares_delete_pods:
  assumes "lawful view ad r"
  shows "spares view (delete_pods (flaky r) pods)"
proof (induction pods)
  case (Cons p pods)
  show ?case
    unfolding spares_def
  proof (intro allI)
    fix w fs
    obtain res w1 fs1 where del: "cl_delete_pod (r_client (flaky r)) p (w, fs) = (res, (w1, fs1))"
      by (metis prod.collapse)
    note one = sparesD[OF spares_pods(2)[OF assms] del]
    obtain res2 w2 fs2 where rest: "delete_pods (flaky r) pods (w1, fs1) = (res2, (w2, fs2))"
      by (metis prod.collapse)
    note two = sparesD[OF Cons.IH rest]
    show "view (fst (snd (delete_pods (flaky r) (p # pods) (w, fs)))) = view w \<and>
        length (snd (snd (delete_pods (flaky r) (p # pods) (w, fs)))) \<le> length fs"
      using del rest one two by (cases res) auto
  qed
qed (simp add: spares_def)

lemma spares_restart:
  assumes "lawful view ad r"
  shows "spares view (restart_pods (flaky r) ns sel)"
  unfolding spares_def
proof (intro allI)
  fix w fs
  obtain res w1 fs1 where get: "cl_list_pods (r_client (flaky r)) ns sel (w, fs) = (res, (w1, fs1))"
    by (metis prod.collapse)
  note one = sparesD[OF spares_pods(1)[OF assms] get]
  show "view (fst (snd (restart_pods (flaky r) ns sel (w, fs)))) = view w \<and>
      length (snd (snd (restart_pods (flaky r) ns sel (w, fs)))) \<le> length fs"
  proof (cases res)
    case (Inr pods)
    obtain res2 w2 fs2 where rest: "delete_pods (flaky r) pods (w1, fs1) = (res2, (w2, fs2))"
      by (metis prod.collapse)
    then show ?thesis
      using Inr get one sparesD[OF spares_delete_pods[OF assms] rest] by (simp add: restart_pods_def)
  qed (use get one in \<open>simp add: restart_pods_def\<close>)
qed

lemma tolerates_settle_config:
  assumes restart: "\<And>w. view (snd (restart w)) = view w" and spares: "spares view restart'"
  shows "tolerates view (settle_config r restart found d) (settle_config (flaky r) restart' found d)"
proof (cases d)
  case InSync
  then show ?thesis by (intro tolerates_same[of _ Done]) (simp_all add: settle_config_def)
next
  case Recreate
  have "settle_config r restart found d = change (op_delete (cl_configmaps (r_client r))) found"
    "settle_config (flaky r) restart' found d = change (op_delete (flaky_ops (cl_configmaps (r_client r)))) found"
    using Recreate by (simp_all add: settle_config_def fun_eq_iff)
  then show ?thesis by (simp only: tolerates_change_ops)
next
  case (DriftError err)
  then show ?thesis by (intro tolerates_same[of _ "Failed (OtherError err)"]) (simp_all add: settle_config_def)
next
  case DriftPanic
  then show ?thesis by (intro tolerates_same[of _ Panicked]) (simp_all add: settle_config_def)
next
  case (Repair cm)
  show ?thesis
    unfolding tolerates_def
  proof (intro allI)
    fix w fs
    let ?req = "op_update (cl_configmaps (r_client r)) cm"
    show "tolerated view w fs (settle_config r restart found d w) (settle_config (flaky r) restart' found d (w, fs))"
    proof (cases rule: faulty_cases[of Some ?req w fs])
      case (works fs')
      obtain res w1 where req: "?req w = (res, w1)" by (cases "?req w")
      obtain res2 w2 fs2 where rest: "restart' (w1, fs') = (res2, (w2, fs2))" by (metis prod.collapse)
      show ?thesis
        using works req rest sparesD[OF spares rest] restart[of w1] Repair
        by (cases res) (simp_all add: settle_config_def tolerated_def)
    next
      case (fails msg w' fs')
      have "view w' = view w \<or> view w' = view (snd (settle_config r restart found d w))"
        using fails(3) restart Repair by (auto simp: settle_config_def split: prod.splits option.splits)
      then show ?thesis
        by (intro tolerated_failsI[where err = "OtherError msg" and w' = w' and fs' = fs'])
          (use fails Repair in \<open>simp_all add: settle_config_def\<close>)
    qed
  qed
qed

subsection \<open>Measured steps with faults\<close>

text \<open>The object of the gauge came closer to what is wanted, and nothing else changed.\<close>

definition advances :: "('w \<Rightarrow> cluster) \<Rightarrow> gauge \<Rightarrow> 'w \<Rightarrow> 'w \<Rightarrow> bool" where
  "advances view g w w' \<longleftrightarrow> (\<exists>v'. view w' = put (g_key g) v' (view w) \<and> value_wf g v' \<and>
     value_rank g v' < value_rank g (objects (view w) (g_key g)))"

fun careful_result :: "('w \<Rightarrow> cluster) \<Rightarrow> gauge \<Rightarrow> 'w faulty \<Rightarrow> outcome \<Rightarrow> 'w faulty \<Rightarrow> bool" where
  "careful_result view g (w, fs) res (w', fs') \<longleftrightarrow> length fs' \<le> length fs \<and>
     (res = Done \<and> value_rank g (objects (view w) (g_key g)) = 0 \<and> view w' = view w \<or>
      res = Requeue \<and> advances view g w w' \<or>
      (\<exists>err. res = Failed err) \<and> length fs' < length fs \<and> (view w' = view w \<or> advances view g w w'))"

definition careful ::
    "('w \<Rightarrow> cluster) \<Rightarrow> (globals \<Rightarrow> bool) \<Rightarrow> gauge \<Rightarrow> ('w faulty state \<Rightarrow> outcome \<times> 'w faulty state) \<Rightarrow> bool" where
  "careful view ok g f \<longleftrightarrow>
     (\<forall>s. ok (snd s) \<longrightarrow> value_wf g (objects (view (fst (fst s))) (g_key g)) \<longrightarrow>
        careful_result view g (fst s) (fst (f s)) (fst (snd (f s))) \<and> ok (snd (snd (f s))))"

lemma settles_cases:
  assumes "settles view g (objects (view w) (g_key g)) res w"
  obtains "fst res = Done" "value_rank g (objects (view w) (g_key g)) = 0" "view (snd res) = view w"
  | "fst res = Requeue" "advances view g w (snd res)"
proof (cases "value_rank g (objects (view w) (g_key g)) = 0")
  case True
  then show ?thesis using assms that(1) by (auto simp: settles_def)
next
  case False
  then obtain w' v' where "res = (Requeue, w')" "view w' = put (g_key g) v' (view w)" "value_wf g v'"
      "value_rank g v' < value_rank g (objects (view w) (g_key g))"
    using assms by (auto simp: settles_def)
  then show ?thesis using that(2) unfolding advances_def by auto
qed

lemma advances_view: "advances view g w w1 \<Longrightarrow> view w2 = view w1 \<Longrightarrow> advances view g w w2"
  by (simp add: advances_def)

lemma tolerated_careful:
  assumes settles: "settles view g (objects (view w) (g_key g)) res w" and tol: "tolerated view w fs res res'"
  shows "careful_result view g (w, fs) (fst res') (snd res')"
proof -
  obtain out w' fs' where res': "res' = (out, (w', fs'))" by (cases res') auto
  from settles show ?thesis
  proof (cases rule: settles_cases)
    case 1
    then show ?thesis using tol by (auto simp: res' tolerated_def)
  next
    case 2
    have "view w' = view (snd res) \<Longrightarrow> advances view g w w'" using 2(2) by (rule advances_view)
    then show ?thesis using tol 2(1) by (auto simp: res' tolerated_def)
  qed
qed

lemma careful_lift_world:
  fixes view :: "'w \<Rightarrow> cluster"
  assumes "measured view g f" "tolerates view f f'"
  shows "careful view ok g (lift_world f')"
  unfolding careful_def
proof (intro allI impI)
  fix s :: "'w faulty state"
  obtain w fs p where s: "s = ((w, fs), p)" by (metis prod.collapse)
  assume ok: "ok (snd s)" and wf: "value_wf g (objects (view (fst (fst s))) (g_key g))"
  have "settles view g (objects (view w) (g_key g)) (f w) w"
    using assms(1) wf by (simp add: measured_def Let_def s)
  moreover have "tolerated view w fs (f w) (f' (w, fs))" using assms(2) by (simp add: tolerates_def)
  ultimately have "careful_result view g (w, fs) (fst (f' (w, fs))) (snd (f' (w, fs)))"
    by (rule tolerated_careful)
  then show "careful_result view g (fst s) (fst (lift_world f' s)) (fst (snd (lift_world f' s))) \<and>
      ok (snd (snd (lift_world f' s)))"
    using ok by (simp add: lift_world_def s split_def)
qed

lemma careful_builder:
  fixes view :: "'w \<Rightarrow> cluster"
  assumes "measured view g f" "tolerates view f f'"
    and built: "\<And>s. ok (snd s) \<Longrightarrow> \<exists>p. ok p \<and> step s = lift_world f' (fst s, p)"
  shows "careful view ok g step"
  unfolding careful_def
proof (intro allI impI)
  fix s :: "'w faulty state"
  assume ok: "ok (snd s)" and wf: "value_wf g (objects (view (fst (fst s))) (g_key g))"
  from built[OF ok] obtain p where p: "ok p" "step s = lift_world f' (fst s, p)" by blast
  then show "careful_result view g (fst s) (fst (step s)) (fst (snd (step s))) \<and> ok (snd (snd (step s)))"
    using careful_lift_world[OF assms(1,2), of ok] wf unfolding careful_def by (metis fst_conv snd_conv)
qed

text \<open>The state as the steps without faults have it.\<close>

definition no_faults :: "'w faulty state \<Rightarrow> 'w state" where
  "no_faults s = (fst (fst s), snd s)"

definition faults_left :: "'w faulty state \<Rightarrow> nat" where
  "faults_left s = length (snd (fst s))"

lemma fault_simps [simp]: "no_faults ((w, fs), p) = (w, p)" "faults_left ((w, fs), p) = length fs"
  by (simp_all add: no_faults_def faults_left_def)

lemma steps_advance:
  assumes adv: "advances view g w w'" "g \<in> set gs" and dist: "distinct (map g_key gs)"
    and wf: "steps_wf view gs w"
  shows "steps_wf view gs w'" "steps_rank view gs (g_key g) (w', p') < steps_rank view gs (g_key g) (w, p)"
    "j \<noteq> g_key g \<Longrightarrow> steps_rank view gs j (w', p') = steps_rank view gs j (w, p)"
proof -
  obtain v' where v': "view w' = put (g_key g) v' (view w)" "value_wf g v'"
      "value_rank g v' < value_rank g (objects (view w) (g_key g))"
    using adv(1) by (auto simp: advances_def)
  show "steps_wf view gs w'"
    unfolding steps_wf_def
  proof
    fix h assume "h \<in> set gs"
    then show "value_wf h (objects (view w') (g_key h))"
      using v' wf dist adv(2) by (cases "g_key h = g_key g") (auto simp: steps_wf_def distinct_map inj_on_def)
  qed
  show "steps_rank view gs (g_key g) (w', p') < steps_rank view gs (g_key g) (w, p)"
    using v' by (simp add: steps_rank_gauge[OF dist adv(2)])
  show "j \<noteq> g_key g \<Longrightarrow> steps_rank view gs j (w', p') = steps_rank view gs j (w, p)"
    by (simp add: steps_rank_def v'(1) split: option.splits)
qed

lemma parts_resilient:
  fixes view :: "'w \<Rightarrow> cluster" and parts :: "(gauge \<times> ('w faulty state \<Rightarrow> outcome \<times> 'w faulty state)) list"
  assumes careful: "\<And>g f. H \<Longrightarrow> (g, f) \<in> set parts \<Longrightarrow> careful view ok g f"
    and dist: "distinct (map g_key (map fst parts))"
    and Q: "\<And>c g v. g \<in> set (map fst parts) \<Longrightarrow> Q c \<Longrightarrow> Q (put (g_key g) v c)"
  shows "resilient (map (\<lambda>(g, f). (g_key g, f)) parts) (\<lambda>k s. steps_rank view (map fst parts) k (no_faults s))
    (\<lambda>s. parts_inv view H ok (map fst parts) Q (no_faults s)) faults_left"
proof
  let ?steps = "map (\<lambda>(g, f). (g_key g, f)) parts" and ?gs = "map fst parts"
    and ?rank = "\<lambda>k s. steps_rank view (map fst parts) k (no_faults s)"
    and ?inv = "\<lambda>s. parts_inv view H ok (map fst parts) Q (no_faults s)"
  show "distinct (map fst ?steps)" using dist by (simp add: comp_def split_def)
  fix k f s
  assume kf: "(k, f) \<in> set ?steps" and inv: "?inv s"
  obtain g where g: "(g, f) \<in> set parts" "k = g_key g" using kf by auto
  then have mem: "g \<in> set ?gs" by force
  obtain w fs p where s: "s = ((w, fs), p)" by (metis prod.collapse)
  have pre: "H" "ok p" "steps_wf view ?gs w" "Q (view w)" using inv by (simp_all add: parts_inv_def s)
  have wf: "value_wf g (objects (view w) (g_key g))" using pre(3) mem unfolding steps_wf_def by blast
  obtain res w' fs' p' where s': "f s = (res, ((w', fs'), p'))" by (metis prod.collapse)
  have result: "careful_result view g (w, fs) res (w', fs')" and ok': "ok p'"
  proof -
    have "careful_result view g (fst s) (fst (f s)) (fst (snd (f s))) \<and> ok (snd (snd (f s)))"
      using careful[OF pre(1) g(1)] pre(2) wf unfolding careful_def s by (metis fst_conv snd_conv)
    then show "careful_result view g (w, fs) res (w', fs')" "ok p'" unfolding s' by (simp_all add: s)
  qed
  have same: "?inv ((w', fs'), p') \<and> (\<forall>j. ?rank j ((w', fs'), p') = ?rank j s)" if "view w' = view w"
    using that pre ok' steps_wf_view[of view w' w ?gs] steps_rank_view[of view "(w', p')" "(w, p)"]
    by (simp add: parts_inv_def s)
  have adv: "?inv ((w', fs'), p') \<and> ?rank k ((w', fs'), p') < ?rank k s \<and>
      (\<forall>j. j \<noteq> k \<longrightarrow> ?rank j ((w', fs'), p') = ?rank j s)" if a: "advances view g w w'"
  proof -
    have "Q (view w')" using a Q[OF mem pre(4)] by (auto simp: advances_def)
    then show ?thesis
      using steps_advance[OF a mem dist pre(3)] pre ok' by (simp add: parts_inv_def s g(2))
  qed
  have zero: "?rank k s = 0" if "value_rank g (objects (view w) (g_key g)) = 0"
    using that by (simp add: s g(2) steps_rank_gauge[OF dist mem])
  have left: "faults_left ((w', fs'), p') = length fs'" "faults_left s = length fs" by (simp_all add: s)
  from result have cases: "length fs' \<le> length fs"
      "res = Done \<and> value_rank g (objects (view w) (g_key g)) = 0 \<and> view w' = view w \<or>
       res = Requeue \<and> advances view g w w' \<or>
       (\<exists>err. res = Failed err) \<and> length fs' < length fs \<and> (view w' = view w \<or> advances view g w w')" by simp_all
  have "?inv ((w', fs'), p') \<and> (\<forall>j. j \<noteq> k \<longrightarrow> ?rank j ((w', fs'), p') = ?rank j s) \<and>
      (res = Done \<and> ?rank k s = 0 \<and> ?rank k ((w', fs'), p') = 0 \<or>
       res = Requeue \<and> ?rank k ((w', fs'), p') < ?rank k s \<or>
       (\<exists>err. res = Failed err) \<and> ?rank k ((w', fs'), p') \<le> ?rank k s \<and> length fs' < length fs)"
    using cases(2)
  proof (elim disjE conjE)
    assume "res = Done" "value_rank g (objects (view w) (g_key g)) = 0" "view w' = view w"
    then show ?thesis using same zero by (cases k) simp
  next
    assume "res = Requeue" "advances view g w w'"
    then show ?thesis using adv by simp
  next
    assume "\<exists>err. res = Failed err" "length fs' < length fs" "view w' = view w"
    then show ?thesis using same by (cases k) auto
  next
    assume "\<exists>err. res = Failed err" "length fs' < length fs" "advances view g w w'"
    then show ?thesis using adv by auto
  qed
  then show "\<exists>res s'. f s = (res, s') \<and> ?inv s' \<and> faults_left s' \<le> faults_left s \<and>
      (\<forall>j \<in> fst ` set ?steps. j \<noteq> k \<longrightarrow> ?rank j s' = ?rank j s) \<and>
      (res = Done \<and> ?rank k s = 0 \<and> ?rank k s' = 0 \<or> res = Requeue \<and> ?rank k s' < ?rank k s \<or>
       (\<exists>err. res = Failed err) \<and> ?rank k s' \<le> ?rank k s \<and> faults_left s' < faults_left s)"
    by (intro exI[of _ res] exI[of _ "((w', fs'), p')"]) (use cases(1) left s' in \<open>auto simp only:\<close>)
qed

subsection \<open>Reading\<close>

lemma stores_read:
  assumes "stores view ops K wrap meta adm"
  shows "view (snd (op_get ops k w)) = view w"
  using stores_get_None[OF assms, of w k] stores_get_Some[OF assms, of w k]
  by (cases "objects (view w) (K, k)") auto

lemma tolerates_stored:
  "stores view ops K wrap meta adm \<Longrightarrow> (\<And>x. tolerates view (check x) (check' x)) \<Longrightarrow>
   tolerates view (get_or_create ops key obj check) (get_or_create (flaky_ops ops) key obj check')"
  by (rule tolerates_get_or_create[OF stores_read])

lemma tolerates_created:
  "stores view ops K wrap meta adm \<Longrightarrow>
   tolerates view (get_or_create ops key obj (\<lambda>x w. (Done, w))) (get_or_create (flaky_ops ops) key obj (\<lambda>x w. (Done, w)))"
  by (rule tolerates_stored) (auto intro: tolerates_same)

end
