(* ===== verification/CommonAuditFaults.thy ===== *)
theory CommonAuditFaults
  imports CommonAuditConverges Faults
begin

text \<open>
  The controller of \<open>CommonAudit\<close> on an API server whose requests fail now and then: every method tolerates
  faults, so the list of its methods is \<open>resilient\<close>, and \<open>Reconcile\<close>, run again after every requeue and
  every error, still brings all operands in place.
\<close>

subsection \<open>Every method tolerates faults\<close>

lemma ca_reconcileConfig_built:
  "BuildFluentdConfigMap (r_yaml r) inst name = Inr e \<Longrightarrow>
   ca_reconcileConfig r inst name = get_or_create (cl_configmaps (r_client r))
     (NamespacedName (ca_Namespace inst) name) (owned r (ca_owner inst) (cm_Meta e) (\<lambda>m. e\<lparr>cm_Meta := m\<rparr>))
     (\<lambda>found. settle_config r (ca_restartFluentdPods r inst) found (ca_config_drift inst name e found))"
  by (rule ext) (simp add: ca_reconcileConfig_def)

lemma ca_config_tolerates:
  assumes law: "lawful view ad r"
  shows "tolerates view (ca_reconcileConfig r inst name) (ca_reconcileConfig (flaky r) inst name)"
proof (cases "BuildFluentdConfigMap (r_yaml r) inst name")
  case (Inl err)
  then show ?thesis
    by (intro tolerates_same[of _ "Failed (OtherError err)"]) (simp_all add: ca_reconcileConfig_def)
next
  case (Inr e)
  have "view (snd (ca_restartFluentdPods r inst w)) = view w" for w
    unfolding ca_restartFluentdPods_def by (rule restart_pods_view[OF law])
  moreover have "spares view (ca_restartFluentdPods (flaky r) inst)"
    unfolding ca_restartFluentdPods_def by (rule spares_restart[OF law])
  ultimately have check: "tolerates view
      (settle_config r (ca_restartFluentdPods r inst) found (ca_config_drift inst name e found))
      (settle_config (flaky r) (ca_restartFluentdPods (flaky r) inst) found (ca_config_drift inst name e found))" for found
    by (rule tolerates_settle_config)
  show ?thesis
    using ca_reconcileConfig_built[of "flaky r" inst name e] check Inr
    by (simp add: ca_reconcileConfig_built[OF Inr] tolerates_stored[OF lawful_stores(1)[OF law]])
qed

lemma ca_issuer_tolerates:
  "lawful view ad r \<Longrightarrow> tolerates view (ca_reconcileIssuer r f inst) (ca_reconcileIssuer (flaky r) f inst)"
  unfolding ca_reconcileIssuer_def Let_def flaky_simps flaky_client_simps flaky_owned
  by (rule tolerates_stored[OF lawful_stores(6) tolerates_update_when(1)])

lemma ca_root_cert_tolerates:
  "lawful view ad r \<Longrightarrow> tolerates view (ca_reconcileRootCACert r inst) (ca_reconcileRootCACert (flaky r) inst)"
  unfolding ca_reconcileRootCACert_def Let_def flaky_simps flaky_client_simps flaky_owned
  by (rule tolerates_stored[OF lawful_stores(7) tolerates_update_when(1)])

lemma ca_cert_tolerates:
  "lawful view ad r \<Longrightarrow>
   tolerates view (ca_reconcileAuditCertificate r inst name) (ca_reconcileAuditCertificate (flaky r) inst name)"
  unfolding ca_reconcileAuditCertificate_def Let_def flaky_simps flaky_client_simps flaky_owned
  by (rule tolerates_stored[OF lawful_stores(7) tolerates_update_when(1)])

lemma ca_secret_tolerates:
  "lawful view ad r \<Longrightarrow> tolerates view (ca_reconcileSecret r inst) (ca_reconcileSecret (flaky r) inst)"
  unfolding ca_reconcileSecret_def Let_def flaky_simps flaky_client_simps flaky_owned
  by (rule tolerates_created[OF lawful_stores(2)])

lemma ca_service_tolerates:
  "lawful view ad r \<Longrightarrow> tolerates view (ca_reconcileService r inst) (ca_reconcileService (flaky r) inst)"
  unfolding ca_reconcileService_def Let_def flaky_simps flaky_client_simps flaky_owned
  by (rule tolerates_stored[OF lawful_stores(3) tolerates_update_when(2)])

lemma ca_account_tolerates:
  assumes law: "lawful view ad r"
  shows "tolerates view (ca_reconcileServiceAccount r inst) (ca_reconcileServiceAccount (flaky r) inst)"
proof (cases "owned r (ca_owner inst) (sa_Meta (BuildServiceAccount (ca_Namespace inst)))
    (\<lambda>m. (BuildServiceAccount (ca_Namespace inst))\<lparr>sa_Meta := m\<rparr>)")
  case (Inl err)
  then show ?thesis
    by (intro tolerates_same[of _ "Failed err"]) (simp_all add: ca_reconcileServiceAccount_def Let_def)
next
  case (Inr e)
  let ?key = "NamespacedName (ca_Namespace inst) (m_Name (sa_Meta e))"
  have "ca_reconcileServiceAccount r inst =
      get_or_create (cl_accounts (r_client r)) ?key (Inr e) (\<lambda>found w. (Done, w))"
    by (rule ext) (simp add: ca_reconcileServiceAccount_def Let_def Inr)
  moreover have "ca_reconcileServiceAccount (flaky r) inst =
      get_or_create (flaky_ops (cl_accounts (r_client r))) ?key (Inr e) (\<lambda>found w. (Done, w))"
    by (rule ext) (simp add: ca_reconcileServiceAccount_def Let_def Inr)
  ultimately show ?thesis by (simp only: tolerates_created[OF lawful_stores(4)[OF law]])
qed

lemma expected_fluentd_flaky [simp]: "expected_fluentd (flaky r) inst = expected_fluentd r inst"
  by (simp add: expected_fluentd_def)

lemma fluentd_method_tolerates:
  "lawful view ad r \<Longrightarrow> tolerates view (fluentd_method r inst) (fluentd_method (flaky r) inst)"
  unfolding fluentd_method_def Let_def expected_fluentd_flaky flaky_simps flaky_client_simps flaky_owned
  by (rule tolerates_stored[OF lawful_stores(5) tolerates_settle_deployment])

subsection \<open>The contract of the steps\<close>

lemma ca_gauges_flaky: "ca_gauges (flaky r) inst = ca_gauges r inst"
  by (simp add: ca_gauges_def ca_parts_def comp_def expected_config_def fluentd_gauge_def)

lemma ca_parts_careful:
  assumes law: "lawful view ad r" and ok: "values_ok inst" "usable_aliases inst"
    and part: "(g, f) \<in> set (ca_parts (flaky r) inst)"
  shows "careful view built g f"
proof -
  have gauges: "expected_config (flaky r) inst = expected_config r inst" "fluentd_gauge (flaky r) inst = fluentd_gauge r inst"
    by (simp_all add: expected_config_def fluentd_gauge_def fun_eq_iff)
  have issuers: "measured view (issuer_gauge (BuildGodIssuer (ca_Namespace inst))) (ca_reconcileIssuer r BuildGodIssuer inst)"
      "measured view (issuer_gauge (BuildRootCAIssuer (ca_Namespace inst))) (ca_reconcileIssuer r BuildRootCAIssuer inst)"
    by (rule issuer_measured[OF law], simp add: BuildGodIssuer_def BuildRootCAIssuer_def)+
  have "careful view built (fluentd_gauge r inst) (ca_reconcileFluentdDeployment (flaky r) inst)"
    by (rule careful_builder[OF fluentd_method_measured[OF law ok(2)] fluentd_method_tolerates[OF law]
          fluentd_method_built])
  moreover note careful_lift_world[OF ca_config_measured[OF law ok(1)] ca_config_tolerates[OF law]]
    careful_lift_world[OF issuers(1) ca_issuer_tolerates[OF law]]
    careful_lift_world[OF issuers(2) ca_issuer_tolerates[OF law]]
    careful_lift_world[OF root_cert_measured[OF law] ca_root_cert_tolerates[OF law]]
    careful_lift_world[OF https_cert_measured[OF law] ca_cert_tolerates[OF law]]
    careful_lift_world[OF secret_measured[OF law] ca_secret_tolerates[OF law]]
    careful_lift_world[OF account_measured[OF law] ca_account_tolerates[OF law]]
    careful_lift_world[OF ca_service_measured[OF law] ca_service_tolerates[OF law]]
  ultimately show ?thesis using part by (auto simp: ca_parts_def gauges)
qed

lemma ca_resilient:
  "resilient (ca_steps (flaky r) inst) (\<lambda>k s. steps_rank view (ca_gauges r inst) k (no_faults s))
     (\<lambda>s. ca_inv view ad r inst req c0 (no_faults s)) faults_left"
proof -
  have gs: "map fst (ca_parts (flaky r) inst) = map fst (ca_parts r inst)"
    using ca_gauges_flaky[of r inst] by (simp only: ca_gauges_def)
  note res = parts_resilient[of "lawful view ad r \<and> values_ok inst \<and> usable_aliases inst" "ca_parts (flaky r) inst"
      view built "\<lambda>c. ca_admitted r inst req c \<and> others_kept (map fst (ca_parts r inst)) c0 c", unfolded gs]
  show ?thesis
    unfolding ca_inv_parts ca_steps_def ca_gauges_def
  proof (rule res)
    show "distinct (map g_key (map fst (ca_parts r inst)))"
      using ca_keys_distinct[of r inst] by (simp only: ca_gauges_def)
  qed (use ca_parts_careful ca_admitted_put others_kept_put in blast)+
qed

interpretation ca_faults: resilient "ca_steps (flaky r) inst" "\<lambda>k s. steps_rank view (ca_gauges r inst) k (no_faults s)"
    "\<lambda>s. ca_inv view ad r inst req c0 (no_faults s)" faults_left
  for r inst view ad req c0
  by (rule ca_resilient)

subsection \<open>Requests about the resource\<close>

lemma ca_faults_total:
  assumes "objects (view (fst (fst s'))) = objects (view (fst (fst s)))"
  shows "ca_faults.total r inst view s' = ca_faults.total r inst view s"
    "ca_faults.settled r inst view s' = ca_faults.settled r inst view s"
proof -
  have "steps_rank view gs k (no_faults s') = steps_rank view gs k (no_faults s)" for gs k
    using steps_objects(2)[of view "fst (fst s')" "fst (fst s)", OF assms] by (simp add: no_faults_def)
  then show "ca_faults.total r inst view s' = ca_faults.total r inst view s"
    "ca_faults.settled r inst view s' = ca_faults.settled r inst view s"
    by (simp_all add: ca_faults.total_def ca_faults.settled_def)
qed

text \<open>A round may begin and end with requests that do not touch the operands.\<close>

lemma ca_verdict_failed:
  "objects (view w') = objects (view w) \<Longrightarrow> length fs' < length fs \<Longrightarrow>
   ca_faults.verdict r inst view ((w, fs), g) (Failed err) ((w', fs'), g')"
  by (simp add: ca_faults.verdict_def ca_faults_total(1)[of view "((w', fs'), g')" "((w, fs), g)"])

lemma ca_verdict_before:
  "ca_faults.verdict r inst view ((w1, fs1), g1) res s' \<Longrightarrow> objects (view w1) = objects (view w) \<Longrightarrow>
   length fs1 \<le> length fs \<Longrightarrow> ca_faults.verdict r inst view ((w, fs), g) res s'"
  by (auto simp: ca_faults.verdict_def ca_faults_total(1)[of view "((w1, fs1), g1)" "((w, fs), g)"])

lemma ca_verdict_after:
  assumes "ca_faults.verdict r inst view s Done ((w1, fs1), g1)" "objects (view w') = objects (view w1)"
    and "length fs' \<le> length fs1" "res = Done \<or> (\<exists>err. res = Failed err) \<and> length fs' < length fs1"
  shows "ca_faults.verdict r inst view s res ((w', fs'), g')"
  using assms ca_faults_total[of view "((w', fs'), g')" "((w1, fs1), g1)" r inst]
  by (auto simp: ca_faults.verdict_def)

text \<open>A request for the status.\<close>

lemma ca_faulty_status:
  assumes inv: "ca_inv view ad r inst req c0 (w, g)" and serves: "serves_common view (r_cr r)"
    and x: "same_common inst x"
  obtains (works) b w' fs' where "cr_status_common (r_cr (flaky r)) x (w, fs) = (Inr b, (w', fs'))"
      "same_common inst b" "objects (view w') = objects (view w)" "ca_inv view ad r inst req c0 (w', g)"
      "length fs' \<le> length fs"
  | (fails) err w' fs' where "cr_status_common (r_cr (flaky r)) x (w, fs) = (Inl err, (w', fs'))"
      "objects (view w') = objects (view w)" "ca_inv view ad r inst req c0 (w', g)" "length fs' < length fs"
proof -
  obtain b w1 where b: "cr_status_common (r_cr r) x w = (Inr b, w1)" "same_common inst b"
      "objects (view w1) = objects (view w)" "ca_inv view ad r inst req c0 (w1, g)"
    using ca_status_request[OF inv serves x] .
  show ?thesis
  proof (cases rule: faulty_cases[of Inl "cr_status_common (r_cr r) x" w fs])
    case (works fs')
    then show ?thesis using b by (intro that(1)[of b w1 fs']) simp_all
  next
    case (fails msg w' fs')
    then show ?thesis using b inv by (intro that(2)[of "OtherError msg" w' fs']) auto
  qed
qed

text \<open>The lists that the checks read: whatever happens, nobody else is found.\<close>

lemma ca_check_passes_faults:
  assumes inv: "ca_inv view ad r inst req c0 (w, g)" and serves: "serves_common view (r_cr r)"
  obtains w' fs' where "ca_check_and_run (flaky r) req b ((w, fs), g) = ca_run (flaky r) b ((w', fs'), g)"
    "view w' = view w" "length fs' \<le> length fs"
proof -
  obtain cs where cs: "GetCSNamespace (r_env r) = Inr cs" "audits (view w) = [] \<or> key_ns req \<noteq> cs"
    and one: "length (filter (\<lambda>a. key_ns req = [] \<or> ca_Namespace a = key_ns req) (commons (view w))) \<le> 1"
    using inv by (auto simp: ca_inv_def ca_admitted_def)
  note lists = serves_common_rest(1,2)[OF serves]
  obtain l1 w1 fs1 where w1: "cr_list_audit (r_cr (flaky r)) (w, fs) = (l1, (w1, fs1))" by (metis prod.collapse)
  have l1: "view w1 = view w" "length fs1 \<le> length fs" "l1 = Inr (audits (view w)) \<or> (\<exists>err. l1 = Inl err)"
    using w1 lists(2)[of w]
    by (cases rule: faulty_cases[of Inl "cr_list_audit (r_cr r)" w fs]; auto)+
  obtain l2 w2 fs2 where w2: "cr_list_common (r_cr (flaky r)) (key_ns req) (w1, fs1) = (l2, (w2, fs2))"
    by (metis prod.collapse)
  have l2: "view w2 = view w" "length fs2 \<le> length fs"
      "l2 = Inr (filter (\<lambda>a. key_ns req = [] \<or> ca_Namespace a = key_ns req) (commons (view w))) \<or> (\<exists>err. l2 = Inl err)"
    using w2 lists(1)[of "key_ns req" w1] l1
    by (cases rule: faulty_cases[of Inl "cr_list_common (r_cr r) (key_ns req)" w1 fs1]; auto)+
  let ?w3 = "cr_event (r_cr r) \<lparr>e_About = meta_key (ca_Meta b), e_Type = EventTypeNormal,
      e_Reason = ''Initializing'', e_Message = ''Instance found''\<rparr> w2"
  have "ca_check_and_run (flaky r) req b ((w, fs), g) = ca_run (flaky r) b ((?w3, fs2), g)"
    using one w1 w2 cs l1(3) l2(3) by (auto simp: ca_check_and_run_def ca_updateEvent_def)
  then show ?thesis
    by (rule that) (simp_all add: serves_common_rest(3)[OF serves] l2)
qed

text \<open>The way to the methods, and the end of a round in which all of them are done.\<close>

lemma ca_entry_faults:
  assumes inv: "ca_inv view ad r inst req c0 (w, g)" and serves: "serves_common view (r_cr r)"
  obtains (runs) b w' fs' where "ca_Reconcile (flaky r) req ((w, fs), g) = ca_run (flaky r) b ((w', fs'), g)"
      "same_common inst b" "objects (view w') = objects (view w)" "ca_inv view ad r inst req c0 (w', g)"
      "length fs' \<le> length fs"
  | (fails) err w' fs' where "ca_Reconcile (flaky r) req ((w, fs), g) = (Failed err, ((w', fs'), g))"
      "objects (view w') = objects (view w)" "ca_inv view ad r inst req c0 (w', g)" "length fs' < length fs"
proof -
  obtain a where a: "find (\<lambda>a. meta_key (ca_Meta a) = req) (commons (view w)) = Some a" "same_common inst a"
    using inv by (auto simp: ca_inv_def ca_admitted_def)
  obtain b w1 where b: "cr_get_common (r_cr r) req w = (Inr b, w1)" "same_common a b" "view w1 = view w"
    using serves_common_get[OF serves a(1)] by metis
  have same: "same_common inst b" using same_common_trans[OF a(2) b(2)] .
  show ?thesis
  proof (cases rule: faulty_cases[of Inl "cr_get_common (r_cr r) req" w fs])
    case (fails msg w' fs')
    then have "view w' = view w" using b by auto
    with fails show ?thesis
      using ca_inv_view[OF inv] by (intro that(2)[of "OtherError msg" w' fs']) (simp_all add: ca_Reconcile_def)
  next
    case (works fs1)
    note inv1 = ca_inv_view[OF inv b(3)]
    have get: "ca_Reconcile (flaky r) req ((w, fs), g) =
        (if length (elems (ca_Nodes (ca_Status b))) = 0
         then (case cr_status_common (r_cr (flaky r)) (ca_default_status b) (w1, fs1) of
                 (Inl err, w) \<Rightarrow> (Failed err, (w, g))
               | (Inr inst, w) \<Rightarrow> ca_check_and_run (flaky r) req inst (w, g))
         else ca_check_and_run (flaky r) req b ((w1, fs1), g))"
      using works b by (simp add: ca_Reconcile_def split: prod.split sum.split)
    show ?thesis
    proof (cases "length (elems (ca_Nodes (ca_Status b))) = 0")
      case True
      have "same_common inst (ca_default_status b)"
        using same by (simp add: same_common_def ca_default_status_def)
      from inv1 serves this show ?thesis
      proof (cases rule: ca_faulty_status[where fs = fs1])
        case (works b2 w2 fs2)
        obtain w3 fs3 where w3: "ca_check_and_run (flaky r) req b2 ((w2, fs2), g) = ca_run (flaky r) b2 ((w3, fs3), g)"
            "view w3 = view w2" "length fs3 \<le> length fs2"
          using ca_check_passes_faults[OF works(4) serves] .
        show ?thesis
          by (rule that(1)[OF _ works(2) _ ca_inv_view[OF works(4) w3(2)], of fs3])
            (use get True works w3 b \<open>length fs1 \<le> length fs\<close> in simp_all)
      next
        case (fails err w2 fs2)
        show ?thesis
          by (rule that(2)[of err w2 fs2]) (use get True fails b \<open>length fs1 \<le> length fs\<close> in simp_all)
      qed
    next
      case False
      obtain w3 fs3 where w3: "ca_check_and_run (flaky r) req b ((w1, fs1), g) = ca_run (flaky r) b ((w3, fs3), g)"
          "view w3 = view w1" "length fs3 \<le> length fs1"
        using ca_check_passes_faults[OF inv1 serves] .
      show ?thesis
        by (rule that(1)[OF _ same _ ca_inv_view[OF inv1 w3(2)], of fs3])
          (use get False w3 b works(2) in simp_all)
    qed
  qed
qed

lemma ca_status_faults:
  assumes inv: "ca_inv view ad r inst req c0 (w, g)" and serves: "serves_common view (r_cr r)"
    and same: "same_common inst b"
  obtains res w' fs' where "ca_updateStatus (flaky r) b (w, fs) = (res, (w', fs'))"
    "objects (view w') = objects (view w)" "ca_inv view ad r inst req c0 (w', g)" "length fs' \<le> length fs"
    "res = Done \<or> (\<exists>err. res = Failed err) \<and> length fs' < length fs"
proof -
  let ?sel = "LabelsForSelector FluentdName (ca_Name b)"
  have law: "lawful view ad r" using inv by (simp add: ca_inv_def)
  obtain pods w1 where
    w1: "cl_list_pods (r_client r) (ca_Namespace b) ?sel w = (Inr pods, w1)" "view w1 = view w"
    using law unfolding lawful_def stores_objects_def by metis
  note inv1 = ca_inv_view[OF inv w1(2)]
  show ?thesis
  proof (cases rule: faulty_cases[of Inl "cl_list_pods (r_client r) (ca_Namespace b) ?sel" w fs])
    case (fails msg w' fs')
    then have "view w' = view w" using w1 by auto
    with fails show ?thesis
      using ca_inv_view[OF inv] by (intro that[of "Failed (OtherError msg)" w' fs']) (simp_all add: ca_updateStatus_def)
  next
    case (works fs1)
    let ?status = "b\<lparr>ca_Status := \<lparr>ca_Nodes = status_nodes pods, ca_Versions = \<lparr>Reconciled = opversion\<rparr>\<rparr>\<rparr>"
    have list: "ca_updateStatus (flaky r) b (w, fs) =
        (if status_nodes pods \<noteq> ca_Nodes (ca_Status b) \<or> opversion \<noteq> Reconciled (ca_Versions (ca_Status b))
         then (case cr_status_common (r_cr (flaky r)) ?status (w1, fs1) of
                 (Inl err, w) \<Rightarrow> (Failed err, w) | (Inr _, w) \<Rightarrow> (Done, w))
         else (Done, (w1, fs1)))"
      using works w1 by (simp add: ca_updateStatus_def Let_def)
    show ?thesis
    proof (cases "status_nodes pods \<noteq> ca_Nodes (ca_Status b) \<or> opversion \<noteq> Reconciled (ca_Versions (ca_Status b))")
      case False
      then show ?thesis
        using list works(2) w1(2) inv1 by (intro that[of Done w1 fs1]) simp_all
    next
      case True
      have "same_common inst ?status" using same by (simp add: same_common_def)
      from inv1 serves this show ?thesis
      proof (cases rule: ca_faulty_status[where fs = fs1])
        case (works b2 w2 fs2)
        then show ?thesis
          using list True w1(2) \<open>length fs1 \<le> length fs\<close> by (intro that[of Done w2 fs2]) simp_all
      next
        case (fails err w2 fs2)
        then show ?thesis
          using list True w1(2) \<open>length fs1 \<le> length fs\<close> by (intro that[of "Failed err" w2 fs2]) simp_all
      qed
    qed
  qed
qed

subsection \<open>Rounds\<close>

lemma ca_run_faults:
  assumes inv: "ca_inv view ad r inst req c0 (w, g)" and serves: "serves_common view (r_cr r)"
    and same: "same_common inst b"
  shows "\<exists>res s'. ca_run (flaky r) b ((w, fs), g) = (res, s') \<and> ca_inv view ad r inst req c0 (no_faults s') \<and>
    ca_faults.verdict r inst view ((w, fs), g) res s'"
proof -
  have "ca_inv view ad r inst req c0 (no_faults ((w, fs), g))" using inv by simp
  from ca_faults.round[OF this] obtain res s1 where
    s1: "run_reconcilers (map snd (ca_steps (flaky r) inst)) ((w, fs), g) = (res, s1)"
      "ca_inv view ad r inst req c0 (no_faults s1)" "ca_faults.verdict r inst view ((w, fs), g) res s1" by blast
  obtain w1 fs1 g1 where s1': "s1 = ((w1, fs1), g1)" by (metis prod.collapse)
  have run: "run_reconcilers (map snd (ca_steps (flaky r) b)) ((w, fs), g) = (res, s1)"
    using s1(1) ca_run_same[OF same, of "flaky r"] by simp
  show ?thesis
  proof (cases "res = Done")
    case False
    then have "ca_run (flaky r) b ((w, fs), g) = (res, s1)"
      using run by (simp add: ca_run_def ca_reconcilers_flat run_reconcilers_append stops_def s1')
    then show ?thesis using s1 by blast
  next
    case True
    have "ca_inv view ad r inst req c0 (w1, g1)" using s1(2) by (simp add: s1')
    from this serves same obtain res2 w2 fs2 where
      w2: "ca_updateStatus (flaky r) b (w1, fs1) = (res2, (w2, fs2))" "objects (view w2) = objects (view w1)"
        "ca_inv view ad r inst req c0 (w2, g1)" "length fs2 \<le> length fs1"
        "res2 = Done \<or> (\<exists>err. res2 = Failed err) \<and> length fs2 < length fs1"
      by (rule ca_status_faults)
    define w3 where "w3 = (if res2 = Done then ca_updateEvent r b msg_deployed EventTypeNormal ''Deployed'' w2 else w2)"
    have w3: "view w3 = view w2"
      by (simp add: w3_def ca_updateEvent_def serves_common_rest(3)[OF serves])
    have "ca_run (flaky r) b ((w, fs), g) = (res2, ((w3, fs2), g1))"
      using run w2(1) True
      by (simp add: ca_run_def ca_reconcilers_flat run_reconcilers_append stops_def s1' lift_world_def w3_def
          ca_updateEvent_def)
    moreover have "ca_faults.verdict r inst view ((w, fs), g) res2 ((w3, fs2), g1)"
      using ca_verdict_after[of r inst view _ w1 fs1 g1 w3 fs2 res2] s1(3) True w2 w3 by (simp add: s1')
    moreover have "ca_inv view ad r inst req c0 (w3, g1)" using ca_inv_view[OF w2(3) w3] .
    ultimately show ?thesis by auto
  qed
qed

lemma ca_round_faults:
  assumes inv: "ca_inv view ad r inst req c0 (no_faults s)" and serves: "serves_common view (r_cr r)"
  shows "\<exists>res s'. ca_Reconcile (flaky r) req s = (res, s') \<and> ca_inv view ad r inst req c0 (no_faults s') \<and>
    ca_faults.verdict r inst view s res s'"
proof -
  obtain w fs g where s: "s = ((w, fs), g)" by (metis prod.collapse)
  have "ca_inv view ad r inst req c0 (w, g)" using inv by (simp add: s)
  from this serves show ?thesis
  proof (cases rule: ca_entry_faults[where fs = fs])
    case (runs b w' fs')
    then show ?thesis using ca_run_faults[OF runs(4) serves runs(2), of fs'] ca_verdict_before s by metis
  next
    case (fails err w' fs')
    then show ?thesis using ca_verdict_failed[of view w' w fs' fs r inst g err g] s by auto
  qed
qed

lemma ca_faults_ranks:
  "ca_faults.total r inst view s = ca.total r inst view (no_faults s)"
  "ca_faults.settled r inst view s = ca.settled r inst view (no_faults s)"
proof -
  have keys: "map fst (ca_steps (flaky r) inst) = map fst (ca_steps r inst)"
    by (simp only: ca_steps_keys ca_gauges_flaky)
  show "ca_faults.total r inst view s = ca.total r inst view (no_faults s)"
    unfolding ca_faults.total_def ca.total_def keys ..
  have "fst ` set (ca_steps (flaky r) inst) = fst ` set (ca_steps r inst)" using keys by (metis list.set_map)
  then show "ca_faults.settled r inst view s = ca.settled r inst view (no_faults s)"
    unfolding ca_faults.settled_def ca.settled_def by simp
qed

subsection \<open>Properties\<close>

text \<open>C5: The controller of CommonAudit converges although requests fail. Under the hypotheses of the
  convergence without faults, let any requests fail, before the server has carried them out or after, as the
  schedule fs says, and let the controller runtime run Reconcile again after every requeue and after every
  error. Then it ends without an error after at most 53 rounds and one more for each fault, and all operands
  are in place; a round never panics, and success is never reported while an operand is missing. No object
  but the operands is touched, however the requests fail, and of the resources only the status.\<close>

theorem common_audit_survives_faults:
  assumes "lawful view ad r" "serves_common view (r_cr r)"
    and "values_ok inst" "usable_aliases inst" "ca_admitted r inst req (view w)"
    and "steps_wf view (ca_gauges r inst) w" "built g"
  shows "\<exists>w' fs' g'. retries (53 + length fs) (ca_Reconcile (flaky r) req) ((w, fs), g) =
      Some (Done, ((w', fs'), g')) \<and>
    common_in_place r inst (view w') \<and> others_kept (ca_gauges r inst) (view w) (view w')"
proof -
  let ?inv = "\<lambda>s. ca_inv view ad r inst req (view w) (no_faults s)"
  have inv: "ca_inv view ad r inst req (view w) (w, g)"
    using assms by (simp add: ca_inv_def others_kept_def)
  then have inv': "?inv ((w, fs), g)" by simp
  have "ca_faults.total r inst view ((w, fs), g) + faults_left ((w, fs), g) < 53 + length fs"
    using ca_total_bound[OF inv] by (simp add: ca_faults_ranks)
  then obtain s' where s': "retries (53 + length fs) (ca_Reconcile (flaky r) req) ((w, fs), g) = Some (Done, s')"
      "?inv s'" "ca_faults.settled r inst view s'"
    using ca_faults.retries_settle[where P = ?inv, OF ca_round_faults[OF _ assms(2)] inv'] by blast
  obtain w' fs' g' where eq: "s' = ((w', fs'), g')" by (metis prod.collapse)
  have "ca_inv view ad r inst req (view w) (w', g')" using s'(2) by (simp add: eq)
  moreover have "ca.settled r inst view (w', g')" using s'(3) by (simp add: eq ca_faults_ranks)
  ultimately have "common_in_place r inst (view w')" "others_kept (ca_gauges r inst) (view w) (view w')"
    using ca_settled_in_place[of view ad r inst req "view w" "(w', g')"] by (simp_all add: ca_inv_def)
  then show ?thesis using s'(1) eq by blast
qed

text \<open>The first operand is created, but the answer is lost, and the next request does not get through.\<close>

definition sample_faults :: "fault list" where
  "sample_faults = replicate 5 Works @ [Lost ''timeout'', Fails ''connection refused'']"

theorem common_audit_survives_faults_witness:
  "\<exists>c fs g. retries 60 (ca_Reconcile (flaky (memory_reconciler ''cs'')) (NamespacedName ''ns'' ''ca''))
      ((sample_cluster, sample_faults), init_globals) = Some (Done, ((c, fs), g)) \<and>
    common_in_place (memory_reconciler ''cs'') sample_common (stored c) \<and>
    others_kept (ca_gauges (memory_reconciler ''cs'') sample_common) (stored sample_cluster) (stored c)"
proof -
  have "53 + length sample_faults = 60" by (simp add: sample_faults_def)
  with common_audit_survives_faults[OF memory_lawful memory_serves(1) sample_usable sample_admitted sample_readable
      built.init, of sample_faults]
  show ?thesis by metis
qed

end
