(* ===== verification/AuditLoggingFaults.thy ===== *)
theory AuditLoggingFaults
  imports AuditLoggingConverges Faults
begin

text \<open>
  The controller of \<open>AuditLogging\<close> on an API server whose requests fail now and then: the counterpart of the
  theory CommonAuditFaults.
\<close>

subsection \<open>Every method tolerates faults\<close>

lemma al_reconcileConfig_built:
  "BuildConfigMap (r_yaml r) inst name ns = Inr e \<Longrightarrow>
   al_reconcileConfig r inst name ns = get_or_create (cl_configmaps (r_client r)) (NamespacedName ns name)
     (owned r (al_owner inst) (cm_Meta e) (\<lambda>m. e\<lparr>cm_Meta := m\<rparr>))
     (\<lambda>found. settle_config r (al_restartFluentdPods r inst ns) found (al_config_drift (r_yaml r) name e found))"
  by (rule ext) (simp add: al_reconcileConfig_def)

lemma al_config_tolerates:
  assumes law: "lawful view ad r"
  shows "tolerates view (al_reconcileConfig r inst name ns) (al_reconcileConfig (flaky r) inst name ns)"
proof (cases "BuildConfigMap (r_yaml r) inst name ns")
  case (Inl err)
  then show ?thesis
    by (intro tolerates_same[of _ "Failed (OtherError err)"]) (simp_all add: al_reconcileConfig_def)
next
  case (Inr e)
  have "view (snd (al_restartFluentdPods r inst ns w)) = view w" for w
    unfolding al_restartFluentdPods_def by (rule restart_pods_view[OF law])
  moreover have "spares view (al_restartFluentdPods (flaky r) inst ns)"
    unfolding al_restartFluentdPods_def by (rule spares_restart[OF law])
  ultimately have check: "tolerates view
      (settle_config r (al_restartFluentdPods r inst ns) found (al_config_drift (r_yaml r) name e found))
      (settle_config (flaky r) (al_restartFluentdPods (flaky r) inst ns) found
        (al_config_drift (r_yaml r) name e found))" for found
    by (rule tolerates_settle_config)
  show ?thesis
    using al_reconcileConfig_built[of "flaky r" inst name ns e] check Inr
    by (simp add: al_reconcileConfig_built[OF Inr] tolerates_stored[OF lawful_stores(1)[OF law]])
qed

lemma al_job_tolerates:
  assumes law: "lawful view ad r"
  shows "tolerates view (al_reconcileJob r inst ns) (al_reconcileJob (flaky r) inst ns)"
proof -
  have "stores view (cl_jobs (r_client r)) KJob OJob j_Meta (ad_job ad)"
    using law unfolding lawful_def stores_objects_def by blast
  then show ?thesis
    unfolding al_reconcileJob_def Let_def flaky_simps flaky_client_simps flaky_owned by (rule tolerates_created)
qed

lemma al_cert_tolerates:
  "lawful view ad r \<Longrightarrow>
   tolerates view (al_reconcileAuditCertificate r inst name ns) (al_reconcileAuditCertificate (flaky r) inst name ns)"
  unfolding al_reconcileAuditCertificate_def Let_def flaky_simps flaky_client_simps flaky_owned
  by (rule tolerates_stored[OF lawful_stores(7) tolerates_update_when(1)])

lemma al_service_tolerates:
  "lawful view ad r \<Longrightarrow> tolerates view (al_reconcileService r inst ns) (al_reconcileService (flaky r) inst ns)"
  unfolding al_reconcileService_def Let_def flaky_simps flaky_client_simps flaky_owned
  by (rule tolerates_stored[OF lawful_stores(3) tolerates_update_when(2)])

lemma al_account_tolerates:
  assumes law: "lawful view ad r"
  shows "tolerates view (al_reconcileServiceAccount r inst ns) (al_reconcileServiceAccount (flaky r) inst ns)"
proof (cases "owned r (al_owner inst) (sa_Meta (BuildServiceAccount ns)) (\<lambda>m. (BuildServiceAccount ns)\<lparr>sa_Meta := m\<rparr>)")
  case (Inl err)
  then show ?thesis
    by (intro tolerates_same[of _ "Failed err"]) (simp_all add: al_reconcileServiceAccount_def Let_def)
next
  case (Inr e)
  let ?key = "NamespacedName ns (m_Name (sa_Meta e))"
  have "al_reconcileServiceAccount r inst ns =
      get_or_create (cl_accounts (r_client r)) ?key (Inr e) (\<lambda>found w. (Done, w))"
    by (rule ext) (simp add: al_reconcileServiceAccount_def Let_def Inr)
  moreover have "al_reconcileServiceAccount (flaky r) inst ns =
      get_or_create (flaky_ops (cl_accounts (r_client r))) ?key (Inr e) (\<lambda>found w. (Done, w))"
    by (rule ext) (simp add: al_reconcileServiceAccount_def Let_def Inr)
  ultimately show ?thesis by (simp only: tolerates_created[OF lawful_stores(4)[OF law]])
qed

lemma expected_workloads_flaky [simp]:
  "expected_daemonset (flaky r) inst ns = expected_daemonset r inst ns"
  "expected_policy (flaky r) inst ns = expected_policy r inst ns"
  by (simp_all add: expected_daemonset_def expected_policy_def)

lemma daemonset_method_tolerates:
  assumes law: "lawful view ad r"
  shows "tolerates view (daemonset_method r inst ns) (daemonset_method (flaky r) inst ns)"
proof -
  have st: "stores view (cl_daemonsets (r_client r)) KDaemonSet ODaemonSet dset_Meta (ad_daemonset ad)"
    using law unfolding lawful_def stores_objects_def by blast
  show ?thesis
    unfolding daemonset_method_def Let_def expected_workloads_flaky flaky_simps flaky_client_simps flaky_owned
    by (rule tolerates_stored[OF st tolerates_settle_daemonset])
qed

text \<open>The removal of the policy controller: a read and a delete.\<close>

lemma removal_tolerates:
  assumes law: "lawful view ad r"
  shows "tolerates view (al_removeDisabledPolicyControllerDeploy r ns)
    (al_removeDisabledPolicyControllerDeploy (flaky r) ns)"
  unfolding tolerates_def
proof (intro allI)
  fix w fs
  let ?get = "op_get (cl_deployments (r_client r)) (NamespacedName ns AuditPolicyControllerDeploy)"
  note read = stores_read[OF lawful_stores(5)[OF law]]
  show "tolerated view w fs (al_removeDisabledPolicyControllerDeploy r ns w)
      (al_removeDisabledPolicyControllerDeploy (flaky r) ns (w, fs))"
  proof (cases rule: faulty_cases[of Inl ?get w fs])
    case (works fs')
    obtain res w1 where get: "?get w = (res, w1)" by (cases "?get w")
    have w1: "view w1 = view w" using read[of "NamespacedName ns AuditPolicyControllerDeploy" w] get by simp
    show ?thesis
    proof (cases res)
      case (Inl err)
      then show ?thesis
        using works get w1 by (simp add: al_removeDisabledPolicyControllerDeploy_def tolerated_def)
    next
      case (Inr d)
      have "tolerated view w1 fs' (change (op_delete (cl_deployments (r_client r))) d w1)
          (change (op_delete (flaky_ops (cl_deployments (r_client r)))) d (w1, fs'))"
        using tolerates_change_ops(2)[of view "cl_deployments (r_client r)" d] by (simp add: tolerates_def)
      from tolerated_later[OF this w1, of fs] show ?thesis
        using works get Inr by (simp add: al_removeDisabledPolicyControllerDeploy_def)
    qed
  next
    case (fails msg w' fs')
    have "view w' = view w" using fails(3) read[of "NamespacedName ns AuditPolicyControllerDeploy" w] by auto
    then show ?thesis
      by (intro tolerated_failsI[where err = "OtherError msg" and w' = w' and fs' = fs'])
        (use fails in \<open>simp_all add: al_removeDisabledPolicyControllerDeploy_def\<close>)
  qed
qed

lemma policy_method_tolerates:
  assumes law: "lawful view ad r"
  shows "tolerates view (policy_method r inst ns) (policy_method (flaky r) inst ns)"
proof -
  have "tolerates view (Pair Done) (Pair Done)" by (rule tolerates_same[of _ Done]) simp_all
  moreover have "tolerates view
      (get_or_create (cl_deployments (r_client r)) key obj (settle_deployment r e True))
      (get_or_create (flaky_ops (cl_deployments (r_client r))) key obj (settle_deployment (flaky r) e True))" for key obj e
    by (rule tolerates_stored[OF lawful_stores(5)[OF law] tolerates_settle_deployment])
  ultimately show ?thesis
    using removal_tolerates[OF law, of ns] by (simp add: policy_method_def Let_def)
qed

subsection \<open>The contract of the steps\<close>

lemma al_gauge_flaky:
  "al_expected_config (flaky r) inst ns = al_expected_config r inst ns"
  "policy_gauge (flaky r) inst ns = policy_gauge r inst ns" "daemonset_gauge (flaky r) inst ns = daemonset_gauge r inst ns"
  by (intro ext, simp only: al_expected_config_def flaky_simps)
    (simp_all only: policy_gauge_def daemonset_gauge_def flaky_simps expected_workloads_flaky)

lemma al_gauges_flaky: "al_gauges (flaky r) inst ns = al_gauges r inst ns"
  by (simp add: al_gauges_def al_parts_def comp_def al_gauge_flaky)

lemma al_parts_careful:
  assumes law: "lawful view ad r" and cluster: "m_Namespace (al_Meta inst) = []"
    and part: "(g, f) \<in> set (al_parts (flaky r) inst ns)"
  shows "careful view built g f"
proof -
  have "careful view built (policy_gauge r inst ns) (al_reconcilePolicyControllerDeployment (flaky r) inst ns)"
    by (rule careful_builder[OF policy_method_measured[OF law cluster] policy_method_tolerates[OF law]
          policy_method_built])
  moreover have "careful view built (daemonset_gauge r inst ns) (al_reconcileFluentdDaemonSet (flaky r) inst ns)"
    by (rule careful_builder[OF daemonset_method_measured[OF law cluster] daemonset_method_tolerates[OF law]
          daemonset_method_built])
  moreover note careful_lift_world[OF al_configs_measured[OF law cluster] al_config_tolerates[OF law]]
    careful_lift_world[OF al_job_measured[OF law cluster] al_job_tolerates[OF law]]
    careful_lift_world[OF al_cert_measured[OF law cluster] al_cert_tolerates[OF law]]
    careful_lift_world[OF al_account_measured[OF law cluster] al_account_tolerates[OF law]]
    careful_lift_world[OF al_service_measured[OF law cluster] al_service_tolerates[OF law]]
  ultimately show ?thesis using part by (auto simp: al_parts_def al_gauge_flaky)
qed

lemma al_resilient:
  "resilient (al_steps (flaky r) inst ns) (\<lambda>k s. steps_rank view (al_gauges r inst ns) k (no_faults s))
     (\<lambda>s. al_inv view ad r inst req ns c0 (no_faults s)) faults_left"
proof -
  have gs: "map fst (al_parts (flaky r) inst ns) = map fst (al_parts r inst ns)"
    using al_gauges_flaky[of r inst ns] by (simp only: al_gauges_def)
  note res = parts_resilient[of "lawful view ad r \<and> m_Namespace (al_Meta inst) = []" "al_parts (flaky r) inst ns"
      view built "\<lambda>c. al_alone r inst req ns c \<and> others_kept (map fst (al_parts r inst ns)) c0 c", unfolded gs]
  show ?thesis
    unfolding al_inv_parts al_steps_def al_gauges_def
  proof (rule res)
    show "distinct (map g_key (map fst (al_parts r inst ns)))"
      using al_keys_distinct[of r inst ns] by (simp only: al_gauges_def)
  qed (use al_parts_careful al_alone_put others_kept_put in blast)+
qed

interpretation al_faults: resilient "al_steps (flaky r) inst ns"
    "\<lambda>k s. steps_rank view (al_gauges r inst ns) k (no_faults s)"
    "\<lambda>s. al_inv view ad r inst req ns c0 (no_faults s)" faults_left
  for r inst ns view ad req c0
  by (rule al_resilient)

subsection \<open>Requests about the resource\<close>

lemma al_faults_total:
  assumes "objects (view (fst (fst s'))) = objects (view (fst (fst s)))"
  shows "al_faults.total r inst ns view s' = al_faults.total r inst ns view s"
    "al_faults.settled r inst ns view s' = al_faults.settled r inst ns view s"
proof -
  have "steps_rank view gs k (no_faults s') = steps_rank view gs k (no_faults s)" for gs k
    using steps_objects(2)[of view "fst (fst s')" "fst (fst s)", OF assms] by (simp add: no_faults_def)
  then show "al_faults.total r inst ns view s' = al_faults.total r inst ns view s"
    "al_faults.settled r inst ns view s' = al_faults.settled r inst ns view s"
    by (simp_all add: al_faults.total_def al_faults.settled_def)
qed

text \<open>A round may begin and end with requests that do not touch the operands.\<close>

lemma al_verdict_failed:
  "objects (view w') = objects (view w) \<Longrightarrow> length fs' < length fs \<Longrightarrow>
   al_faults.verdict r inst ns view ((w, fs), g) (Failed err) ((w', fs'), g')"
  by (simp add: al_faults.verdict_def al_faults_total(1)[of view "((w', fs'), g')" "((w, fs), g)"])

lemma al_verdict_before:
  "al_faults.verdict r inst ns view ((w1, fs1), g1) res s' \<Longrightarrow> objects (view w1) = objects (view w) \<Longrightarrow>
   length fs1 \<le> length fs \<Longrightarrow> al_faults.verdict r inst ns view ((w, fs), g) res s'"
  by (auto simp: al_faults.verdict_def al_faults_total(1)[of view "((w1, fs1), g1)" "((w, fs), g)"])

lemma al_verdict_after:
  assumes "al_faults.verdict r inst ns view s Done ((w1, fs1), g1)" "objects (view w') = objects (view w1)"
    and "length fs' \<le> length fs1" "res = Done \<or> (\<exists>err. res = Failed err) \<and> length fs' < length fs1"
  shows "al_faults.verdict r inst ns view s res ((w', fs'), g')"
  using assms al_faults_total[of view "((w', fs'), g')" "((w1, fs1), g1)" r inst ns]
  by (auto simp: al_faults.verdict_def)

text \<open>A request for the status.\<close>

lemma al_faulty_status:
  assumes inv: "al_inv view ad r inst req ns c0 (w, g)" and serves: "serves_audit view (r_cr r)"
    and x: "same_audit inst x"
  obtains (works) b w' fs' where "cr_status_audit (r_cr (flaky r)) x (w, fs) = (Inr b, (w', fs'))"
      "same_audit inst b" "objects (view w') = objects (view w)" "al_inv view ad r inst req ns c0 (w', g)"
      "length fs' \<le> length fs"
  | (fails) err w' fs' where "cr_status_audit (r_cr (flaky r)) x (w, fs) = (Inl err, (w', fs'))"
      "objects (view w') = objects (view w)" "al_inv view ad r inst req ns c0 (w', g)" "length fs' < length fs"
proof -
  obtain b w1 where b: "cr_status_audit (r_cr r) x w = (Inr b, w1)" "same_audit inst b"
      "objects (view w1) = objects (view w)" "al_inv view ad r inst req ns c0 (w1, g)"
    using al_status_request[OF inv serves x] .
  show ?thesis
  proof (cases rule: faulty_cases[of Inl "cr_status_audit (r_cr r) x" w fs])
    case (works fs')
    then show ?thesis using b by (intro that(1)[of b w1 fs']) simp_all
  next
    case (fails msg w' fs')
    then show ?thesis using b inv by (intro that(2)[of "OtherError msg" w' fs']) auto
  qed
qed

text \<open>
  The lists that the checks read: whatever happens, nobody else is found. After them the policy of the resource is
  set by default, or the methods run.
\<close>

definition al_after_checks :: "'w reconciler \<Rightarrow> AuditLogging \<Rightarrow> string \<Rightarrow> 'w state \<Rightarrow> outcome \<times> 'w state" where
  "al_after_checks r inst ns =
     (if al_decided inst then al_run r inst ns else lift_world (al_enablePolicyControllerByDefault r inst))"

lemma al_check_passes_faults:
  assumes inv: "al_inv view ad r inst req ns c0 (w, g)" and serves: "serves_audit view (r_cr r)"
  obtains w' fs' where "al_check_and_run (flaky r) b ((w, fs), g) = al_after_checks (flaky r) b ns ((w', fs'), g)"
    "view w' = view w" "length fs' \<le> length fs"
proof -
  have adm: "length (audits (view w)) \<le> 1" "GetCSNamespace (r_env r) = Inr ns"
      "filter (\<lambda>a. ns = [] \<or> ca_Namespace a = ns) (commons (view w)) = []"
    using inv by (simp_all add: al_inv_def al_alone_def)
  note lists = serves_audit_rest(1,2)[OF serves]
  obtain l1 w1 fs1 where w1: "cr_list_audit (r_cr (flaky r)) (w, fs) = (l1, (w1, fs1))" by (metis prod.collapse)
  have l1: "view w1 = view w" "length fs1 \<le> length fs" "l1 = Inr (audits (view w)) \<or> (\<exists>err. l1 = Inl err)"
    using w1 lists(2)[of w]
    by (cases rule: faulty_cases[of Inl "cr_list_audit (r_cr r)" w fs]; auto)+
  obtain l2 w2 fs2 where w2: "cr_list_common (r_cr (flaky r)) ns (w1, fs1) = (l2, (w2, fs2))"
    by (metis prod.collapse)
  have l2: "view w2 = view w" "length fs2 \<le> length fs" "l2 = Inr [] \<or> (\<exists>err. l2 = Inl err)"
    using w2 lists(1)[of ns w1] l1 adm(3)
    by (cases rule: faulty_cases[of Inl "cr_list_common (r_cr r) ns" w1 fs1]; auto)+
  let ?w3 = "cr_event (r_cr r) \<lparr>e_About = meta_key (al_Meta b), e_Type = EventTypeNormal,
      e_Reason = ''Initializing'', e_Message = ''Instance found''\<rparr> w2"
  have "al_check_and_run (flaky r) b ((w, fs), g) = al_after_checks (flaky r) b ns ((?w3, fs2), g)"
    using w1 w2 adm l1(3) l2(3)
    by (auto simp: al_check_and_run_def al_after_checks_def al_decided_def al_updateEvent_def Let_def)
  then show ?thesis
    by (rule that) (simp_all add: serves_audit_rest(3)[OF serves] l2)
qed

text \<open>The way to the methods, and the end of a round in which all of them are done.\<close>

lemma al_entry_faults:
  assumes inv: "al_inv view ad r inst req ns c0 (w, g)" and serves: "serves_audit view (r_cr r)"
  obtains (runs) b w' fs' where "al_Reconcile (flaky r) req ((w, fs), g) = al_after_checks (flaky r) b ns ((w', fs'), g)"
      "same_audit inst b" "objects (view w') = objects (view w)" "al_inv view ad r inst req ns c0 (w', g)"
      "length fs' \<le> length fs"
  | (fails) err w' fs' where "al_Reconcile (flaky r) req ((w, fs), g) = (Failed err, ((w', fs'), g))"
      "objects (view w') = objects (view w)" "al_inv view ad r inst req ns c0 (w', g)" "length fs' < length fs"
proof -
  obtain a where a: "find (\<lambda>a. meta_key (al_Meta a) = req) (audits (view w)) = Some a" "same_audit inst a"
    using inv by (auto simp: al_inv_def al_alone_def)
  obtain b w1 where b: "cr_get_audit (r_cr r) req w = (Inr b, w1)" "same_audit a b" "view w1 = view w"
    using serves_audit_get[OF serves a(1)] by metis
  have same: "same_audit inst b" using same_audit_trans[OF a(2) b(2)] .
  show ?thesis
  proof (cases rule: faulty_cases[of Inl "cr_get_audit (r_cr r) req" w fs])
    case (fails msg w' fs')
    then have "view w' = view w" using b by auto
    with fails show ?thesis
      using al_inv_view[OF inv] by (intro that(2)[of "OtherError msg" w' fs']) (simp_all add: al_Reconcile_def)
  next
    case (works fs1)
    note inv1 = al_inv_view[OF inv b(3)]
    have get: "al_Reconcile (flaky r) req ((w, fs), g) =
        (if length (elems (al_Nodes (al_Status b))) = 0
         then (case cr_status_audit (r_cr (flaky r)) (al_default_status b) (w1, fs1) of
                 (Inl err, w) \<Rightarrow> (Failed err, (w, g))
               | (Inr inst, w) \<Rightarrow> al_check_and_run (flaky r) inst (w, g))
         else al_check_and_run (flaky r) b ((w1, fs1), g))"
      using works b by (simp add: al_Reconcile_def split: prod.split sum.split)
    show ?thesis
    proof (cases "length (elems (al_Nodes (al_Status b))) = 0")
      case True
      have "same_audit inst (al_default_status b)"
        using same by (simp add: same_audit_def al_default_status_def)
      from inv1 serves this show ?thesis
      proof (cases rule: al_faulty_status[where fs = fs1])
        case (works b2 w2 fs2)
        obtain w3 fs3 where w3: "al_check_and_run (flaky r) b2 ((w2, fs2), g) = al_after_checks (flaky r) b2 ns ((w3, fs3), g)"
            "view w3 = view w2" "length fs3 \<le> length fs2"
          using al_check_passes_faults[OF works(4) serves] .
        show ?thesis
          by (rule that(1)[OF _ works(2) _ al_inv_view[OF works(4) w3(2)], of fs3])
            (use get True works w3 b \<open>length fs1 \<le> length fs\<close> in simp_all)
      next
        case (fails err w2 fs2)
        show ?thesis
          by (rule that(2)[of err w2 fs2]) (use get True fails b \<open>length fs1 \<le> length fs\<close> in simp_all)
      qed
    next
      case False
      obtain w3 fs3 where w3: "al_check_and_run (flaky r) b ((w1, fs1), g) = al_after_checks (flaky r) b ns ((w3, fs3), g)"
          "view w3 = view w1" "length fs3 \<le> length fs1"
        using al_check_passes_faults[OF inv1 serves] .
      show ?thesis
        by (rule that(1)[OF _ same _ al_inv_view[OF inv1 w3(2)], of fs3])
          (use get False w3 b works(2) in simp_all)
    qed
  qed
qed

lemma al_pods_faults:
  assumes law: "lawful view ad r"
  obtains (works) pods w' fs' where "cl_list_pods (r_client (flaky r)) ns sel (w, fs) = (Inr pods, (w', fs'))"
      "view w' = view w" "length fs' \<le> length fs"
  | (fails) err w' fs' where "cl_list_pods (r_client (flaky r)) ns sel (w, fs) = (Inl err, (w', fs'))"
      "view w' = view w" "length fs' < length fs"
proof -
  obtain pods w1 where w1: "cl_list_pods (r_client r) ns sel w = (Inr pods, w1)" "view w1 = view w"
    using law unfolding lawful_def stores_objects_def by metis
  show ?thesis
  proof (cases rule: faulty_cases[of Inl "cl_list_pods (r_client r) ns sel" w fs])
    case (works fs')
    then show ?thesis using w1 by (intro that(1)[of pods w1 fs']) simp_all
  next
    case (fails msg w' fs')
    then show ?thesis using w1 by (intro that(2)[of "OtherError msg" w' fs']) auto
  qed
qed

lemma al_status_faults:
  assumes inv: "al_inv view ad r inst req ns c0 (w, g)" and serves: "serves_audit view (r_cr r)"
    and same: "same_audit inst b"
  obtains res w' fs' where "al_updateStatus (flaky r) b ns (w, fs) = (res, (w', fs'))"
    "objects (view w') = objects (view w)" "al_inv view ad r inst req ns c0 (w', g)" "length fs' \<le> length fs"
    "res = Done \<or> (\<exists>err. res = Failed err) \<and> length fs' < length fs"
proof -
  have law: "lawful view ad r" using inv by (simp add: al_inv_def)
  let ?sel1 = "LabelsForSelector FluentdName (al_Name b)"
    and ?sel2 = "LabelsForSelector AuditPolicyControllerDeploy (al_Name b)"
  from law show ?thesis
  proof (cases rule: al_pods_faults[where ns = ns and sel = ?sel1 and w = w and fs = fs])
    case (fails err w' fs')
    then show ?thesis
      using al_inv_view[OF inv] by (intro that[of "Failed err" w' fs']) (simp_all add: al_updateStatus_def)
  next
    case (works pods w1 fs1)
    note one = works
    from law show ?thesis
    proof (cases rule: al_pods_faults[where ns = ns and sel = ?sel2 and w = w1 and fs = fs1])
      case (fails err w' fs')
      then show ?thesis
        using one al_inv_view[OF inv] by (intro that[of "Failed err" w' fs']) (simp_all add: al_updateStatus_def)
    next
      case (works policyPods w2 fs2)
      let ?nodes = "status_nodes (pods @ policyPods)"
      let ?status = "b\<lparr>al_Status := \<lparr>al_Nodes = ?nodes, al_Versions = \<lparr>Reconciled = opversion\<rparr>\<rparr>\<rparr>"
      have view: "view w2 = view w" using one works by simp
      note inv2 = al_inv_view[OF inv view]
      have list: "al_updateStatus (flaky r) b ns (w, fs) =
          (if ?nodes \<noteq> al_Nodes (al_Status b) \<or> opversion \<noteq> Reconciled (al_Versions (al_Status b))
           then (case cr_status_audit (r_cr (flaky r)) ?status (w2, fs2) of
                   (Inl err, w) \<Rightarrow> (Failed err, w) | (Inr _, w) \<Rightarrow> (Done, w))
           else (Done, (w2, fs2)))"
        using one works by (simp add: al_updateStatus_def Let_def)
      show ?thesis
      proof (cases "?nodes \<noteq> al_Nodes (al_Status b) \<or> opversion \<noteq> Reconciled (al_Versions (al_Status b))")
        case False
        then show ?thesis
          using list one works view inv2 by (intro that[of Done w2 fs2]) simp_all
      next
        case True
        have len: "length fs2 \<le> length fs" using one works by simp
        have "same_audit inst ?status" using same by (simp add: same_audit_def)
        from inv2 serves this show ?thesis
        proof (cases rule: al_faulty_status[where fs = fs2])
          case (works b2 w3 fs3)
          then show ?thesis using list True view len by (intro that[of Done w3 fs3]) simp_all
        next
          case (fails err w3 fs3)
          then show ?thesis using list True view len by (intro that[of "Failed err" w3 fs3]) simp_all
        qed
      qed
    qed
  qed
qed

subsection \<open>Rounds\<close>

lemma al_run_faults:
  assumes inv: "al_inv view ad r inst req ns c0 (w, g)" and serves: "serves_audit view (r_cr r)"
    and same: "same_audit inst b"
  shows "\<exists>res s'. al_run (flaky r) b ns ((w, fs), g) = (res, s') \<and> al_inv view ad r inst req ns c0 (no_faults s') \<and>
    al_faults.verdict r inst ns view ((w, fs), g) res s'"
proof -
  have "al_inv view ad r inst req ns c0 (no_faults ((w, fs), g))" using inv by simp
  from al_faults.round[OF this] obtain res s1 where
    s1: "run_reconcilers (map snd (al_steps (flaky r) inst ns)) ((w, fs), g) = (res, s1)"
      "al_inv view ad r inst req ns c0 (no_faults s1)" "al_faults.verdict r inst ns view ((w, fs), g) res s1" by blast
  obtain w1 fs1 g1 where s1': "s1 = ((w1, fs1), g1)" by (metis prod.collapse)
  have run: "run_reconcilers (map snd (al_steps (flaky r) b ns)) ((w, fs), g) = (res, s1)"
    using s1(1) al_run_same[OF same, of "flaky r" ns] by simp
  show ?thesis
  proof (cases "res = Done")
    case False
    then have "al_run (flaky r) b ns ((w, fs), g) = (res, s1)"
      using run by (simp add: al_run_def al_reconcilers_flat run_reconcilers_append stops_def s1')
    then show ?thesis using s1 by blast
  next
    case True
    have "al_inv view ad r inst req ns c0 (w1, g1)" using s1(2) by (simp add: s1')
    from this serves same obtain res2 w2 fs2 where
      w2: "al_updateStatus (flaky r) b ns (w1, fs1) = (res2, (w2, fs2))" "objects (view w2) = objects (view w1)"
        "al_inv view ad r inst req ns c0 (w2, g1)" "length fs2 \<le> length fs1"
        "res2 = Done \<or> (\<exists>err. res2 = Failed err) \<and> length fs2 < length fs1"
      by (rule al_status_faults)
    define w3 where "w3 = (if res2 = Done then al_updateEvent r b msg_deployed EventTypeNormal ''Deployed'' w2 else w2)"
    have w3: "view w3 = view w2"
      by (simp add: w3_def al_updateEvent_def serves_audit_rest(3)[OF serves])
    have "al_run (flaky r) b ns ((w, fs), g) = (res2, ((w3, fs2), g1))"
      using run w2(1) True
      by (simp add: al_run_def al_reconcilers_flat run_reconcilers_append stops_def s1' lift_world_def w3_def
          al_updateEvent_def)
    moreover have "al_faults.verdict r inst ns view ((w, fs), g) res2 ((w3, fs2), g1)"
      using al_verdict_after[of r inst ns view _ w1 fs1 g1 w3 fs2 res2] s1(3) True w2 w3 by (simp add: s1')
    moreover have "al_inv view ad r inst req ns c0 (w3, g1)" using al_inv_view[OF w2(3) w3] .
    ultimately show ?thesis by auto
  qed
qed

lemma al_round_faults:
  assumes inv: "al_inv view ad r inst req ns c0 (no_faults s)" and serves: "serves_audit view (r_cr r)"
    and decided: "al_decided inst"
  shows "\<exists>res s'. al_Reconcile (flaky r) req s = (res, s') \<and> al_inv view ad r inst req ns c0 (no_faults s') \<and>
    al_faults.verdict r inst ns view s res s'"
proof -
  obtain w fs g where s: "s = ((w, fs), g)" by (metis prod.collapse)
  have "al_inv view ad r inst req ns c0 (w, g)" using inv by (simp add: s)
  from this serves show ?thesis
  proof (cases rule: al_entry_faults[where fs = fs])
    case (runs b w' fs')
    have "al_decided b" using al_decided_same[OF runs(2)] decided by simp
    then have "al_Reconcile (flaky r) req ((w, fs), g) = al_run (flaky r) b ns ((w', fs'), g)"
      using runs(1) by (simp add: al_after_checks_def)
    with runs show ?thesis using al_run_faults[OF runs(4) serves runs(2), of fs'] al_verdict_before s by metis
  next
    case (fails err w' fs')
    then show ?thesis using al_verdict_failed[of view w' w fs' fs r inst ns g err g] s by auto
  qed
qed

lemma al_faults_ranks:
  "al_faults.total r inst ns view s = al.total r inst ns view (no_faults s)"
  "al_faults.settled r inst ns view s = al.settled r inst ns view (no_faults s)"
proof -
  have keys: "map fst (al_steps (flaky r) inst ns) = map fst (al_steps r inst ns)"
    by (simp only: al_steps_keys al_gauges_flaky)
  show "al_faults.total r inst ns view s = al.total r inst ns view (no_faults s)"
    unfolding al_faults.total_def al.total_def keys ..
  have "fst ` set (al_steps (flaky r) inst ns) = fst ` set (al_steps r inst ns)" using keys by (metis list.set_map)
  then show "al_faults.settled r inst ns view s = al.settled r inst ns view (no_faults s)"
    unfolding al_faults.settled_def al.settled_def by simp
qed

subsection \<open>Properties\<close>

text \<open>C6: The controller of AuditLogging converges although requests fail. Under the hypotheses of the
  convergence without faults, let any requests fail, before the server has carried them out or after, as the
  schedule fs says, and let the controller runtime run Reconcile again after every requeue and after every
  error. Then it ends without an error after at most 25 rounds and one more for each fault, every operand is
  in place and the policy controller deployed or gone, as the resource says. No object but the operands is
  touched, however the requests fail, and of the resources only the status.\<close>

theorem audit_logging_survives_faults:
  assumes "lawful view ad r" "serves_audit view (r_cr r)"
    and "m_Namespace (al_Meta inst) = []" "al_admitted r inst req ns (view w)"
    and "steps_wf view (al_gauges r inst ns) w" "built g"
  shows "\<exists>w' fs' g'. retries (25 + length fs) (al_Reconcile (flaky r) req) ((w, fs), g) =
      Some (Done, ((w', fs'), g')) \<and>
    audit_in_place r inst ns (view w') \<and> others_kept (al_gauges r inst ns) (view w) (view w')"
proof -
  let ?inv = "\<lambda>s. al_inv view ad r inst req ns (view w) (no_faults s)"
  have "al_inv view ad r inst req ns (view w) (w, g)"
    using assms by (simp add: al_inv_def al_admitted_def others_kept_def)
  then have inv': "?inv ((w, fs), g)" by simp
  have decided: "al_decided inst" using assms(4) by (simp add: al_admitted_def)
  have "al_faults.total r inst ns view ((w, fs), g) + faults_left ((w, fs), g) < 25 + length fs"
    using al_total_bound[of r inst ns view "(w, g)"] by (simp add: al_faults_ranks)
  then obtain s' where s': "retries (25 + length fs) (al_Reconcile (flaky r) req) ((w, fs), g) = Some (Done, s')"
      "?inv s'" "al_faults.settled r inst ns view s'"
    using al_faults.retries_settle[where P = ?inv, OF al_round_faults[OF _ assms(2) decided] inv'] by blast
  obtain w' fs' g' where eq: "s' = ((w', fs'), g')" by (metis prod.collapse)
  have "al_inv view ad r inst req ns (view w) (w', g')" using s'(2) by (simp add: eq)
  moreover have "al.settled r inst ns view (w', g')" using s'(3) by (simp add: eq al_faults_ranks)
  ultimately have "audit_in_place r inst ns (view w')" "others_kept (al_gauges r inst ns) (view w) (view w')"
    using al_settled_in_place[of view ad r inst req ns "view w" "(w', g')"] by (simp_all add: al_inv_def)
  then show ?thesis using s'(1) eq by blast
qed

text \<open>The policy controller is deleted, but the answer is lost, and the next request does not get through.\<close>

definition sample_audit_faults :: "fault list" where
  "sample_audit_faults = replicate 12 Works @ [Lost ''timeout'', Fails ''connection refused'']"

theorem audit_logging_survives_faults_witness:
  "\<exists>c fs g. retries 39 (al_Reconcile (flaky (memory_reconciler ''cs'')) (NamespacedName [] ''al''))
      ((sample_audit_cluster, sample_audit_faults), init_globals) = Some (Done, ((c, fs), g)) \<and>
    audit_in_place (memory_reconciler ''cs'') sample_audit ''cs'' (stored c) \<and>
    others_kept (al_gauges (memory_reconciler ''cs'') sample_audit ''cs'') (stored sample_audit_cluster) (stored c)"
proof -
  have "25 + length sample_audit_faults = 39" by (simp add: sample_audit_faults_def)
  with audit_logging_survives_faults[OF memory_lawful memory_serves(2) sample_cluster_scoped
      sample_audit_admitted sample_audit_readable built.init, of sample_audit_faults]
  show ?thesis by metis
qed

end
