(* ===== verification/OperatorRequests.thy ===== *)
theory OperatorRequests
  imports CommonAuditFaults AuditLoggingFaults
begin

text \<open>
  The two controllers side by side, in a cluster with any number of resources: the requests they are called with,
  the objects that each request is about, and what the controllers expect of the cluster. The objects of different
  requests are different.
\<close>

subsection \<open>Requests\<close>

text \<open>The controller runtime keeps a work queue per controller; a request is the key of a resource.\<close>

datatype request = CommonRequest nsname | AuditRequest nsname

definition serve :: "'w reconciler \<Rightarrow> request \<Rightarrow> 'w state \<Rightarrow> outcome \<times> 'w state" where
  "serve r q = (case q of CommonRequest k \<Rightarrow> ca_Reconcile r k | AuditRequest k \<Rightarrow> al_Reconcile r k)"

definition common_at :: "cluster \<Rightarrow> nsname \<Rightarrow> CommonAudit option" where
  "common_at c k = find (\<lambda>a. meta_key (ca_Meta a) = k) (commons c)"

definition audit_at :: "cluster \<Rightarrow> nsname \<Rightarrow> AuditLogging option" where
  "audit_at c k = find (\<lambda>a. meta_key (al_Meta a) = k) (audits c)"

text \<open>The requests about the resources that exist, and the gauges of the operands of a request.\<close>

definition requests :: "cluster \<Rightarrow> request set" where
  "requests c = (\<lambda>a. CommonRequest (meta_key (ca_Meta a))) ` set (commons c) \<union>
     (\<lambda>a. AuditRequest (meta_key (al_Meta a))) ` set (audits c)"

definition gauges_of :: "'w reconciler \<Rightarrow> string \<Rightarrow> cluster \<Rightarrow> request \<Rightarrow> gauge list" where
  "gauges_of r ns c q =
     (case q of
        CommonRequest k \<Rightarrow> (case common_at c k of None \<Rightarrow> [] | Some a \<Rightarrow> ca_gauges r a)
      | AuditRequest k \<Rightarrow> (case audit_at c k of None \<Rightarrow> [] | Some a \<Rightarrow> al_gauges r a ns))"

text \<open>How far the operands of a request are from being in place.\<close>

definition pending :: "'w reconciler \<Rightarrow> string \<Rightarrow> cluster \<Rightarrow> request \<Rightarrow> nat" where
  "pending r ns c q = (\<Sum>g \<leftarrow> gauges_of r ns c q. value_rank g (objects c (g_key g)))"

lemma finite_requests [simp]: "finite (requests c)"
  by (simp add: requests_def)

lemma common_at_in:
  "common_at c k = Some a \<Longrightarrow> a \<in> set (commons c) \<and> meta_key (ca_Meta a) = k"
  by (auto simp: common_at_def find_Some_iff)

lemma audit_at_in: "audit_at c k = Some a \<Longrightarrow> a \<in> set (audits c) \<and> meta_key (al_Meta a) = k"
  by (auto simp: audit_at_def find_Some_iff)

lemma gauges_of_none: "q \<notin> requests c \<Longrightarrow> gauges_of r ns c q = []"
  by (auto simp: gauges_of_def requests_def dest!: common_at_in audit_at_in split: request.split option.split)

lemma pending_none: "q \<notin> requests c \<Longrightarrow> pending r ns c q = 0"
  by (simp add: pending_def gauges_of_none)

subsection \<open>The same resources have the same gauges\<close>

lemma ca_gauges_core: "ca_gauges r (core a) = ca_gauges r a"
proof -
  have conf: "configured (core a) = configured a" by (rule ext) (simp only: configured_def core_simps)
  have "config_rank (core a) = config_rank a" "config_wf (core a) = config_wf a"
    by (intro ext, simp only: config_rank_def config_wf_def ca_config_drift_core conf)+
  then have "config_gauge (core a) name (expected_config r (core a) name) =
      config_gauge a name (expected_config r a name)" for name
    by (simp only: config_gauge_def expected_config_def BuildFluentdConfigMap_core core_simps)
  moreover have "expected_https_cert (core a) = expected_https_cert a" "secret_gauge (core a) = secret_gauge a"
      "account_gauge (core a) = account_gauge a" "fluentd_gauge r (core a) = fluentd_gauge r a"
    by (simp_all only: expected_https_cert_def secret_gauge_def account_gauge_def fluentd_gauge_def
        expected_fluentd_def BuildDeploymentForFluentd_core core_simps)
  ultimately show ?thesis by (simp add: ca_gauges_def ca_parts_def core_simps)
qed

lemma al_gauges_core: "al_gauges r (al_core a) ns = al_gauges r a ns"
proof -
  have "al_expected_config r (al_core a) ns = al_expected_config r a ns"
      "al_expected_cert (al_core a) ns = al_expected_cert a ns"
      "daemonset_gauge r (al_core a) ns = daemonset_gauge r a ns" "policy_gauge r (al_core a) ns = policy_gauge r a ns"
    by (intro ext, simp only: al_expected_config_def al_expected_cert_def al_builders_core al_core_simps)+
      (simp_all only: daemonset_gauge_def expected_daemonset_def policy_gauge_def expected_policy_def
        al_builders_core al_core_simps)
  then show ?thesis by (simp add: al_gauges_def al_parts_def al_core_simps)
qed

lemma same_gauges:
  "same_common a b \<Longrightarrow> ca_gauges r a = ca_gauges r b"
  "same_audit a' b' \<Longrightarrow> al_gauges r a' ns = al_gauges r b' ns"
  using ca_gauges_core same_common_core al_gauges_core same_audit_core by metis+

lemma find_related:
  "list_all2 R as bs \<Longrightarrow> (\<And>a b. R a b \<Longrightarrow> f b = f a) \<Longrightarrow>
   rel_option R (find (\<lambda>a. f a = k) as) (find (\<lambda>a. f a = k) bs)"
  by (induction rule: list_all2_induct) auto

lemma same_resources_at:
  assumes "same_resources c c'"
  shows "rel_option same_common (common_at c k) (common_at c' k)" "rel_option same_audit (audit_at c k) (audit_at c' k)"
  using assms unfolding same_resources_def common_at_def audit_at_def
  by (auto intro!: find_related simp: same_common_def same_audit_def)

text \<open>The resource of a request is the same in both clusters.\<close>

definition same_resource :: "cluster \<Rightarrow> cluster \<Rightarrow> request \<Rightarrow> bool" where
  "same_resource c c' q \<longleftrightarrow>
     (case q of CommonRequest k \<Rightarrow> rel_option same_common (common_at c k) (common_at c' k)
      | AuditRequest k \<Rightarrow> rel_option same_audit (audit_at c k) (audit_at c' k))"

lemma same_resource_gauges:
  assumes "same_resource c c' q"
  shows "gauges_of r ns c' q = gauges_of r ns c q"
proof (cases q)
  case (CommonRequest k)
  with assms have "rel_option same_common (common_at c k) (common_at c' k)" by (simp add: same_resource_def)
  then show ?thesis by (cases rule: option.rel_cases) (simp_all add: gauges_of_def CommonRequest same_gauges(1))
next
  case (AuditRequest k)
  with assms have "rel_option same_audit (audit_at c k) (audit_at c' k)" by (simp add: same_resource_def)
  then show ?thesis by (cases rule: option.rel_cases) (simp_all add: gauges_of_def AuditRequest same_gauges(2))
qed

lemma same_resources_all: "same_resources c c' \<Longrightarrow> same_resource c c' q"
  using same_resources_at[of c c'] by (simp add: same_resource_def split: request.split)

subsection \<open>A cluster in order\<close>

text \<open>
  What the controllers expect of the resources of the cluster: those that they would refuse are left out, and the
  values of the others are ones they can work with.
\<close>

definition usable_resources :: "'w reconciler \<Rightarrow> string \<Rightarrow> cluster \<Rightarrow> bool" where
  "usable_resources r ns c \<longleftrightarrow> GetCSNamespace (r_env r) = Inr ns \<and> ns \<noteq> [] \<and>
     distinct (map ca_Namespace (commons c)) \<and> length (audits c) \<le> 1 \<and>
     (\<forall>a \<in> set (commons c). values_ok a \<and> usable_aliases a \<and> ca_Namespace a \<noteq> [] \<and>
        (audits c \<noteq> [] \<longrightarrow> ca_Namespace a \<noteq> ns)) \<and>
     (\<forall>a \<in> set (audits c). m_Namespace (al_Meta a) = [])"

text \<open>The operands that exist are readable.\<close>

definition readable :: "'w reconciler \<Rightarrow> string \<Rightarrow> cluster \<Rightarrow> request \<Rightarrow> bool" where
  "readable r ns c q \<longleftrightarrow> (\<forall>g \<in> set (gauges_of r ns c q). value_wf g (objects c (g_key g)))"

definition orderly :: "'w reconciler \<Rightarrow> string \<Rightarrow> cluster \<Rightarrow> bool" where
  "orderly r ns c \<longleftrightarrow> usable_resources r ns c \<and> (\<forall>q \<in> requests c. readable r ns c q)"

lemma orderly_readable: "orderly r ns c \<Longrightarrow> readable r ns c q"
  using gauges_of_none[of q c r ns] by (cases "q \<in> requests c") (auto simp: orderly_def readable_def)

text \<open>The operands of different resources are different objects.\<close>

lemma ca_gauge_key: "g \<in> set (ca_gauges r a) \<Longrightarrow> key_ns (snd (g_key g)) = ca_Namespace a"
  by (auto simp: ca_gauges_def ca_parts_def config_gauge_def issuer_gauge_def cert_gauge_def secret_gauge_def
      account_gauge_def service_gauge_def fluentd_gauge_def BuildGodIssuer_def BuildRootCAIssuer_def
      BuildRootCACert_def expected_https_cert_def BuildCertsForAuditLogging_def BuildAuditService_def Let_def meta_key_def)

lemma al_gauge_key: "g \<in> set (al_gauges r a ns) \<Longrightarrow> key_ns (snd (g_key g)) = ns"
  by (auto simp: al_gauges_def al_parts_def al_config_gauge_def job_gauge_def cert_gauge_def al_account_gauge_def
      service_gauge_def daemonset_gauge_def policy_gauge_def al_expected_cert_def BuildCertsForAuditLogging_def
      BuildAuditService_def Let_def meta_key_def)

lemma gauges_of_cases:
  assumes "g \<in> set (gauges_of r ns c q)"
  obtains (common) k a where "q = CommonRequest k" "common_at c k = Some a" "key_ns (snd (g_key g)) = ca_Namespace a"
  | (audit) k a where "q = AuditRequest k" "audit_at c k = Some a" "key_ns (snd (g_key g)) = ns"
proof (cases q)
  case (CommonRequest k)
  with assms obtain a where "common_at c k = Some a" "g \<in> set (ca_gauges r a)"
    by (cases "common_at c k") (auto simp: gauges_of_def)
  with common[OF CommonRequest] ca_gauge_key show ?thesis by blast
next
  case (AuditRequest k)
  with assms obtain a where "audit_at c k = Some a" "g \<in> set (al_gauges r a ns)"
    by (cases "audit_at c k") (auto simp: gauges_of_def)
  with audit[OF AuditRequest] al_gauge_key show ?thesis by blast
qed

lemma gauges_apart:
  assumes "usable_resources r ns c" "q \<noteq> q'" "g \<in> set (gauges_of r ns c q)" "g' \<in> set (gauges_of r ns c q')"
  shows "g_key g \<noteq> g_key g'"
proof -
  have audits: "k = k'" if "audit_at c k = Some a" "audit_at c k' = Some a'" for k k' a a'
  proof -
    have "a \<in> set (audits c)" "a' \<in> set (audits c)" "length (audits c) \<le> 1"
      using that assms(1) audit_at_in by (blast, blast, simp add: usable_resources_def)
    then have "a = a'" by (cases "audits c") auto
    then show ?thesis using that audit_at_in by metis
  qed
  have distinct: "inj_on ca_Namespace (set (commons c))"
    using assms(1) by (simp add: usable_resources_def distinct_map)
  have commons: "k = k'" if "common_at c k = Some a" "common_at c k' = Some a'" "ca_Namespace a = ca_Namespace a'" for k k' a a'
  proof -
    have "a = a'"
      using inj_onD[OF distinct] that common_at_in by blast
    then show ?thesis using that common_at_in by metis
  qed
  have both: "ca_Namespace a \<noteq> ns" if "common_at c k = Some a" "audit_at c k' = Some a'" for k k' a a'
    using that assms(1) common_at_in[of c k a] audit_at_in[of c k' a'] by (auto simp: usable_resources_def)
  show ?thesis
  proof
    assume eq: "g_key g = g_key g'"
    from assms(3) show False
    proof (cases rule: gauges_of_cases)
      case (common k a)
      from assms(4) show False
        by (cases rule: gauges_of_cases) (use common eq assms(2) commons both in metis)+
    next
      case (audit k a)
      from assms(4) show False
        by (cases rule: gauges_of_cases) (use audit eq assms(2) audits both in metis)+
    qed
  qed
qed

subsection \<open>What the operator does to resources\<close>

text \<open>
  Besides the status it changes one thing: an \<open>AuditLogging\<close> that does not say whether it wants the policy
  controller is given the default.
\<close>

definition with_policy :: "AuditLogging \<Rightarrow> AuditLogging" where
  "with_policy a = a\<lparr>al_Spec := (al_Spec a)\<lparr>al_PolicyController :=
     (al_policy a)\<lparr>EnableAuditPolicy := DefaultEnablePolicyController\<rparr>\<rparr>\<rparr>"

definition kept_audit :: "AuditLogging \<Rightarrow> AuditLogging \<Rightarrow> bool" where
  "kept_audit a b \<longleftrightarrow> same_audit a b \<or> \<not> al_decided a \<and> same_audit (with_policy a) b"

definition kept_resources :: "cluster \<Rightarrow> cluster \<Rightarrow> bool" where
  "kept_resources c c' \<longleftrightarrow> list_all2 same_common (commons c) (commons c') \<and> list_all2 kept_audit (audits c) (audits c')"

lemma with_policy_decided [simp]: "al_decided (with_policy a)"
  by (simp add: al_decided_def with_policy_def DefaultEnablePolicyController_def)

lemma kept_audit_key: "kept_audit a b \<Longrightarrow> meta_key (al_Meta b) = meta_key (al_Meta a)"
  by (auto simp: kept_audit_def same_audit_def with_policy_def)

lemma with_policy_same: "same_audit a b \<Longrightarrow> same_audit (with_policy a) (with_policy b)"
  by (simp add: same_audit_def with_policy_def)

lemma kept_audit_trans:
  assumes "kept_audit a b" "kept_audit b c"
  shows "kept_audit a c"
proof (cases "same_audit a b")
  case True
  then show ?thesis
    using assms(2) same_audit_trans[of _ b c] same_audit_trans[OF with_policy_same[OF True]] al_decided_same[OF True]
    unfolding kept_audit_def by blast
next
  case False
  then have a: "\<not> al_decided a" "same_audit (with_policy a) b" using assms(1) by (simp_all add: kept_audit_def)
  then have "al_decided b" using al_decided_same[OF a(2)] by simp
  then show ?thesis using assms(2) a same_audit_trans[OF a(2)] by (simp add: kept_audit_def)
qed

lemma same_kept: "same_resources c c' \<Longrightarrow> kept_resources c c'"
  unfolding same_resources_def kept_resources_def kept_audit_def by (auto elim: list_all2_mono)

lemma kept_resources_trans:
  assumes "kept_resources c c'" "kept_resources c' c''"
  shows "kept_resources c c''"
  using assms list_all2_trans[of same_common same_common same_common] same_common_trans
    list_all2_trans[of kept_audit kept_audit kept_audit] kept_audit_trans
  unfolding kept_resources_def by metis

lemma kept_resources_requests: "kept_resources c c' \<Longrightarrow> requests c' = requests c"
proof -
  have keys: "list_all2 R as bs \<Longrightarrow> (\<And>a b. R a b \<Longrightarrow> f a = f b) \<Longrightarrow> f ` set bs = f ` set as"
    for R :: "'x \<Rightarrow> 'x \<Rightarrow> bool" and as bs and f :: "'x \<Rightarrow> request"
    by (induction rule: list_all2_induct) auto
  assume "kept_resources c c'"
  then show ?thesis
    using keys[of same_common "commons c" "commons c'" "\<lambda>a. CommonRequest (meta_key (ca_Meta a))"]
      keys[of kept_audit "audits c" "audits c'" "\<lambda>a. AuditRequest (meta_key (al_Meta a))"] kept_audit_key
    by (simp add: requests_def kept_resources_def same_common_def)
qed

lemma usable_kept:
  assumes "kept_resources c c'" "usable_resources r ns c"
  shows "usable_resources r ns c'"
proof -
  have transfer: "list_all2 R as bs \<Longrightarrow> (\<And>a b. R a b \<Longrightarrow> P a \<Longrightarrow> P b) \<Longrightarrow> \<forall>a \<in> set as. P a \<Longrightarrow> \<forall>b \<in> set bs. P b"
    for R and P :: "'x \<Rightarrow> bool" and as bs by (induction rule: list_all2_induct) auto
  have rel: "list_all2 same_common (commons c) (commons c')" "list_all2 kept_audit (audits c) (audits c')"
    using assms(1) by (simp_all add: kept_resources_def)
  have "list_all2 same_common as bs \<Longrightarrow> map ca_Namespace bs = map ca_Namespace as" for as bs
    by (induction rule: list_all2_induct) (auto simp: same_common_def meta_key_def)
  moreover have "audits c' = [] \<longleftrightarrow> audits c = []" "length (audits c') = length (audits c)"
    using list_all2_lengthD[OF rel(2)] by auto
  moreover have "\<forall>a \<in> set (commons c'). values_ok a \<and> usable_aliases a \<and> ca_Namespace a \<noteq> [] \<and>
      (audits c \<noteq> [] \<longrightarrow> ca_Namespace a \<noteq> ns)"
    by (rule transfer[OF rel(1)])
      (use assms(2) in \<open>auto simp: same_common_def meta_key_def values_ok_def usable_aliases_def usable_resources_def\<close>)
  moreover have "\<forall>a \<in> set (audits c'). m_Namespace (al_Meta a) = []"
    by (rule transfer[OF rel(2)]) (use assms(2) kept_audit_key in \<open>auto simp: meta_key_def usable_resources_def\<close>)
  ultimately show ?thesis using rel(1) assms(2) by (simp add: usable_resources_def)
qed

text \<open>The operands of an \<open>AuditLogging\<close> and what is assumed of them do not depend on its policy.\<close>

lemma al_gauges_keys: "map g_key (al_gauges r a ns) = map g_key (al_gauges r b ns)"
proof -
  have "g_key (policy_gauge r a ns) = g_key (policy_gauge r b ns)" by (simp add: policy_gauge_def Let_def)
  moreover have "g_key (cert_gauge (al_expected_cert a ns name)) = g_key (cert_gauge (al_expected_cert b ns name))" for name
    by (simp add: cert_gauge_def al_expected_cert_def BuildCertsForAuditLogging_def Let_def meta_key_def)
  moreover have "g_key (service_gauge (BuildAuditService (al_Name a) ns)) = g_key (service_gauge (BuildAuditService (al_Name b) ns))"
    by (simp add: service_gauge_def service_key)
  ultimately show ?thesis
    by (simp add: al_gauges_def al_parts_def comp_def al_config_gauge_def daemonset_gauge_def)
qed

lemma al_gauges_wf:
  "(\<forall>g \<in> set (al_gauges r a ns). value_wf g (f (g_key g))) \<longleftrightarrow>
   (\<forall>name \<in> set FluentdConfigMaps. \<forall>ob. f (KConfigMap, NamespacedName ns name) = Some ob \<longrightarrow> al_config_wf name ob)"
proof -
  have "value_wf (policy_gauge r a ns) v" "value_wf (job_gauge ns) v" "value_wf (cert_gauge e) v"
      "value_wf (al_account_gauge ns) v" "value_wf (service_gauge sv) v" "value_wf (daemonset_gauge r a ns) v" for v e sv
    by (cases v; simp add: policy_gauge_def Let_def job_gauge_def cert_gauge_def al_account_gauge_def
        service_gauge_def daemonset_gauge_def)+
  moreover have "value_wf (al_config_gauge ns name e) v \<longleftrightarrow> (\<forall>ob. v = Some ob \<longrightarrow> al_config_wf name ob)" for name e v
    by (cases v) (simp_all add: al_config_gauge_def)
  moreover have "g_key (al_config_gauge ns name e) = (KConfigMap, NamespacedName ns name)" for name e
    by (simp add: al_config_gauge_def)
  ultimately show ?thesis by (simp add: al_gauges_def al_parts_def ball_Un)
qed

lemma kept_resources_at:
  assumes "kept_resources c c'"
  shows "rel_option same_common (common_at c k) (common_at c' k)" "rel_option kept_audit (audit_at c k) (audit_at c' k)"
  using assms kept_audit_key unfolding kept_resources_def common_at_def audit_at_def
  by (auto intro!: find_related simp: same_common_def)

lemma kept_resources_keys:
  assumes "kept_resources c c'"
  shows "g_key ` set (gauges_of r ns c' q) = g_key ` set (gauges_of r ns c q)"
proof (cases q)
  case (CommonRequest k)
  from kept_resources_at(1)[OF assms, of k] show ?thesis
    by (cases rule: option.rel_cases) (simp_all add: gauges_of_def CommonRequest same_gauges(1))
next
  case (AuditRequest k)
  have "g_key ` set (al_gauges r a ns) = g_key ` set (al_gauges r b ns)" for a b
    using al_gauges_keys[of r a ns b] by (metis list.set_map)
  with kept_resources_at(2)[OF assms, of k] show ?thesis
    by (cases rule: option.rel_cases) (simp_all add: gauges_of_def AuditRequest)
qed

text \<open>How far a resource is from being in place, the default that it may still need included.\<close>

definition undecided :: "cluster \<Rightarrow> request \<Rightarrow> bool" where
  "undecided c q \<longleftrightarrow> (case q of CommonRequest k \<Rightarrow> False
     | AuditRequest k \<Rightarrow> (case audit_at c k of None \<Rightarrow> False | Some a \<Rightarrow> \<not> al_decided a))"

definition load :: "'w reconciler \<Rightarrow> string \<Rightarrow> cluster \<Rightarrow> request \<Rightarrow> nat" where
  "load r ns c q = pending r ns c q + (if undecided c q then 25 else 0)"

lemma load_none: "q \<notin> requests c \<Longrightarrow> load r ns c q = 0"
  using audit_at_in
  by (fastforce simp: load_def pending_none undecided_def requests_def split: request.splits option.splits)

lemma same_resource_undecided: "same_resource c c' q \<Longrightarrow> undecided c' q = undecided c q"
  by (cases q) (auto simp: same_resource_def undecided_def al_decided_same elim!: option.rel_cases)

lemma same_resource_load:
  assumes "same_resource c c' q" "\<And>g. g \<in> set (gauges_of r ns c q) \<Longrightarrow> objects c' (g_key g) = objects c (g_key g)"
  shows "load r ns c' q = load r ns c q" "readable r ns c' q = readable r ns c q"
  using assms same_resource_gauges[OF assms(1), of r ns] same_resource_undecided[OF assms(1)]
  by (simp_all add: load_def pending_def readable_def cong: map_cong)

end
