(* ===== verification/OperatorRounds.thy ===== *)
theory OperatorRounds
  imports OperatorRequests
begin

text \<open>
  One round of either controller for any request, in a cluster with any number of resources and on a server whose
  requests may fail: what it does for its own resource, and that it leaves the operands of every other one alone.
\<close>

subsection \<open>One round\<close>

text \<open>In an orderly cluster each resource satisfies the invariant of its controller.\<close>

lemma orderly_ca_inv:
  assumes "lawful view ad r" "orderly r ns (view w)" "built g" "common_at (view w) k = Some a"
  shows "ca_inv view ad r a k (view w) (w, g)"
proof -
  have res: "usable_resources r ns (view w)" using assms(2) by (simp add: orderly_def)
  have a: "a \<in> set (commons (view w))" "meta_key (ca_Meta a) = k" using common_at_in[OF assms(4)] by auto
  have "gauges_of r ns (view w) (CommonRequest k) = ca_gauges r a" using assms(4) by (simp add: gauges_of_def)
  then have "steps_wf view (ca_gauges r a) w"
    using orderly_readable[OF assms(2), of "CommonRequest k"] by (simp add: readable_def steps_wf_def)
  moreover have "values_ok a" "usable_aliases a" using res a(1) by (auto simp: usable_resources_def)
  moreover have "ca_admitted r a k (view w)"
  proof -
    have ns: "key_ns k = ca_Namespace a" using a(2) by (auto simp: meta_key_def)
    have "length (filter (\<lambda>b. ca_Namespace b = ca_Namespace a) cs) \<le> 1" if "distinct (map ca_Namespace cs)" for cs
      using that by (induction cs) (auto simp: filter_empty_conv intro: rev_image_eqI)
    then show ?thesis
      using res a assms(4) ns same_common_refl
      by (auto simp: ca_admitted_def usable_resources_def common_at_def)
  qed
  ultimately show ?thesis using assms(1,3) by (simp add: ca_inv_def others_kept_def)
qed

lemma orderly_al_inv:
  assumes "lawful view ad r" "orderly r ns (view w)" "built g" "audit_at (view w) k = Some a"
  shows "al_inv view ad r a k ns (view w) (w, g)"
proof -
  have res: "usable_resources r ns (view w)" using assms(2) by (simp add: orderly_def)
  have a: "a \<in> set (audits (view w))" "meta_key (al_Meta a) = k" using audit_at_in[OF assms(4)] by auto
  have "gauges_of r ns (view w) (AuditRequest k) = al_gauges r a ns" using assms(4) by (simp add: gauges_of_def)
  then have "steps_wf view (al_gauges r a ns) w"
    using orderly_readable[OF assms(2), of "AuditRequest k"] by (simp add: readable_def steps_wf_def)
  moreover have "m_Namespace (al_Meta a) = []" using res a(1) by (auto simp: usable_resources_def)
  moreover have "al_alone r a k ns (view w)"
    using res a assms(4) same_audit_refl
    by (auto simp: al_alone_def usable_resources_def audit_at_def filter_empty_conv)
  ultimately show ?thesis using assms(1,3) by (simp add: al_inv_def others_kept_def)
qed

text \<open>The sum of the ranks of the steps is what is pending.\<close>

lemma ca_total_pending:
  "common_at c k = Some a \<Longrightarrow> same_common a b \<Longrightarrow> c = view w \<Longrightarrow>
   ca.total r b view (w, g) = pending r ns c (CommonRequest k)"
proof -
  have "ca.total r b view (w, g) = (\<Sum>h \<leftarrow> ca_gauges r b. value_rank h (objects (view w) (g_key h)))" for b
    using steps_rank_gauge[OF ca_keys_distinct, of _ r b view "(w, g)"]
    by (simp add: ca.total_def ca_steps_keys comp_def cong: map_cong)
  then show "common_at c k = Some a \<Longrightarrow> same_common a b \<Longrightarrow> c = view w \<Longrightarrow> ?thesis"
    using same_gauges(1)[of a b r] by (simp add: pending_def gauges_of_def)
qed

lemma al_total_pending:
  "audit_at c k = Some a \<Longrightarrow> same_audit a b \<Longrightarrow> c = view w \<Longrightarrow>
   al.total r b ns view (w, g) = pending r ns c (AuditRequest k)"
proof -
  have "al.total r b ns view (w, g) = (\<Sum>h \<leftarrow> al_gauges r b ns. value_rank h (objects (view w) (g_key h)))" for b
    using steps_rank_gauge[OF al_keys_distinct, of _ r b ns view "(w, g)"]
    by (simp add: al.total_def al_steps_keys comp_def cong: map_cong)
  then show "audit_at c k = Some a \<Longrightarrow> same_audit a b \<Longrightarrow> c = view w \<Longrightarrow> ?thesis"
    using same_gauges(2)[of a b r ns] by (simp add: pending_def gauges_of_def)
qed

text \<open>
  The verdict on a round for the request \<open>q\<close> from the cluster \<open>c\<close> to \<open>c'\<close>. When the operator has changed the
  resource itself, the load has become smaller, even if the round is done: there is more to do.
\<close>

definition served ::
    "'w reconciler \<Rightarrow> string \<Rightarrow> request \<Rightarrow> cluster \<Rightarrow> fault list \<Rightarrow> outcome \<Rightarrow> cluster \<Rightarrow> fault list \<Rightarrow> bool" where
  "served r ns q c fs res c' fs' \<longleftrightarrow>
     kept_resources c c' \<and> (\<forall>p. p \<noteq> q \<longrightarrow> same_resource c c' p) \<and>
     (\<forall>k. k \<notin> g_key ` set (gauges_of r ns c q) \<longrightarrow> objects c' k = objects c k) \<and>
     readable r ns c' q \<and> length fs' \<le> length fs \<and>
     (res = Done \<and> same_resource c c' q \<and> load r ns c' q = 0 \<and> load r ns c q = 0 \<or>
      (res = Requeue \<or> res = Done \<and> \<not> same_resource c c' q) \<and> load r ns c' q < load r ns c q \<or>
      (\<exists>err. res = Failed err) \<and> load r ns c' q \<le> load r ns c q \<and> length fs' < length fs)"

text \<open>A round in which the resource stays as it is and that may have changed its operands.\<close>

lemma served_operands:
  assumes "others_kept (gauges_of r ns c q) c c'" "readable r ns c' q" "length fs' \<le> length fs" "\<not> undecided c q"
    and "res = Done \<and> pending r ns c' q = 0 \<and> pending r ns c q = 0 \<or> res = Requeue \<and> pending r ns c' q < pending r ns c q \<or>
      (\<exists>err. res = Failed err) \<and> pending r ns c' q \<le> pending r ns c q \<and> length fs' < length fs"
  shows "served r ns q c fs res c' fs'"
proof -
  have same: "same_resources c c'" using assms(1) by (simp add: others_kept_def)
  note at = same_resources_all[OF same]
  have "load r ns c q = pending r ns c q" "load r ns c' q = pending r ns c' q"
    using assms(4) same_resource_undecided[OF at] by (simp_all add: load_def)
  then show ?thesis
    using assms at same_kept[OF same] by (simp add: served_def others_kept_def)
qed

text \<open>A request about a resource that is gone.\<close>

lemma serves_none:
  assumes "serves_common view c" "common_at (view w) k = None"
  obtains w' where "cr_get_common c k w = (Inl NotFound, w')" "view w' = view w"
proof -
  have "case find (\<lambda>a. meta_key (ca_Meta a) = k) (commons (view w)) of
        None \<Rightarrow> (\<exists>w'. cr_get_common c k w = (Inl NotFound, w') \<and> view w' = view w)
      | Some a \<Rightarrow> (\<exists>b w'. cr_get_common c k w = (Inr b, w') \<and> same_common a b \<and> view w' = view w)"
    using assms(1) unfolding serves_common_def by blast
  with assms(2) that show ?thesis by (auto simp: common_at_def)
qed

lemma serves_no_audit:
  assumes "serves_audit view c" "audit_at (view w) k = None"
  obtains w' where "cr_get_audit c k w = (Inl NotFound, w')" "view w' = view w"
proof -
  have "case find (\<lambda>a. meta_key (al_Meta a) = k) (audits (view w)) of
        None \<Rightarrow> (\<exists>w'. cr_get_audit c k w = (Inl NotFound, w') \<and> view w' = view w)
      | Some a \<Rightarrow> (\<exists>b w'. cr_get_audit c k w = (Inr b, w') \<and> same_audit a b \<and> view w' = view w)"
    using assms(1) unfolding serves_audit_def by blast
  with assms(2) that show ?thesis by (auto simp: audit_at_def)
qed

lemma gone_served:
  assumes "serves_common view (r_cr r)" "serves_audit view (r_cr r)" "q \<notin> requests (view w)"
  shows "\<exists>res w' fs'. serve (flaky r) q ((w, fs), g) = (res, ((w', fs'), g)) \<and>
    served r ns q (view w) fs res (view w') fs'"
proof -
  have unchanged: "served r ns q (view w) fs res (view w') fs'"
    if "view w' = view w" "res = Done \<and> length fs' \<le> length fs \<or> (\<exists>err. res = Failed err) \<and> length fs' < length fs"
    for res w' fs'
    using that load_none[OF assms(3), of r ns] gauges_of_none[OF assms(3), of r ns] same_resources_all[OF same_resources_refl]
      same_kept[OF same_resources_refl]
    by (auto simp: served_def readable_def)
  show ?thesis
  proof (cases q)
    case (CommonRequest k)
    then have "common_at (view w) k = None"
      using assms(3) common_at_in[of "view w" k] by (cases "common_at (view w) k") (auto simp: requests_def)
    then obtain w1 where w1: "cr_get_common (r_cr r) k w = (Inl NotFound, w1)" "view w1 = view w"
      using serves_none[OF assms(1)] by metis
    show ?thesis
    proof (cases rule: faulty_cases[of Inl "cr_get_common (r_cr r) k" w fs])
      case (works fs')
      with w1 show ?thesis using unchanged[of w1 Done fs'] by (simp add: CommonRequest serve_def ca_Reconcile_def)
    next
      case (fails msg w' fs')
      then have "view w' = view w" using w1 by auto
      then show ?thesis
        using fails unchanged[of w' "Failed (OtherError msg)" fs'] by (simp add: CommonRequest serve_def ca_Reconcile_def)
    qed
  next
    case (AuditRequest k)
    then have "audit_at (view w) k = None"
      using assms(3) audit_at_in[of "view w" k] by (cases "audit_at (view w) k") (auto simp: requests_def)
    then obtain w1 where w1: "cr_get_audit (r_cr r) k w = (Inl NotFound, w1)" "view w1 = view w"
      using serves_no_audit[OF assms(2)] by metis
    show ?thesis
    proof (cases rule: faulty_cases[of Inl "cr_get_audit (r_cr r) k" w fs])
      case (works fs')
      with w1 show ?thesis using unchanged[of w1 Done fs'] by (simp add: AuditRequest serve_def al_Reconcile_def)
    next
      case (fails msg w' fs')
      then have "view w' = view w" using w1 by auto
      then show ?thesis
        using fails unchanged[of w' "Failed (OtherError msg)" fs'] by (simp add: AuditRequest serve_def al_Reconcile_def)
    qed
  qed
qed

text \<open>A round for a resource that exists.\<close>

lemma common_served:
  assumes law: "lawful view ad r" and serves: "serves_common view (r_cr r)"
    and ord: "orderly r ns (view w)" "built g" and a: "common_at (view w) k = Some a"
  shows "\<exists>res w' fs' g'. serve (flaky r) (CommonRequest k) ((w, fs), g) = (res, ((w', fs'), g')) \<and> built g' \<and>
    served r ns (CommonRequest k) (view w) fs res (view w') fs'"
proof -
  let ?q = "CommonRequest k"
  have "ca_inv view ad r a k (view w) (no_faults ((w, fs), g))"
    using orderly_ca_inv[OF law ord a] by simp
  from ca_round_faults[OF this serves] obtain res s' where s': "ca_Reconcile (flaky r) k ((w, fs), g) = (res, s')"
      "ca_inv view ad r a k (view w) (no_faults s')" "ca_faults.verdict r a view ((w, fs), g) res s'" by blast
  obtain w' fs' g' where eq: "s' = ((w', fs'), g')" by (metis prod.collapse)
  note round = s'[unfolded eq fault_simps]
  have gs: "gauges_of r ns (view w) ?q = ca_gauges r a" using a by (simp add: gauges_of_def)
  have kept: "others_kept (ca_gauges r a) (view w) (view w')" "built g'" "steps_wf view (ca_gauges r a) w'"
    using round(2) by (simp_all add: ca_inv_def)
  then have same: "same_resources (view w) (view w')" by (simp add: others_kept_def)
  from same_resources_at(1)[OF same, of k] a obtain a' where a': "common_at (view w') k = Some a'" "same_common a a'"
    by (auto simp: option_rel_Some1)
  have "ca.total r a view (w, g) = pending r ns (view w) ?q" "ca.total r a view (w', g') = pending r ns (view w') ?q"
    using ca_total_pending[OF a same_common_refl, where view = view] ca_total_pending[OF a'(1) same_common_sym[OF a'(2)], where view = view]
    by blast+
  moreover have "gauges_of r ns (view w') ?q = ca_gauges r a"
    using same_resource_gauges[OF same_resources_all[OF same], of r ns ?q] by (simp add: gs)
  ultimately have "served r ns ?q (view w) fs res (view w') fs'"
    using round(3) kept ca.total_0_iff[of r a view "(w', g')"]
    by (intro served_operands) (auto simp: gs undecided_def readable_def steps_wf_def ca_faults.verdict_def ca_faults_ranks)
  then show ?thesis using round(1) kept(2) by (simp add: serve_def)
qed

lemma audit_served:
  assumes law: "lawful view ad r" and serves: "serves_audit view (r_cr r)"
    and ord: "orderly r ns (view w)" "built g" and a: "audit_at (view w) k = Some a" and decided: "al_decided a"
  shows "\<exists>res w' fs' g'. serve (flaky r) (AuditRequest k) ((w, fs), g) = (res, ((w', fs'), g')) \<and> built g' \<and>
    served r ns (AuditRequest k) (view w) fs res (view w') fs'"
proof -
  let ?q = "AuditRequest k"
  have "al_inv view ad r a k ns (view w) (no_faults ((w, fs), g))"
    using orderly_al_inv[OF law ord a] by simp
  from al_round_faults[OF this serves decided] obtain res s' where s': "al_Reconcile (flaky r) k ((w, fs), g) = (res, s')"
      "al_inv view ad r a k ns (view w) (no_faults s')" "al_faults.verdict r a ns view ((w, fs), g) res s'" by blast
  obtain w' fs' g' where eq: "s' = ((w', fs'), g')" by (metis prod.collapse)
  note round = s'[unfolded eq fault_simps]
  have gs: "gauges_of r ns (view w) ?q = al_gauges r a ns" using a by (simp add: gauges_of_def)
  have kept: "others_kept (al_gauges r a ns) (view w) (view w')" "built g'" "steps_wf view (al_gauges r a ns) w'"
    using round(2) by (simp_all add: al_inv_def)
  then have same: "same_resources (view w) (view w')" by (simp add: others_kept_def)
  from same_resources_at(2)[OF same, of k] a obtain a' where a': "audit_at (view w') k = Some a'" "same_audit a a'"
    by (auto simp: option_rel_Some1)
  have "al.total r a ns view (w, g) = pending r ns (view w) ?q" "al.total r a ns view (w', g') = pending r ns (view w') ?q"
    using al_total_pending[OF a same_audit_refl, where view = view] al_total_pending[OF a'(1) same_audit_sym[OF a'(2)], where view = view]
    by blast+
  moreover have "gauges_of r ns (view w') ?q = al_gauges r a ns"
    using same_resource_gauges[OF same_resources_all[OF same], of r ns ?q] by (simp add: gs)
  ultimately have "served r ns ?q (view w) fs res (view w') fs'"
    using round(3) kept al.total_0_iff[of r a ns view "(w', g')"] a decided
    by (intro served_operands) (auto simp: gs undecided_def readable_def steps_wf_def al_faults.verdict_def al_faults_ranks)
  then show ?thesis using round(1) kept(2) by (simp add: serve_def)
qed

text \<open>A round for an \<open>AuditLogging\<close> that is given its default policy.\<close>

lemma default_policy_audits:
  assumes "same_audit a b" "\<not> al_decided a" "list_all2 (stores_spec (with_policy b)) as bs" "as = [a'] " "same_audit a a'"
  shows "\<exists>b'. bs = [b'] \<and> same_audit (with_policy a) b'"
  using assms by (auto simp: list_all2_Cons1 stores_spec_def same_audit_def with_policy_def)

lemma al_enable_with_policy:
  "al_enablePolicyControllerByDefault r b w =
     (case cr_update_audit (r_cr r) (with_policy b) w of (Some err, w) \<Rightarrow> (Failed err, w) | (None, w) \<Rightarrow> (Done, w))"
  by (simp add: al_enablePolicyControllerByDefault_def with_policy_def Let_def)

text \<open>Until the update is carried out the resource is as it was; after it, it has the default.\<close>

lemma undecided_round:
  assumes laws: "serves_audit view (r_cr r)" "updates_audit view (r_cr r)"
    and inv: "al_inv view ad r a k ns (view w) (w, g)" and a: "audits (view w) = [a]" "\<not> al_decided a"
  shows "\<exists>res w' fs'. al_Reconcile (flaky r) k ((w, fs), g) = (res, ((w', fs'), g)) \<and>
    objects (view w') = objects (view w) \<and> list_all2 same_common (commons (view w)) (commons (view w')) \<and>
    length fs' \<le> length fs \<and>
    (res = Done \<and> (\<exists>a'. audits (view w') = [a'] \<and> same_audit (with_policy a) a') \<or>
     (\<exists>err. res = Failed err) \<and> length fs' < length fs \<and>
       (\<exists>a'. audits (view w') = [a'] \<and> kept_audit a a'))"
  using inv laws(1)
proof (cases rule: al_entry_faults[where fs = fs])
  case (fails err w' fs')
  have "same_resources (view w) (view w')" using fails(3) by (simp add: al_inv_def others_kept_def)
  then have "list_all2 same_common (commons (view w)) (commons (view w'))"
      "\<exists>a'. audits (view w') = [a'] \<and> kept_audit a a'"
    using a(1) by (auto simp: same_resources_def list_all2_Cons1 kept_audit_def)
  then show ?thesis using fails by auto
next
  case (runs b w1 fs1)
  have "same_resources (view w) (view w1)" using runs(4) by (simp add: al_inv_def others_kept_def)
  then obtain a1 where a1: "audits (view w1) = [a1]" "same_audit a a1"
      "list_all2 same_common (commons (view w)) (commons (view w1))"
    using a(1) by (auto simp: same_resources_def list_all2_Cons1)
  have "\<not> al_decided b" using al_decided_same[OF runs(2)] a(2) by simp
  then have eq: "al_Reconcile (flaky r) k ((w, fs), g) = lift_world (al_enablePolicyControllerByDefault (flaky r) b) ((w1, fs1), g)"
    using runs(1) by (simp add: al_after_checks_def)
  have "meta_key (al_Meta a1) = meta_key (al_Meta (with_policy b))"
    using a1(2) runs(2) by (simp add: same_audit_def with_policy_def)
  then obtain w2 where w2: "cr_update_audit (r_cr r) (with_policy b) w1 = (None, w2)"
      "objects (view w2) = objects (view w1)" "commons (view w2) = commons (view w1)"
      "list_all2 (stores_spec (with_policy b)) (audits (view w1)) (audits (view w2))"
    using laws(2) a1(1) unfolding updates_audit_def by (metis list.set_intros(1))
  obtain a2 where a2: "audits (view w2) = [a2]" "same_audit (with_policy a) a2"
    using default_policy_audits[OF runs(2) a(2) w2(4) a1(1,2)] by blast
  have kept: "kept_audit a a1" "kept_audit a a2" using a1(2) a2(2) a(2) by (simp_all add: kept_audit_def)
  show ?thesis
  proof (cases rule: faulty_cases[of Some "cr_update_audit (r_cr r) (with_policy b)" w1 fs1])
    case (works fs')
    then have "al_Reconcile (flaky r) k ((w, fs), g) = (Done, ((w2, fs'), g))"
      using w2(1) by (simp add: eq lift_world_def al_enable_with_policy flaky_cr_def)
    then show ?thesis using works(2) runs(3,5) w2 a1 a2 by auto
  next
    case (fails msg w' fs')
    then have "al_Reconcile (flaky r) k ((w, fs), g) = (Failed (OtherError msg), ((w', fs'), g))"
      by (simp add: eq lift_world_def al_enable_with_policy flaky_cr_def)
    moreover have "w' = w1 \<or> w' = w2" using fails(3) w2(1) by simp
    ultimately show ?thesis using fails(2) runs(3,5) w2 a1 a2 kept by auto
  qed
qed

lemma kept_gauges_readable:
  assumes "audit_at c k = Some a" "audit_at c' k = Some a'" "objects c' = objects c"
  shows "readable r ns c' (AuditRequest k) = readable r ns c (AuditRequest k)"
  using assms al_gauges_wf[of r a ns "objects c"] al_gauges_wf[of r a' ns "objects c"]
  by (simp add: readable_def gauges_of_def)

lemma undecided_served:
  assumes laws: "lawful view ad r" "serves_audit view (r_cr r)" "updates_audit view (r_cr r)"
    and ord: "orderly r ns (view w)" "built g" and a: "audit_at (view w) k = Some a" "\<not> al_decided a"
  shows "\<exists>res w' fs'. serve (flaky r) (AuditRequest k) ((w, fs), g) = (res, ((w', fs'), g)) \<and>
    served r ns (AuditRequest k) (view w) fs res (view w') fs'"
proof -
  let ?q = "AuditRequest k"
  have one: "audits (view w) = [a]"
    using audit_at_in[OF a(1)] ord(1) by (cases "audits (view w)") (auto simp: orderly_def usable_resources_def)
  from undecided_round[OF laws(2,3) orderly_al_inv[OF laws(1) ord a(1)] one a(2), of fs] obtain res w' fs' a' where
    round: "al_Reconcile (flaky r) k ((w, fs), g) = (res, ((w', fs'), g))" "objects (view w') = objects (view w)"
      "list_all2 same_common (commons (view w)) (commons (view w'))" "length fs' \<le> length fs"
    and a': "audits (view w') = [a']" "kept_audit a a'"
    and res: "res = Done \<and> same_audit (with_policy a) a' \<or> (\<exists>err. res = Failed err) \<and> length fs' < length fs"
    using a(2) by (fastforce simp: kept_audit_def)
  have kept: "kept_resources (view w) (view w')" using round(3) one a' by (simp add: kept_resources_def)
  have key: "meta_key (al_Meta a) = k" "meta_key (al_Meta a') = k"
    using audit_at_in[OF a(1)] kept_audit_key[OF a'(2)] by simp_all
  then have at: "audit_at (view w') k = Some a'" by (simp add: audit_at_def a'(1))
  have others: "same_resource (view w) (view w') p" if "p \<noteq> ?q" for p
  proof (cases p)
    case (CommonRequest j)
    then show ?thesis using kept_resources_at(1)[OF kept] by (simp add: same_resource_def)
  next
    case (AuditRequest j)
    then have "audit_at (view w) j = None" "audit_at (view w') j = None"
      using that key one a'(1) by (auto simp: audit_at_def)
    then show ?thesis by (simp add: same_resource_def AuditRequest)
  qed
  have ready: "readable r ns (view w') ?q"
    using kept_gauges_readable[OF a(1) at round(2)] orderly_readable[OF ord(1)] by blast
  have changed: "\<not> same_resource (view w) (view w') ?q \<and> load r ns (view w') ?q < load r ns (view w) ?q"
    if "same_audit (with_policy a) a'"
  proof -
    have dec: "al_decided a'" using al_decided_same[OF that] by simp
    then have "\<not> same_audit a a'" using al_decided_same[of a a'] a(2) by blast
    moreover have "pending r ns (view w') ?q \<le> 24"
      using al_total_bound[of r a' ns view "(w', g)"] al_total_pending[OF at same_audit_refl, where view = view and w = w' and g = g and r = r and ns = ns]
      by simp
    ultimately show ?thesis using a at dec by (simp add: same_resource_def load_def undecided_def)
  qed
  moreover have "load r ns (view w') ?q = load r ns (view w) ?q" if "same_audit a a'"
    using that a at round(2) by (intro same_resource_load(1)) (simp_all add: same_resource_def)
  ultimately have "served r ns ?q (view w) fs res (view w') fs'"
    using kept others ready round res a'(2) unfolding served_def kept_audit_def by auto
  then show ?thesis using round(1) by (auto simp: serve_def)
qed

text \<open>Any request.\<close>

lemma serve_round:
  assumes laws: "lawful view ad r" "serves_common view (r_cr r)" "serves_audit view (r_cr r)" "updates_audit view (r_cr r)"
    and ord: "orderly r ns (view w)" "built g"
  shows "\<exists>res w' fs' g'. serve (flaky r) q ((w, fs), g) = (res, ((w', fs'), g')) \<and> built g' \<and>
    served r ns q (view w) fs res (view w') fs'"
proof (cases "q \<in> requests (view w)")
  case False
  from gone_served[OF laws(2,3) this] ord(2) show ?thesis by blast
next
  case True
  show ?thesis
  proof (cases q)
    case (CommonRequest k)
    with True obtain a where "common_at (view w) k = Some a"
      by (cases "common_at (view w) k") (auto simp: requests_def common_at_def find_None_iff)
    with common_served[OF laws(1,2) ord] CommonRequest show ?thesis by blast
  next
    case (AuditRequest k)
    with True obtain a where "audit_at (view w) k = Some a"
      by (cases "audit_at (view w) k") (auto simp: requests_def audit_at_def find_None_iff)
    with audit_served[OF laws(1,3) ord] undecided_served[OF laws(1,3,4) ord] AuditRequest ord(2) show ?thesis
      by (cases "al_decided a") blast+
  qed
qed

subsection \<open>What a round means for the others\<close>

lemma served_others:
  assumes "served r ns q c fs res c' fs'" "usable_resources r ns c" "q' \<noteq> q"
  shows "load r ns c' q' = load r ns c q'" "readable r ns c' q' = readable r ns c q'"
proof -
  have same: "same_resource c c' q'" using assms(1,3) by (simp add: served_def)
  have "objects c' (g_key g) = objects c (g_key g)" if "g \<in> set (gauges_of r ns c q')" for g
  proof -
    have "g_key g \<notin> g_key ` set (gauges_of r ns c q)" using gauges_apart[OF assms(2,3) that] by blast
    then show ?thesis using assms(1) unfolding served_def by blast
  qed
  then show "load r ns c' q' = load r ns c q'" "readable r ns c' q' = readable r ns c q'"
    using same_resource_load[OF same] by blast+
qed

text \<open>A cluster in order stays in order.\<close>

lemma served_orderly:
  assumes "served r ns q c fs res c' fs'" "orderly r ns c"
  shows "orderly r ns c'"
proof -
  have usable: "usable_resources r ns c" using assms(2) by (simp add: orderly_def)
  have "readable r ns c' q'" for q'
    using assms served_others(2)[OF assms(1) usable, of q'] orderly_readable[OF assms(2), of q']
    by (cases "q' = q") (simp_all add: served_def)
  moreover have "usable_resources r ns c'" using usable_kept[OF _ usable] assms(1) by (simp add: served_def)
  ultimately show ?thesis by (simp add: orderly_def)
qed

end
