(* ===== verification/OperatorQueue.thy ===== *)
theory OperatorQueue
  imports OperatorRounds
begin

text \<open>
  The operator as a whole: the work queues of both controllers, rounds in any order, requests to the server that
  fail, restarts, and everything that users and other programs do in between. What is not queued is in place, and
  left alone the operator comes to rest.
\<close>

subsection \<open>The work queue\<close>

text \<open>
  The state is the world with the faults to come, the package variables, and the set of queued requests. The
  runtime takes any request and calls the controller; the request stays queued after an error and when the
  controller asks for another round, and it is queued again when the round has changed the spec of a resource,
  which the controller watches. A panic would end the process: it has no successor.
\<close>

type_synonym 'w operator = "'w faulty state \<times> request set"

definition queue_after :: "request \<Rightarrow> outcome \<Rightarrow> cluster \<Rightarrow> cluster \<Rightarrow> request set \<Rightarrow> request set" where
  "queue_after q res c c' Q = (if res = Done then Q - {q} else Q) \<union> {p. \<not> same_resource c c' p}"

inductive operates :: "('w \<Rightarrow> cluster) \<Rightarrow> 'w reconciler \<Rightarrow> 'w operator \<Rightarrow> 'w operator \<Rightarrow> bool" for view r where
  round: "q \<in> Q \<Longrightarrow> serve (flaky r) q ((w, fs), g) = (res, ((w', fs'), g')) \<Longrightarrow> res \<noteq> Panicked \<Longrightarrow>
    operates view r (((w, fs), g), Q) (((w', fs'), g'), queue_after q res (view w) (view w') Q)"

inductive_cases operatesE: "operates view r (((w, fs), g), Q) m"

text \<open>Some rounds, and events in between that queue a request again.\<close>

inductive runs :: "('w \<Rightarrow> cluster) \<Rightarrow> 'w reconciler \<Rightarrow> nat \<Rightarrow> nat \<Rightarrow> 'w operator \<Rightarrow> 'w operator \<Rightarrow> bool" for view r where
  none: "runs view r 0 0 m m"
| round: "runs view r n k m m' \<Longrightarrow> operates view r m' m'' \<Longrightarrow> runs view r (Suc n) k m m''"
| event: "runs view r n k m (s, Q) \<Longrightarrow> runs view r n (Suc k) m (s, insert q Q)"

text \<open>
  What others may do: change, create and delete resources, operands and anything else, with two restrictions.

  The cluster stays \<open>orderly\<close>: at most one CommonAudit in a namespace and one AuditLogging in all, no CommonAudit
  beside an AuditLogging in the namespace of the common services, settings and host aliases that the code can
  write (\<open>values_ok\<close>, \<open>usable_aliases\<close>), and ConfigMaps with data that the code can read. What the code does
  outside this is the subject of ControllerGuards, ConfigRepairs and WorkloadProps.

  The watches queue the request of every resource that is concerned. For resources this is \<open>For\<close>; for operands
  it is \<open>Owns\<close> (\<open>commonaudit_controller.go:139-144\<close>), which notifies of the objects whose controller reference names
  the resource. The operator sets that reference on what it creates and never on an object that it finds, so
  that a change by others to an operand that it has not created queues nothing. Such changes are no part of a
  history here unless the request is queued for another reason.
\<close>

definition unaffected :: "'w reconciler \<Rightarrow> string \<Rightarrow> cluster \<Rightarrow> cluster \<Rightarrow> request \<Rightarrow> bool" where
  "unaffected r ns c c' q \<longleftrightarrow> same_resource c c' q \<and>
     (\<forall>g \<in> set (gauges_of r ns c q). objects c' (g_key g) = objects c (g_key g))"

inductive operator_history :: "('w \<Rightarrow> cluster) \<Rightarrow> 'w reconciler \<Rightarrow> string \<Rightarrow> 'w operator \<Rightarrow> bool" for view r ns where
  started: "orderly r ns (view w) \<Longrightarrow> finite Q \<Longrightarrow> requests (view w) \<subseteq> Q \<Longrightarrow>
    operator_history view r ns (((w, fs), init_globals), Q)"
| round: "operator_history view r ns m \<Longrightarrow> operates view r m m' \<Longrightarrow> operator_history view r ns m'"
| queued: "operator_history view r ns (s, Q) \<Longrightarrow> operator_history view r ns (s, insert q Q)"
| changed: "operator_history view r ns (((w, fs), g), Q) \<Longrightarrow> orderly r ns (view w') \<Longrightarrow> finite Q' \<Longrightarrow> Q \<subseteq> Q' \<Longrightarrow>
    (\<And>q. q \<notin> Q' \<Longrightarrow> unaffected r ns (view w) (view w') q) \<Longrightarrow> operator_history view r ns (((w', fs), g), Q')"
| outage: "operator_history view r ns (((w, fs), g), Q) \<Longrightarrow> operator_history view r ns (((w, fs'), g), Q)"
| restarted: "operator_history view r ns (((w, fs), g), Q) \<Longrightarrow> finite Q' \<Longrightarrow> requests (view w) \<subseteq> Q' \<Longrightarrow>
    operator_history view r ns (((w, fs), init_globals), Q')"

subsection \<open>What is not queued is in place\<close>

definition on_course :: "('w \<Rightarrow> cluster) \<Rightarrow> 'w reconciler \<Rightarrow> string \<Rightarrow> 'w operator \<Rightarrow> bool" where
  "on_course view r ns m \<longleftrightarrow> (case m of (((w, fs), g), Q) \<Rightarrow>
     orderly r ns (view w) \<and> built g \<and> finite Q \<and> (\<forall>q. q \<notin> Q \<longrightarrow> load r ns (view w) q = 0))"

definition potential :: "('w \<Rightarrow> cluster) \<Rightarrow> 'w reconciler \<Rightarrow> string \<Rightarrow> 'w operator \<Rightarrow> nat" where
  "potential view r ns m = (case m of (((w, fs), g), Q) \<Rightarrow>
     (\<Sum>q \<in> requests (view w). load r ns (view w) q) + length fs + card Q)"

definition all_in_place :: "'w reconciler \<Rightarrow> string \<Rightarrow> cluster \<Rightarrow> bool" where
  "all_in_place r ns c \<longleftrightarrow> (\<forall>a \<in> set (commons c). common_in_place r a c) \<and>
     (\<forall>a \<in> set (audits c). al_decided a \<and> audit_in_place r a ns c)"

lemma unaffected_load: "unaffected r ns c c' q \<Longrightarrow> load r ns c' q = load r ns c q"
  by (intro same_resource_load(1)) (simp_all add: unaffected_def)

text \<open>What the operator changes: operands, and of resources the status and a policy that is not set.\<close>

definition only_operands :: "'w reconciler \<Rightarrow> string \<Rightarrow> cluster \<Rightarrow> cluster \<Rightarrow> bool" where
  "only_operands r ns c c' \<longleftrightarrow> kept_resources c c' \<and>
     (\<forall>k. (\<forall>q. k \<notin> g_key ` set (gauges_of r ns c q)) \<longrightarrow> objects c' k = objects c k)"

lemma only_operands_trans:
  assumes "only_operands r ns c c'" "only_operands r ns c' c''"
  shows "only_operands r ns c c''"
proof -
  have kept: "kept_resources c c'" "kept_resources c' c''" using assms by (simp_all add: only_operands_def)
  show ?thesis
    using assms kept_resources_trans[OF kept] kept_resources_keys[OF kept(1), of r ns] by (simp add: only_operands_def)
qed

lemma served_only_operands: "served r ns q c fs res c' fs' \<Longrightarrow> only_operands r ns c c'"
  unfolding served_def only_operands_def by blast

text \<open>A round: the cluster stays in order, and the potential goes down.\<close>

lemma served_queue:
  assumes "served r ns q c fs res c' fs'" "q \<in> Q"
  shows "queue_after q res c c' Q = (if res = Done \<and> same_resource c c' q then Q - {q} else Q)"
  using assms unfolding served_def queue_after_def by auto

lemma served_step:
  assumes "served r ns q (view w) fs res (view w') fs'" "q \<in> Q" "on_course view r ns (((w, fs), g), Q)" "built g'"
  defines "Q' \<equiv> queue_after q res (view w) (view w') Q"
  shows "on_course view r ns (((w', fs'), g'), Q') \<and>
    potential view r ns (((w', fs'), g'), Q') < potential view r ns (((w, fs), g), Q)"
proof -
  have ord: "orderly r ns (view w)" and Q: "finite Q" "\<And>p. p \<notin> Q \<Longrightarrow> load r ns (view w) p = 0"
    using assms(3) by (auto simp: on_course_def)
  have res: "usable_resources r ns (view w)" using ord by (simp add: orderly_def)
  note others = served_others(1)[OF assms(1) res]
  note Q' = served_queue[OF assms(1,2), folded Q'_def]
  have "load r ns (view w') p = 0" if "p \<notin> Q'" for p
    using that others[of p] Q(2)[of p] assms(1,2) by (cases "p = q") (auto simp: Q' served_def split: if_splits)
  then have course: "on_course view r ns (((w', fs'), g'), Q')"
    using served_orderly[OF assms(1) ord] assms(4) Q(1) by (simp add: on_course_def Q')
  let ?sum = "\<lambda>c. \<Sum>p \<in> requests (view w). load r ns c p"
  have le: "load r ns (view w') p \<le> load r ns (view w) p" for p
    using others[of p] assms(1) by (cases "p = q") (auto simp: served_def)
  then have sum: "?sum (view w') \<le> ?sum (view w)" by (intro sum_mono)
  have fs: "length fs' \<le> length fs" and card: "card Q' \<le> card Q"
    using assms(1) Q(1) by (simp_all add: served_def Q' card_mono)
  consider "res = Done \<and> same_resource (view w) (view w') q" | "load r ns (view w') q < load r ns (view w) q"
    | "length fs' < length fs"
    using assms(1) unfolding served_def by blast
  then have "?sum (view w') + length fs' + card Q' < ?sum (view w) + length fs + card Q"
  proof cases
    case 1
    then have "card Q' < card Q" using assms(2) Q(1) by (simp add: Q' card_Diff1_less del: card_Diff_insert)
    then show ?thesis using sum fs by linarith
  next
    case 2
    then have "q \<in> requests (view w)" using load_none[of q "view w" r ns] by (cases "q \<in> requests (view w)") simp_all
    then have "?sum (view w') < ?sum (view w)" using 2 le by (intro sum_strict_mono_ex1) auto
    then show ?thesis using fs card by linarith
  next
    case 3
    then show ?thesis using sum card by linarith
  qed
  moreover have "requests (view w') = requests (view w)"
    using kept_resources_requests assms(1) by (simp add: served_def)
  ultimately show ?thesis using course by (simp add: potential_def)
qed

text \<open>Some round is always possible, and every round is of this kind.\<close>

lemma operates_step:
  assumes laws: "lawful view ad r" "serves_common view (r_cr r)" "serves_audit view (r_cr r)" "updates_audit view (r_cr r)"
    and course: "on_course view r ns m" and step: "operates view r m m'"
  shows "on_course view r ns m'" "potential view r ns m' < potential view r ns m"
    "only_operands r ns (view (fst (fst (fst m)))) (view (fst (fst (fst m'))))"
proof -
  obtain w fs g Q where m: "m = (((w, fs), g), Q)" by (metis prod.collapse)
  from step[unfolded m] obtain q res w' fs' g' where
    q: "q \<in> Q" "serve (flaky r) q ((w, fs), g) = (res, ((w', fs'), g'))"
    and m': "m' = (((w', fs'), g'), queue_after q res (view w) (view w') Q)"
    by (rule operatesE)
  have "orderly r ns (view w)" "built g" using course by (simp_all add: on_course_def m)
  from serve_round[OF laws this, of q fs] have round: "built g'" "served r ns q (view w) fs res (view w') fs'"
    using q(2) by auto
  from served_step[OF round(2) q(1) course[unfolded m] round(1)] served_only_operands[OF round(2)]
  show "on_course view r ns m'" "potential view r ns m' < potential view r ns m"
    "only_operands r ns (view (fst (fst (fst m)))) (view (fst (fst (fst m'))))" by (simp_all add: m m')
qed

lemma operates_ready:
  assumes laws: "lawful view ad r" "serves_common view (r_cr r)" "serves_audit view (r_cr r)" "updates_audit view (r_cr r)"
    and course: "on_course view r ns m" and queued: "snd m \<noteq> {}"
  shows "\<exists>m'. operates view r m m'"
proof -
  obtain w fs g Q where m: "m = (((w, fs), g), Q)" by (metis prod.collapse)
  obtain q where q: "q \<in> Q" using queued by (auto simp: m)
  have "orderly r ns (view w)" "built g" using course by (simp_all add: on_course_def m)
  from serve_round[OF laws this, of q fs] obtain res w' fs' g' where
    "serve (flaky r) q ((w, fs), g) = (res, ((w', fs'), g'))" "res \<noteq> Panicked"
    unfolding served_def by fastforce
  from operates.round[OF q this] show ?thesis unfolding m by blast
qed

lemma queued_course:
  "on_course view r ns (s, Q) \<Longrightarrow> on_course view r ns (s, insert q Q) \<and>
   potential view r ns (s, insert q Q) \<le> Suc (potential view r ns (s, Q))"
  by (cases s) (auto simp: on_course_def potential_def card_insert_if)

lemma history_course:
  assumes laws: "lawful view ad r" "serves_common view (r_cr r)" "serves_audit view (r_cr r)" "updates_audit view (r_cr r)"
  shows "operator_history view r ns m \<Longrightarrow> on_course view r ns m"
proof (induction rule: operator_history.induct)
  case (started w Q fs)
  then show ?case using load_none by (fastforce simp: on_course_def built.init)
next
  case (round m m')
  then show ?case using operates_step[OF laws] by blast
next
  case (queued s Q q)
  then show ?case using queued_course by blast
next
  case (changed w fs g Q w' Q')
  then have "load r ns (view w') q = 0" if "q \<notin> Q'" for q
    using that unaffected_load[of r ns "view w" "view w'" q] by (auto simp: on_course_def)
  then show ?case using changed by (simp add: on_course_def)
next
  case (restarted w fs g Q Q')
  then show ?case using load_none by (fastforce simp: on_course_def built.init)
qed (simp add: on_course_def)

subsection \<open>How many rounds\<close>

lemma runs_course:
  assumes laws: "lawful view ad r" "serves_common view (r_cr r)" "serves_audit view (r_cr r)" "updates_audit view (r_cr r)"
  shows "runs view r n k m m' \<Longrightarrow> on_course view r ns m \<Longrightarrow>
    on_course view r ns m' \<and> potential view r ns m' + n \<le> potential view r ns m + k"
proof (induction rule: runs.induct)
  case (round n k m m' m'')
  then show ?case using operates_step[OF laws, of ns m' m''] by fastforce
next
  case (event n k m s Q q)
  then show ?case using queued_course[of view r ns s Q q] by fastforce
qed simp

lemma runs_only_operands:
  assumes laws: "lawful view ad r" "serves_common view (r_cr r)" "serves_audit view (r_cr r)" "updates_audit view (r_cr r)"
  shows "runs view r n k m m' \<Longrightarrow> on_course view r ns m \<Longrightarrow>
    only_operands r ns (view (fst (fst (fst m)))) (view (fst (fst (fst m'))))"
proof (induction rule: runs.induct)
  case (none m)
  then show ?case by (simp add: only_operands_def same_kept)
next
  case (round n k m m' m'')
  then show ?case
    using runs_course[OF laws round.hyps(1)] operates_step(3)[OF laws _ round.hyps(2)] only_operands_trans by blast
qed simp

lemma runs_history: "runs view r n k m m' \<Longrightarrow> operator_history view r ns m \<Longrightarrow> operator_history view r ns m'"
  by (induction rule: runs.induct) (auto intro: operator_history.intros)

lemma runs_Cons:
  "runs view r n k m' m'' \<Longrightarrow> operates view r m m' \<Longrightarrow> runs view r (Suc n) k m m''"
  by (induction rule: runs.induct) (auto intro: runs.intros)

lemma runs_to_rest:
  assumes laws: "lawful view ad r" "serves_common view (r_cr r)" "serves_audit view (r_cr r)" "updates_audit view (r_cr r)"
  shows "on_course view r ns m \<Longrightarrow> \<exists>n m'. runs view r n 0 m m' \<and> snd m' = {}"
proof (induction "potential view r ns m" arbitrary: m rule: less_induct)
  case less
  show ?case
  proof (cases "snd m = {}")
    case True
    then show ?thesis using runs.none by blast
  next
    case False
    then obtain m' where m': "operates view r m m'" using operates_ready[OF laws less.prems] by blast
    then show ?thesis using less.hyps[of m'] operates_step[OF laws less.prems m'] runs_Cons by blast
  qed
qed

lemma load_bound:
  assumes "lawful view ad r" "orderly r ns (view w)"
  shows "load r ns (view w) (CommonRequest k) \<le> 52" "load r ns (view w) (AuditRequest k) \<le> 49"
proof -
  have "pending r ns (view w) (CommonRequest k) \<le> 52"
  proof (cases "common_at (view w) k")
    case None
    then show ?thesis by (simp add: pending_def gauges_of_def)
  next
    case (Some a)
    from ca_total_bound[OF orderly_ca_inv[OF assms built.init Some]] show ?thesis
      using ca_total_pending[OF Some same_common_refl, where view = view and w = w and r = r and ns = ns] by simp
  qed
  moreover have "pending r ns (view w) (AuditRequest k) \<le> 24"
  proof (cases "audit_at (view w) k")
    case None
    then show ?thesis by (simp add: pending_def gauges_of_def)
  next
    case (Some a)
    from al_total_bound[of r a ns view "(w, init_globals)"] show ?thesis
      using al_total_pending[OF Some same_audit_refl, where view = view and w = w and r = r and ns = ns] by simp
  qed
  ultimately show "load r ns (view w) (CommonRequest k) \<le> 52" "load r ns (view w) (AuditRequest k) \<le> 49"
    by (simp_all add: load_def undecided_def)
qed

lemma potential_bound:
  assumes "lawful view ad r" "orderly r ns (view w)"
  shows "potential view r ns (((w, fs), g), Q) \<le>
    52 * length (commons (view w)) + 49 * length (audits (view w)) + length fs + card Q"
proof -
  let ?p = "load r ns (view w)"
  let ?C = "(\<lambda>a. CommonRequest (meta_key (ca_Meta a))) ` set (commons (view w))"
    and ?A = "(\<lambda>a. AuditRequest (meta_key (al_Meta a))) ` set (audits (view w))"
  have "sum ?p (?C \<union> ?A) \<le> sum ?p ?C + sum ?p ?A" by (simp add: sum_Un_nat)
  also have "sum ?p ?C \<le> card ?C * 52"
    using load_bound(1)[OF assms] by (intro sum_bounded_above[where K = "52::nat", simplified]) auto
  also have "sum ?p ?A \<le> card ?A * 49"
    using load_bound(2)[OF assms] by (intro sum_bounded_above[where K = "49::nat", simplified]) auto
  finally have "sum ?p (requests (view w)) \<le> card ?C * 52 + card ?A * 49" by (simp add: requests_def)
  moreover have "card ?C \<le> length (commons (view w))" "card ?A \<le> length (audits (view w))"
    using card_image_le card_length order_trans by (metis finite_set)+
  ultimately show ?thesis by (simp add: potential_def)
qed

subsection \<open>In place\<close>

lemma member_at:
  assumes "usable_resources r ns c"
  shows "a \<in> set (commons c) \<Longrightarrow> common_at c (meta_key (ca_Meta a)) = Some a"
    and "b \<in> set (audits c) \<Longrightarrow> audit_at c (meta_key (al_Meta b)) = Some b"
proof -
  have "find (\<lambda>b. meta_key (ca_Meta b) = meta_key (ca_Meta a)) cs = Some a"
    if "distinct (map ca_Namespace cs)" "a \<in> set cs" for cs
    using that by (induction cs) (auto simp: meta_key_def)
  then show "a \<in> set (commons c) \<Longrightarrow> common_at c (meta_key (ca_Meta a)) = Some a"
    using assms by (simp add: common_at_def usable_resources_def)
  have "length (audits c) \<le> 1" using assms by (simp add: usable_resources_def)
  then show "b \<in> set (audits c) \<Longrightarrow> audit_at c (meta_key (al_Meta b)) = Some b"
    by (cases "audits c") (auto simp: audit_at_def)
qed

lemma load_in_place:
  assumes law: "lawful view ad r" and ord: "orderly r ns (view w)"
  shows "a \<in> set (commons (view w)) \<Longrightarrow> load r ns (view w) (CommonRequest (meta_key (ca_Meta a))) = 0 \<Longrightarrow>
      common_in_place r a (view w)"
    and "b \<in> set (audits (view w)) \<Longrightarrow> load r ns (view w) (AuditRequest (meta_key (al_Meta b))) = 0 \<Longrightarrow>
      al_decided b \<and> audit_in_place r b ns (view w)"
proof -
  have res: "usable_resources r ns (view w)" using ord by (simp add: orderly_def)
  show "common_in_place r a (view w)"
    if a: "a \<in> set (commons (view w))" "load r ns (view w) (CommonRequest (meta_key (ca_Meta a))) = 0"
  proof -
    note at = member_at(1)[OF res a(1)]
    have "ca.settled r a view (w, init_globals)"
      using ca_total_pending[OF at same_common_refl, where view = view and w = w] a(2) ca.total_0_iff unfolding load_def by (metis add_is_0)
    from ca_settled_in_place[OF orderly_ca_inv[OF law ord built.init at] this] show ?thesis by simp
  qed
  show "al_decided b \<and> audit_in_place r b ns (view w)"
    if b: "b \<in> set (audits (view w))" "load r ns (view w) (AuditRequest (meta_key (al_Meta b))) = 0"
  proof -
    note at = member_at(2)[OF res b(1)]
    have "al.settled r b ns view (w, init_globals)"
      using al_total_pending[OF at same_audit_refl, where view = view and w = w] b(2) al.total_0_iff unfolding load_def by (metis add_is_0)
    moreover have "al_decided b" using b(2) at by (simp add: load_def undecided_def split: if_splits)
    ultimately show ?thesis using al_settled_in_place[OF orderly_al_inv[OF law ord built.init at]] by simp
  qed
qed

lemma course_in_place:
  "lawful view ad r \<Longrightarrow> on_course view r ns (((w, fs), g), {}) \<Longrightarrow> all_in_place r ns (view w)"
  using load_in_place[of view ad r ns w] by (auto simp: on_course_def all_in_place_def)

subsection \<open>Properties\<close>

text \<open>C2: Whatever has happened, a resource that is not queued has its operands in place. The history of the
  operator is any sequence of rounds of both controllers, in any order and for any number of resources, in which
  requests to the server fail now and then; of restarts, after which every resource is queued; and of changes by
  others to resources and objects, after which the resources concerned are queued. At each moment of it every
  CommonAudit and every AuditLogging whose request is not queued has all its operands as it wants them. So no round
  of one resource spoils what another one has put in place, and no round ends quietly before its work is done.
  The changes by others are limited to those that leave the cluster orderly (usable resources, readable ConfigMaps,
  one CommonAudit in a namespace), and it is assumed that the watches queue each resource whose operand they
  change, which \<open>Owns\<close> does for operands that the operator has created.\<close>

theorem unqueued_in_place:
  assumes "lawful view ad r" "serves_common view (r_cr r)" "serves_audit view (r_cr r)" "updates_audit view (r_cr r)"
    and "operator_history view r ns (((w, fs), g), Q)"
  shows "(\<forall>a \<in> set (commons (view w)). CommonRequest (meta_key (ca_Meta a)) \<in> Q \<or> common_in_place r a (view w)) \<and>
    (\<forall>a \<in> set (audits (view w)). AuditRequest (meta_key (al_Meta a)) \<in> Q \<or>
      al_decided a \<and> audit_in_place r a ns (view w))"
proof -
  have "orderly r ns (view w)" "\<And>q. q \<notin> Q \<Longrightarrow> load r ns (view w) q = 0"
    using history_course[OF assms] by (simp_all add: on_course_def)
  then show ?thesis using load_in_place[OF assms(1), of ns w] by blast
qed

text \<open>C1: Left alone, the operator comes to rest with everything in place. From any state that its history can
  reach, whichever queued request the runtime takes each time and whichever requests to the server fail, there are
  at most 52 rounds for each CommonAudit, 49 for each AuditLogging, and one for each fault, each queued request and
  each event that queues one again. No round panics, so that a next one is possible as long as a request is
  queued; when none is, every AuditLogging says whether it wants the policy controller, by default that it does,
  and all operands of all resources are in place. No other object is touched on the way, and of the resources only
  the status and a policy that was not set. As in C2, the history is limited to clusters that stay orderly (usable
  resources, readable ConfigMaps, one CommonAudit in a namespace), with watches that queue what is concerned.\<close>

theorem operator_comes_to_rest:
  assumes "lawful view ad r" "serves_common view (r_cr r)" "serves_audit view (r_cr r)" "updates_audit view (r_cr r)"
    and "operator_history view r ns (((w, fs), g), Q)" "runs view r n k (((w, fs), g), Q) (((w', fs'), g'), Q')"
  shows "n \<le> 52 * length (commons (view w)) + 49 * length (audits (view w)) + length fs + card Q + k \<and>
    (if Q' = {} then all_in_place r ns (view w') else \<exists>m. operates view r (((w', fs'), g'), Q') m) \<and>
    only_operands r ns (view w) (view w')"
proof -
  note course = history_course[OF assms(1-5)]
  note runs = runs_course[OF assms(1-4,6) course]
  have "orderly r ns (view w)" using course by (simp add: on_course_def)
  from potential_bound[OF assms(1) this, of fs g Q] runs
  have "n \<le> 52 * length (commons (view w)) + 49 * length (audits (view w)) + length fs + card Q + k" by linarith
  moreover have "if Q' = {} then all_in_place r ns (view w') else \<exists>m. operates view r (((w', fs'), g'), Q') m"
    using course_in_place[OF assms(1), of ns w' fs' g'] operates_ready[OF assms(1-4), of ns "(((w', fs'), g'), Q')"] runs
    by (cases "Q' = {}") simp_all
  moreover have "only_operands r ns (view w) (view w')"
    using runs_only_operands[OF assms(1-4,6) course] by simp
  ultimately show ?thesis by blast
qed

text \<open>
  A cluster with a resource of each kind, a broken service, and an \<open>AuditLogging\<close> that does not mention the policy
  controller; the third request to the server fails and the answer of the sixth is lost.
\<close>

definition sample_both :: cluster where
  "sample_both = sample_cluster\<lparr>audits := [new_auditlogging ''al'']\<rparr>"

definition sample_start :: "cluster operator" where
  "sample_start = (((sample_both, [Works, Works, Fails ''connection refused'', Works, Works, Lost ''timeout'']),
     init_globals), {CommonRequest (NamespacedName ''ns'' ''ca''), AuditRequest (NamespacedName [] ''al'')})"

lemma sample_resources: "commons sample_both = [sample_common]" "audits sample_both = [new_auditlogging ''al'']"
  by (simp_all add: sample_both_def sample_cluster_def)

lemma sample_requests:
  "requests (stored sample_both) = {CommonRequest (NamespacedName ''ns'' ''ca''), AuditRequest (NamespacedName [] ''al'')}"
  by (simp add: requests_def sample_resources sample_common_def new_common_def new_auditlogging_def
      Let_def meta_key_def zero_meta_def insert_commute)

lemma sample_orderly: "orderly (memory_reconciler ''cs'') ''cs'' (stored sample_both)"
proof -
  have "usable_resources (memory_reconciler ''cs'') ''cs'' (stored sample_both)"
    using sample_usable
    by (simp add: usable_resources_def sample_resources memory_reconciler_def GetCSNamespace_def sample_common_def
        new_common_def new_auditlogging_def Let_def zero_meta_def)
  moreover have "readable (memory_reconciler ''cs'') ''cs'' (stored sample_both) q" for q
  proof -
    have none: "objects (stored sample_both) (KConfigMap, k) = None" for k
      by (simp add: stored_def sample_both_def sample_cluster_def)
    have "steps_wf stored (ca_gauges (memory_reconciler ''cs'') a) sample_both" for a
      using none by (auto simp: steps_wf_def ca_gauges_def ca_parts_def config_gauge_def
          issuer_gauge_def cert_gauge_def secret_gauge_def account_gauge_def service_gauge_def fluentd_gauge_def
          value_wf_def split: option.splits)
    moreover have "steps_wf stored (al_gauges (memory_reconciler ''cs'') a ''cs'') sample_both" for a
      using none al_gauges_wf[of "memory_reconciler ''cs''" a "''cs''" "objects (stored sample_both)"] by (simp add: steps_wf_def)
    ultimately show ?thesis
      by (cases q) (auto simp: readable_def gauges_of_def steps_wf_def split: option.splits)
  qed
  ultimately show ?thesis by (simp add: orderly_def)
qed

lemma sample_history: "operator_history stored (memory_reconciler ''cs'') ''cs'' sample_start"
  unfolding sample_start_def sample_requests[symmetric]
  by (rule operator_history.started) (simp_all add: sample_orderly)

lemma sample_run:
  obtains n c fs g a b where "runs stored (memory_reconciler ''cs'') n 0 sample_start (((c, fs), g), {})"
    "operator_history stored (memory_reconciler ''cs'') ''cs'' (((c, fs), g), {})"
    "commons (stored c) = [a]" "same_common sample_common a" "audits (stored c) = [b]" "kept_audit (new_auditlogging ''al'') b"
proof -
  let ?r = "memory_reconciler ''cs''"
  note laws = memory_lawful[of "''cs''"] memory_serves[of "''cs''"] memory_updates[of "''cs''"]
  note course = history_course[OF laws sample_history]
  obtain n m where m: "runs stored ?r n 0 sample_start m" "snd m = {}" using runs_to_rest[OF laws course] by blast
  obtain c fs g where eq: "m = (((c, fs), g), {})" using m(2) by (metis prod.collapse)
  have "operator_history stored ?r ''cs'' m" using runs_history[OF m(1) sample_history] .
  moreover have "kept_resources (stored sample_both) (stored c)"
    using runs_only_operands[OF laws m(1) course] by (simp add: eq sample_start_def only_operands_def)
  then obtain a b where "commons (stored c) = [a]" "same_common sample_common a"
      "audits (stored c) = [b]" "kept_audit (new_auditlogging ''al'') b"
    by (auto simp: kept_resources_def sample_resources list_all2_Cons1)
  ultimately show ?thesis using that m(1) unfolding eq by blast
qed

theorem unqueued_in_place_witness:
  "\<exists>c fs g a b. operator_history stored (memory_reconciler ''cs'') ''cs'' (((c, fs), g), {}) \<and>
    commons (stored c) = [a] \<and> same_common sample_common a \<and> common_in_place (memory_reconciler ''cs'') a (stored c) \<and>
    audits (stored c) = [b] \<and> kept_audit (new_auditlogging ''al'') b \<and> al_decided b \<and>
    audit_in_place (memory_reconciler ''cs'') b ''cs'' (stored c)"
proof (rule sample_run)
  let ?r = "memory_reconciler ''cs''"
  fix n c fs g a b
  assume h: "operator_history stored ?r ''cs'' (((c, fs), g), {})" "commons (stored c) = [a]" "audits (stored c) = [b]"
    and same: "same_common sample_common a" "kept_audit (new_auditlogging ''al'') b"
  have "common_in_place ?r a (stored c)" "al_decided b" "audit_in_place ?r b ''cs'' (stored c)"
    using unqueued_in_place[OF memory_lawful memory_serves memory_updates h(1)] h(2,3) by simp_all
  then show ?thesis using h same by blast
qed

theorem operator_comes_to_rest_witness:
  "\<exists>n c fs g. runs stored (memory_reconciler ''cs'') n 0 sample_start (((c, fs), g), {}) \<and> n \<le> 109 \<and>
    all_in_place (memory_reconciler ''cs'') ''cs'' (stored c) \<and>
    only_operands (memory_reconciler ''cs'') ''cs'' (stored sample_both) (stored c)"
proof (rule sample_run)
  let ?r = "memory_reconciler ''cs''"
  fix n c fs g
  assume run: "runs stored ?r n 0 sample_start (((c, fs), g), {})"
  from operator_comes_to_rest[OF memory_lawful memory_serves memory_updates sample_history[unfolded sample_start_def]
      run[unfolded sample_start_def]]
  show ?thesis using run by (auto simp: sample_resources)
qed

end
