(* ===== verification/Stability.thy ===== *)
theory Stability
  imports CommonAuditConverges AuditLoggingConverges
begin

text \<open>
  What is in place stays in place: a controller that finds its operands as they should be changes no object,
  so it restarts no pods and does not ask for another round.
\<close>

subsection \<open>A list of steps with nothing to do\<close>

definition at_rest :: "('w \<Rightarrow> cluster) \<Rightarrow> gauge list \<Rightarrow> 'w \<Rightarrow> bool" where
  "at_rest view gs w \<longleftrightarrow> (\<forall>g \<in> set gs. value_rank g (objects (view w) (g_key g)) = 0)"

lemma quiet_run:
  fixes view :: "'w \<Rightarrow> cluster"
  assumes "\<And>g f. (g, f) \<in> set parts \<Longrightarrow> measured_state view ok g f"
    and "at_rest view (map fst parts) (fst s)" "steps_wf view (map fst parts) (fst s)" "ok (snd s)"
  shows "\<exists>s'. run_reconcilers (map snd parts) s = (Done, s') \<and> view (fst s') = view (fst s) \<and> ok (snd s')"
  using assms
proof (induction parts arbitrary: s)
  case (Cons p parts)
  obtain g f where p: "p = (g, f)" by (cases p)
  have "value_rank g (objects (view (fst s)) (g_key g)) = 0" "value_wf g (objects (view (fst s)) (g_key g))"
    using Cons.prems(2,3) by (simp_all add: at_rest_def steps_wf_def p)
  then obtain s1 where s1: "f s = (Done, s1)" "view (fst s1) = view (fst s)" "ok (snd s1)"
    using Cons.prems(1)[of g f] Cons.prems(4) unfolding measured_state_def Let_def settles_def p by fastforce
  have "at_rest view (map fst parts) (fst s1)" "steps_wf view (map fst parts) (fst s1)"
    using Cons.prems(2,3) s1(2) by (simp_all add: at_rest_def steps_wf_def)
  from Cons.IH[OF _ this s1(3)] Cons.prems(1) obtain s' where
    "run_reconcilers (map snd parts) s1 = (Done, s')" "view (fst s') = view (fst s1)" "ok (snd s')" by auto
  then show ?case using s1 by (simp add: p stops_def)
qed auto

subsection \<open>CommonAudit\<close>

lemma ca_in_place_rest:
  assumes inv: "ca_inv view ad r inst req c0 (w, g)" and place: "common_in_place r inst (view w)"
  shows "at_rest view (ca_gauges r inst) w"
proof -
  let ?c = "view w"
  have yaml: "yaml_literal (r_yaml r)" "values_ok inst" using inv by (simp_all add: ca_inv_def lawful_def)
  have config: "value_rank (config_gauge inst name (expected_config r inst name))
      (objects ?c (KConfigMap, NamespacedName (ca_Namespace inst) name)) = 0" if name: "name \<in> set FluentdConfigMaps" for name
  proof -
    let ?g = "config_gauge inst name (expected_config r inst name)"
    have e: "BuildFluentdConfigMap (r_yaml r) inst name = Inr (expected_config r inst name)"
      using BuildFluentdConfigMap_total[OF yaml name] by (auto simp: expected_config_def)
    have "config_in_place r inst ?c name" using place name by (simp add: common_in_place_def Let_def)
    then obtain cm where cm: "objects ?c (KConfigMap, NamespacedName (ca_Namespace inst) name) = Some (OConfigMap cm)"
        "ca_config_drift inst name (expected_config r inst name) cm = InSync"
      using e by (auto simp: config_in_place_def)
    have "?g \<in> set (ca_gauges r inst)" using name by (simp add: ca_gauges_def ca_parts_def)
    then have "value_wf ?g (objects ?c (g_key ?g))" using inv by (simp add: ca_inv_def steps_wf_def)
    then have "config_wf inst name (OConfigMap cm)" using cm(1) by (simp add: config_gauge_def)
    then show ?thesis using config_rank_0 cm by (simp add: config_gauge_def)
  qed
  have rest: "value_rank (issuer_gauge (BuildGodIssuer (ca_Namespace inst))) (objects ?c (KIssuer, meta_key (i_Meta (BuildGodIssuer (ca_Namespace inst))))) = 0"
    "value_rank (issuer_gauge (BuildRootCAIssuer (ca_Namespace inst))) (objects ?c (KIssuer, meta_key (i_Meta (BuildRootCAIssuer (ca_Namespace inst))))) = 0"
    "value_rank (cert_gauge (BuildRootCACert (ca_Namespace inst))) (objects ?c (KCert, meta_key (ct_Meta (BuildRootCACert (ca_Namespace inst))))) = 0"
    "value_rank (cert_gauge (expected_https_cert inst)) (objects ?c (KCert, meta_key (ct_Meta (expected_https_cert inst)))) = 0"
    "value_rank (secret_gauge inst) (objects ?c (KSecret, NamespacedName (ca_Namespace inst) AuditLoggingClientCertSecName)) = 0"
    "value_rank (account_gauge inst) (objects ?c (KAccount, NamespacedName (ca_Namespace inst) OperandServiceAccount)) = 0"
    "value_rank (service_gauge (BuildAuditService (ca_Name inst) (ca_Namespace inst)))
       (objects ?c (KService, NamespacedName (ca_Namespace inst) AuditLoggingComponentName)) = 0"
    "value_rank (fluentd_gauge r inst) (objects ?c (KDeployment, NamespacedName (ca_Namespace inst) FluentdDeploymentName)) = 0"
    using place
    unfolding common_in_place_def Let_def issuer_in_place_def cert_in_place_def issuer_gauge_def cert_gauge_def
      secret_gauge_def account_gauge_def service_gauge_def fluentd_gauge_def object_in_place
    by blast+
  have keys: "g_key (config_gauge inst name e) = (KConfigMap, NamespacedName (ca_Namespace inst) name)"
    "g_key (issuer_gauge i) = (KIssuer, meta_key (i_Meta i))" "g_key (cert_gauge ct) = (KCert, meta_key (ct_Meta ct))"
    "g_key (secret_gauge inst) = (KSecret, NamespacedName (ca_Namespace inst) AuditLoggingClientCertSecName)"
    "g_key (account_gauge inst) = (KAccount, NamespacedName (ca_Namespace inst) OperandServiceAccount)"
    "g_key (service_gauge sv) = (KService, meta_key (sv_Meta sv))"
    "g_key (fluentd_gauge r inst) = (KDeployment, NamespacedName (ca_Namespace inst) FluentdDeploymentName)"
    for name e i ct sv
    by (simp_all add: config_gauge_def issuer_gauge_def cert_gauge_def secret_gauge_def account_gauge_def
        service_gauge_def fluentd_gauge_def)
  show ?thesis
    unfolding at_rest_def ca_gauges_def ca_parts_def using config rest by (auto simp: keys service_key)
qed

lemma ca_round_at_rest:
  assumes inv: "ca_inv view ad r inst req c0 (w, g)" and serves: "serves_common view (r_cr r)"
    and rest: "at_rest view (ca_gauges r inst) w"
  shows "\<exists>w' g'. ca_Reconcile r req (w, g) = (Done, (w', g')) \<and> objects (view w') = objects (view w)"
proof -
  obtain b w0 where entry: "ca_Reconcile r req (w, g) = ca_run r b (w0, g)" and b: "same_common inst b"
    and w0: "objects (view w0) = objects (view w)" "ca_inv view ad r inst req c0 (w0, g)"
    using ca_entry[OF inv serves] by blast
  have H: "lawful view ad r" "values_ok inst" "usable_aliases inst" "built g"
    "steps_wf view (map fst (ca_parts r inst)) w0"
    using w0(2) by (simp_all add: ca_inv_def ca_gauges_def)
  have "at_rest view (map fst (ca_parts r inst)) w0" using rest w0(1) by (simp add: at_rest_def ca_gauges_def)
  with quiet_run[of "ca_parts r inst" view built "(w0, g)", OF ca_parts_measured[OF H(1-3)]] H(4,5)
  obtain w1 g1 where run: "run_reconcilers (map snd (ca_parts r inst)) (w0, g) = (Done, (w1, g1))"
      "view w1 = view w0" "built g1" by auto
  have steps: "map snd (ca_steps r inst) = map snd (ca_parts r inst)" by (simp add: ca_steps_def comp_def split_def)
  have "ca_inv view ad r inst req c0 (w1, g1)" using ca_inv_view[OF w0(2) run(2)] run(3) by (simp add: ca_inv_def)
  from ca_status_quiet[OF this serves b] obtain w2 where
    w2: "ca_updateStatus r b w1 = (Done, w2)" "objects (view w2) = objects (view w1)" .
  have "run_reconcilers (ca_reconcilers r b) (w0, g) = (Done, (w2, g1))"
    using run_and_finish[OF ca_reconcilers_flat, of r b "(w0, g)" Done "(w1, g1)" "(w2, g1)"] run(1) w2(1)
    by (simp add: ca_run_same[OF b] steps lift_world_def stops_def)
  then show ?thesis
    using entry w2(2) run(2) w0(1)
    by (simp add: ca_run_def stops_def ca_updateEvent_def serves_common_rest(3)[OF serves])
qed

subsection \<open>AuditLogging\<close>

lemma al_in_place_rest:
  assumes inv: "al_inv view ad r inst req ns c0 (w, g)" and place: "audit_in_place r inst ns (view w)"
  shows "at_rest view (al_gauges r inst ns) w"
proof -
  let ?c = "view w"
  have yaml: "yaml_literal (r_yaml r)" using inv by (simp add: al_inv_def lawful_def)
  have config: "value_rank (al_config_gauge ns name (al_expected_config r inst ns name))
      (objects ?c (KConfigMap, NamespacedName ns name)) = 0" if name: "name \<in> set FluentdConfigMaps" for name
  proof -
    let ?e = "al_expected_config r inst ns name"
    let ?g = "al_config_gauge ns name ?e"
    have e: "BuildConfigMap (r_yaml r) inst name ns = Inr ?e"
      using BuildConfigMap_new[OF yaml name, of inst ns] by (auto simp: al_expected_config_def)
    have "al_config_in_place r inst ns ?c name" using place name by (simp add: audit_in_place_def)
    then obtain cm where cm: "objects ?c (KConfigMap, NamespacedName ns name) = Some (OConfigMap cm)"
        "al_config_drift (r_yaml r) name ?e cm = InSync"
      using e by (auto simp: al_config_in_place_def)
    have "?g \<in> set (al_gauges r inst ns)" using name by (simp add: al_gauges_def al_parts_def)
    then have "value_wf ?g (objects ?c (g_key ?g))" using inv by (simp add: al_inv_def steps_wf_def)
    then have "al_config_wf name (OConfigMap cm)" using cm(1) by (simp add: al_config_gauge_def)
    from al_config_drift_cases[OF yaml name this, of ?e] cm(2) have "al_in_sync name ?e cm"
      by (auto split: if_splits)
    then show ?thesis using cm(1) by (simp add: al_config_gauge_def)
  qed
  have policy: "value_rank (policy_gauge r inst ns)
      (objects ?c (KDeployment, NamespacedName ns AuditPolicyControllerDeploy)) = 0"
    using place
    by (cases "objects ?c (KDeployment, NamespacedName ns AuditPolicyControllerDeploy)")
      (auto simp: audit_in_place_def policy_in_place_def policy_gauge_def Let_def object_gauge_def)
  have rest: "value_rank (job_gauge ns) (objects ?c (KJob, NamespacedName ns JobName)) = 0"
    "value_rank (cert_gauge (al_expected_cert inst ns AuditLoggingHTTPSCertName))
       (objects ?c (KCert, meta_key (ct_Meta (al_expected_cert inst ns AuditLoggingHTTPSCertName)))) = 0"
    "value_rank (cert_gauge (al_expected_cert inst ns AuditLoggingCertName))
       (objects ?c (KCert, meta_key (ct_Meta (al_expected_cert inst ns AuditLoggingCertName)))) = 0"
    "value_rank (al_account_gauge ns) (objects ?c (KAccount, NamespacedName ns OperandServiceAccount)) = 0"
    "value_rank (service_gauge (BuildAuditService (al_Name inst) ns))
       (objects ?c (KService, NamespacedName ns AuditLoggingComponentName)) = 0"
    "value_rank (daemonset_gauge r inst ns) (objects ?c (KDaemonSet, NamespacedName ns FluentdDaemonSetName)) = 0"
    using place
    unfolding audit_in_place_def cert_in_place_def job_gauge_def cert_gauge_def al_account_gauge_def
      service_gauge_def daemonset_gauge_def object_in_place
    by blast+
  have keys: "g_key (al_config_gauge ns name e) = (KConfigMap, NamespacedName ns name)"
    "g_key (policy_gauge r inst ns) = (KDeployment, NamespacedName ns AuditPolicyControllerDeploy)"
    "g_key (job_gauge ns) = (KJob, NamespacedName ns JobName)" "g_key (cert_gauge ct) = (KCert, meta_key (ct_Meta ct))"
    "g_key (al_account_gauge ns) = (KAccount, NamespacedName ns OperandServiceAccount)"
    "g_key (service_gauge sv) = (KService, meta_key (sv_Meta sv))"
    "g_key (daemonset_gauge r inst ns) = (KDaemonSet, NamespacedName ns FluentdDaemonSetName)" for name e ct sv
    by (simp_all add: al_config_gauge_def policy_gauge_def Let_def job_gauge_def cert_gauge_def al_account_gauge_def
        service_gauge_def daemonset_gauge_def)
  show ?thesis
    unfolding at_rest_def al_gauges_def al_parts_def using config policy rest by (auto simp: keys service_key)
qed

lemma al_round_at_rest:
  assumes inv: "al_inv view ad r inst req ns c0 (w, g)" and serves: "serves_audit view (r_cr r)" and decided: "al_decided inst"
    and rest: "at_rest view (al_gauges r inst ns) w"
  shows "\<exists>w' g'. al_Reconcile r req (w, g) = (Done, (w', g')) \<and> objects (view w') = objects (view w)"
proof -
  obtain b w0 where entry: "al_Reconcile r req (w, g) = al_run r b ns (w0, g)" and b: "same_audit inst b"
    and w0: "objects (view w0) = objects (view w)" "al_inv view ad r inst req ns c0 (w0, g)"
    using al_entry[OF inv serves decided] by blast
  have H: "lawful view ad r" "m_Namespace (al_Meta inst) = []" "built g"
    "steps_wf view (map fst (al_parts r inst ns)) w0"
    using w0(2) by (simp_all add: al_inv_def al_gauges_def)
  have "at_rest view (map fst (al_parts r inst ns)) w0" using rest w0(1) by (simp add: at_rest_def al_gauges_def)
  with quiet_run[of "al_parts r inst ns" view built "(w0, g)", OF al_parts_measured[OF H(1,2), where ns = ns]] H(3,4)
  obtain w1 g1 where run: "run_reconcilers (map snd (al_parts r inst ns)) (w0, g) = (Done, (w1, g1))"
      "view w1 = view w0" "built g1" by auto
  have steps: "map snd (al_steps r inst ns) = map snd (al_parts r inst ns)" by (simp add: al_steps_def comp_def split_def)
  have "al_inv view ad r inst req ns c0 (w1, g1)" using al_inv_view[OF w0(2) run(2)] run(3) by (simp add: al_inv_def)
  from al_status_quiet[OF this serves b] obtain w2 where
    w2: "al_updateStatus r b ns w1 = (Done, w2)" "objects (view w2) = objects (view w1)" .
  have "run_reconcilers (al_reconcilers r b ns) (w0, g) = (Done, (w2, g1))"
    using run_and_finish[OF al_reconcilers_flat, of r b ns "(w0, g)" Done "(w1, g1)" "(w2, g1)"] run(1) w2(1)
    by (simp add: al_run_same[OF b] steps lift_world_def stops_def)
  then show ?thesis
    using entry w2(2) run(2) w0(1)
    by (simp add: al_run_def stops_def al_updateEvent_def serves_audit_rest(3)[OF serves])
qed

subsection \<open>Properties\<close>

text \<open>C34: A CommonAudit whose operands are in place is left in peace. Under the hypotheses of its convergence
  Reconcile then ends at once, without an error and without another round, and changes no object: no operand
  is written again and no other object is touched. So the comparisons of all operands are stable against what the
  server makes of the objects that the operator itself has written.\<close>

theorem common_audit_stable:
  assumes "lawful view ad r" "serves_common view (r_cr r)"
    and "values_ok inst" "usable_aliases inst" "ca_admitted r inst req (view w)"
    and "steps_wf view (ca_gauges r inst) w" "built g"
    and "common_in_place r inst (view w)"
  shows "\<exists>w' g'. ca_Reconcile r req (w, g) = (Done, (w', g')) \<and> objects (view w') = objects (view w)"
proof -
  have inv: "ca_inv view ad r inst req (view w) (w, g)"
    using assms by (simp add: ca_inv_def others_kept_def)
  show ?thesis by (rule ca_round_at_rest[OF inv assms(2) ca_in_place_rest[OF inv assms(8)]])
qed

text \<open>The sample cluster after its rounds.\<close>

theorem common_audit_stable_witness:
  "case rounds 53 (ca_Reconcile (memory_reconciler ''cs'') (NamespacedName ''ns'' ''ca'')) (sample_cluster, init_globals) of
     Some (Done, (c, g)) \<Rightarrow>
       (\<exists>c' g'. ca_Reconcile (memory_reconciler ''cs'') (NamespacedName ''ns'' ''ca'') (c, init_globals) = (Done, (c', g')) \<and>
          objects (stored c') = objects (stored c))
   | _ \<Rightarrow> False"
proof -
  have inv: "ca_inv stored memory_admission (memory_reconciler ''cs'') sample_common (NamespacedName ''ns'' ''ca'')
      (stored sample_cluster) (sample_cluster, init_globals)"
    using memory_lawful sample_usable sample_admitted sample_readable built.init
    by (simp add: ca_inv_def others_kept_def)
  from ca_reaches[OF this memory_serves(1)] obtain c g where
    c: "rounds 53 (ca_Reconcile (memory_reconciler ''cs'') (NamespacedName ''ns'' ''ca'')) (sample_cluster, init_globals) =
        Some (Done, (c, g))"
      "ca_inv stored memory_admission (memory_reconciler ''cs'') sample_common (NamespacedName ''ns'' ''ca'')
        (stored sample_cluster) (c, g)" "common_in_place (memory_reconciler ''cs'') sample_common (stored c)" by auto
  have "\<exists>c' g'. ca_Reconcile (memory_reconciler ''cs'') (NamespacedName ''ns'' ''ca'') (c, init_globals) = (Done, (c', g')) \<and>
      objects (stored c') = objects (stored c)"
    by (rule common_audit_stable[OF memory_lawful memory_serves(1) sample_usable _ _ built.init c(3)])
      (use c(2) in \<open>simp_all add: ca_inv_def\<close>)
  then show ?thesis by (simp add: c(1))
qed

text \<open>C35: An AuditLogging whose operands are in place is left in peace: under the hypotheses of its convergence
  Reconcile ends at once, without an error and without another round, and changes no object.\<close>

theorem audit_logging_stable:
  assumes "lawful view ad r" "serves_audit view (r_cr r)"
    and "m_Namespace (al_Meta inst) = []" "al_admitted r inst req ns (view w)"
    and "steps_wf view (al_gauges r inst ns) w" "built g"
    and "audit_in_place r inst ns (view w)"
  shows "\<exists>w' g'. al_Reconcile r req (w, g) = (Done, (w', g')) \<and> objects (view w') = objects (view w)"
proof -
  have inv: "al_inv view ad r inst req ns (view w) (w, g)"
    using assms by (simp add: al_inv_def al_admitted_def others_kept_def)
  have decided: "al_decided inst" using assms(4) by (simp add: al_admitted_def)
  show ?thesis by (rule al_round_at_rest[OF inv assms(2) decided al_in_place_rest[OF inv assms(7)]])
qed

theorem audit_logging_stable_witness:
  "case rounds 25 (al_Reconcile (memory_reconciler ''cs'') (NamespacedName [] ''al'')) (sample_audit_cluster, init_globals) of
     Some (Done, (c, g)) \<Rightarrow>
       (\<exists>c' g'. al_Reconcile (memory_reconciler ''cs'') (NamespacedName [] ''al'') (c, init_globals) = (Done, (c', g')) \<and>
          objects (stored c') = objects (stored c))
   | _ \<Rightarrow> False"
proof -
  have inv: "al_inv stored memory_admission (memory_reconciler ''cs'') sample_audit (NamespacedName [] ''al'') ''cs''
      (stored sample_audit_cluster) (sample_audit_cluster, init_globals)"
    using memory_lawful sample_cluster_scoped sample_audit_admitted sample_audit_readable built.init
    by (simp add: al_inv_def al_admitted_def others_kept_def)
  from al_reaches[OF this memory_serves(2) sample_audit_decided] obtain c g where
    c: "rounds 25 (al_Reconcile (memory_reconciler ''cs'') (NamespacedName [] ''al'')) (sample_audit_cluster, init_globals) =
        Some (Done, (c, g))"
      "al_inv stored memory_admission (memory_reconciler ''cs'') sample_audit (NamespacedName [] ''al'') ''cs''
        (stored sample_audit_cluster) (c, g)" "audit_in_place (memory_reconciler ''cs'') sample_audit ''cs'' (stored c)" by auto
  have "\<exists>c' g'. al_Reconcile (memory_reconciler ''cs'') (NamespacedName [] ''al'') (c, init_globals) = (Done, (c', g')) \<and>
      objects (stored c') = objects (stored c)"
    by (rule audit_logging_stable[OF memory_lawful memory_serves(2) sample_cluster_scoped _ _ built.init c(3)])
      (use c(2) sample_audit_decided in \<open>simp_all add: al_inv_def al_admitted_def\<close>)
  then show ?thesis by (simp add: c(1))
qed

end
