(* ===== verification/StatusReports.thy ===== *)
theory StatusReports
  imports Stability "HOL-Library.Multiset"
begin

text \<open>
  The status of a resource after its controller has come to rest: it names the pods that exist then. Pods are not
  among the objects of \<open>cluster\<close>, since other controllers make them: \<open>pods w ns sel\<close> are those that a list request
  in the world \<open>w\<close> would return.
\<close>

subsection \<open>The laws\<close>

text \<open>
  Listing pods returns them; the status of a resource is read as it is stored, and stored as it is sent; an update
  of the status, and an event, makes or removes no pod.
\<close>

definition lists_pods :: "('w \<Rightarrow> cluster) \<Rightarrow> ('w \<Rightarrow> string \<Rightarrow> labels \<Rightarrow> pod list) \<Rightarrow> 'w reconciler \<Rightarrow> bool" where
  "lists_pods view pods r \<longleftrightarrow>
     (\<forall>ns sel w. \<exists>w'. cl_list_pods (r_client r) ns sel w = (Inr (pods w ns sel), w') \<and> view w' = view w \<and> pods w' = pods w) \<and>
     (\<forall>e w. pods (cr_event (r_cr r) e w) = pods w)"

definition keeps_common_status ::
    "('w \<Rightarrow> cluster) \<Rightarrow> ('w \<Rightarrow> string \<Rightarrow> labels \<Rightarrow> pod list) \<Rightarrow> 'w cr_client \<Rightarrow> bool" where
  "keeps_common_status view pods c \<longleftrightarrow>
     (\<forall>k w b w'. cr_get_common c k w = (Inr b, w') \<longrightarrow>
        (\<forall>a. find (\<lambda>a. meta_key (ca_Meta a) = k) (commons (view w)) = Some a \<longrightarrow> ca_Status b = ca_Status a)) \<and>
     (\<forall>x w b w'. cr_status_common c x w = (Inr b, w') \<longrightarrow> pods w' = pods w \<and>
        (\<forall>a. find (\<lambda>a. meta_key (ca_Meta a) = meta_key (ca_Meta x)) (commons (view w')) = Some a \<longrightarrow>
           ca_Status a = ca_Status x))"

definition keeps_audit_status ::
    "('w \<Rightarrow> cluster) \<Rightarrow> ('w \<Rightarrow> string \<Rightarrow> labels \<Rightarrow> pod list) \<Rightarrow> 'w cr_client \<Rightarrow> bool" where
  "keeps_audit_status view pods c \<longleftrightarrow>
     (\<forall>k w b w'. cr_get_audit c k w = (Inr b, w') \<longrightarrow>
        (\<forall>a. find (\<lambda>a. meta_key (al_Meta a) = k) (audits (view w)) = Some a \<longrightarrow> al_Status b = al_Status a)) \<and>
     (\<forall>x w b w'. cr_status_audit c x w = (Inr b, w') \<longrightarrow> pods w' = pods w \<and>
        (\<forall>a. find (\<lambda>a. meta_key (al_Meta a) = meta_key (al_Meta x)) (audits (view w')) = Some a \<longrightarrow>
           al_Status a = al_Status x))"

text \<open>What a status should say: every pod once, in the order of the alphabet, or \<open>none\<close>.\<close>

definition names_pods :: "string slice \<Rightarrow> pod list \<Rightarrow> bool" where
  "names_pods nodes ps \<longleftrightarrow> (\<exists>ns. nodes = Some ns \<and> sorted ns \<and>
     mset ns = (if ps = [] then {#''none''#} else mset (map (m_Name \<circ> pod_Meta) ps)))"

lemma status_nodes_names: "names_pods (status_nodes ps) ps"
  by (auto simp: names_pods_def status_nodes_def GetPodNames_eq Let_def DefaultStatusForCR_def sort_strings_def)

subsection \<open>CommonAudit\<close>

definition ca_reports ::
    "('w \<Rightarrow> cluster) \<Rightarrow> ('w \<Rightarrow> string \<Rightarrow> labels \<Rightarrow> pod list) \<Rightarrow> CommonAudit \<Rightarrow> 'w \<Rightarrow> bool" where
  "ca_reports view pods inst w \<longleftrightarrow>
     (\<exists>a. find (\<lambda>a. meta_key (ca_Meta a) = meta_key (ca_Meta inst)) (commons (view w)) = Some a \<and> same_common inst a \<and>
        names_pods (ca_Nodes (ca_Status a)) (pods w (ca_Namespace inst) (LabelsForSelector FluentdName (ca_Name inst))) \<and>
        Reconciled (ca_Versions (ca_Status a)) = opversion)"

lemma ca_stored_key:
  assumes "ca_inv view ad r inst req c0 s"
  shows "meta_key (ca_Meta inst) = req"
    "\<exists>a. find (\<lambda>a. meta_key (ca_Meta a) = req) (commons (view (fst s))) = Some a \<and> same_common inst a"
  using assms by (auto simp: ca_inv_def ca_admitted_def same_common_def find_Some_iff)

lemma ca_fetched_status:
  assumes fetched: "ca_fetched r req w b v" and keeps: "keeps_common_status view pods (r_cr r)"
    and serves: "serves_common view (r_cr r)" and inv: "ca_inv view ad r inst req c0 (w, g)"
    and a: "find (\<lambda>a. meta_key (ca_Meta a) = req) (commons (view v)) = Some a"
  shows "ca_Status b = ca_Status a"
proof -
  obtain b1 w1 where b1: "cr_get_common (r_cr r) req w = (Inr b1, w1)"
    and cases: "if length (elems (ca_Nodes (ca_Status b1))) = 0
         then cr_status_common (r_cr r) (ca_default_status b1) w1 = (Inr b, v) \<and> same_common b1 b
         else b = b1 \<and> v = w1"
    using fetched unfolding ca_fetched_def by blast
  obtain a0 where a0: "find (\<lambda>a. meta_key (ca_Meta a) = req) (commons (view w)) = Some a0" "same_common inst a0"
    using ca_stored_key(2)[OF inv] by auto
  have w1: "same_common a0 b1" "view w1 = view w"
    using serves_common_get[OF serves a0(1)] b1 by (metis Pair_inject sum.inject(2))+
  show ?thesis
  proof (cases "length (elems (ca_Nodes (ca_Status b1))) = 0")
    case True
    then have sent: "cr_status_common (r_cr r) (ca_default_status b1) w1 = (Inr b, v)" using cases by simp
    have key: "meta_key (ca_Meta (ca_default_status b1)) = req"
      using w1(1) a0 by (auto simp: same_common_def ca_default_status_def find_Some_iff)
    have "a0 \<in> set (commons (view w1))" "same_common a0 (ca_default_status b1)"
      using a0(1) w1 by (auto simp: find_Some_iff same_common_def ca_default_status_def)
    then have "ca_Status b = ca_Status (ca_default_status b1)"
      using serves_common_status[OF serves] sent by (metis Pair_inject sum.inject(2))
    moreover have "ca_Status a = ca_Status (ca_default_status b1)"
      using keeps sent a unfolding keeps_common_status_def key[symmetric] by blast
    ultimately show ?thesis by simp
  next
    case False
    then show ?thesis
      using cases a w1(2) b1 keeps unfolding keeps_common_status_def by metis
  qed
qed

lemma ca_status_reports:
  assumes inv: "ca_inv view ad r inst req c0 (w, g)" and serves: "serves_common view (r_cr r)"
    and same: "same_common inst b" and lists: "lists_pods view pods r" and keeps: "keeps_common_status view pods (r_cr r)"
    and current: "\<And>a. find (\<lambda>a. meta_key (ca_Meta a) = req) (commons (view w)) = Some a \<Longrightarrow> ca_Status b = ca_Status a"
  shows "\<exists>w'. ca_updateStatus r b w = (Done, w') \<and> ca_reports view pods inst w'"
proof -
  let ?ps = "pods w (ca_Namespace inst) (LabelsForSelector FluentdName (ca_Name inst))"
  let ?x = "b\<lparr>ca_Status := \<lparr>ca_Nodes = status_nodes ?ps, ca_Versions = \<lparr>Reconciled = opversion\<rparr>\<rparr>\<rparr>"
  have names: "ca_Namespace b = ca_Namespace inst" "ca_Name b = ca_Name inst"
    using same by (simp_all add: same_common_def meta_key_def)
  obtain w1 where w1: "cl_list_pods (r_client r) (ca_Namespace b) (LabelsForSelector FluentdName (ca_Name b)) w = (Inr ?ps, w1)"
      "view w1 = view w" "pods w1 = pods w"
    using lists unfolding lists_pods_def names by blast
  note inv1 = ca_inv_view[OF inv w1(2)]
  have x: "same_common inst ?x" using same by (simp add: same_common_def)
  show ?thesis
  proof (cases "status_nodes ?ps \<noteq> ca_Nodes (ca_Status b) \<or> opversion \<noteq> Reconciled (ca_Versions (ca_Status b))")
    case True
    from ca_status_request[OF inv1 serves x] obtain b2 w2 where
      w2: "cr_status_common (r_cr r) ?x w1 = (Inr b2, w2)" "ca_inv view ad r inst req c0 (w2, g)" .
    obtain a where a: "find (\<lambda>a. meta_key (ca_Meta a) = req) (commons (view w2)) = Some a" "same_common inst a"
      using ca_stored_key(2)[OF w2(2)] by auto
    have "meta_key (ca_Meta ?x) = req" using ca_stored_key(1)[OF inv] x by (simp add: same_common_def)
    then have "ca_Status a = ca_Status ?x" "pods w2 = pods w"
      using keeps w2(1) a(1) w1(3) unfolding keeps_common_status_def by metis+
    then have "ca_reports view pods inst w2"
      using a status_nodes_names[of ?ps] ca_stored_key(1)[OF inv] by (simp add: ca_reports_def)
    moreover have "ca_updateStatus r b w = (Done, w2)" using True w1(1) w2(1) by (simp add: ca_updateStatus_def)
    ultimately show ?thesis by blast
  next
    case False
    obtain a where a: "find (\<lambda>a. meta_key (ca_Meta a) = req) (commons (view w)) = Some a" "same_common inst a"
      using ca_stored_key(2)[OF inv] by auto
    then have "ca_reports view pods inst w1"
      using current[OF a(1)] False status_nodes_names[of ?ps] w1(2,3) ca_stored_key(1)[OF inv] by (simp add: ca_reports_def)
    moreover have "ca_updateStatus r b w = (Done, w1)" using False w1(1) by (simp add: ca_updateStatus_def Let_def)
    ultimately show ?thesis by blast
  qed
qed

text \<open>A round that ends quietly found everything at rest, and then reported the status.\<close>

lemma ca_settled_rest: "ca.settled r inst view s \<Longrightarrow> at_rest view (ca_gauges r inst) (fst s)"
  using steps_rank_gauge[OF ca_keys_distinct, of _ r inst view s]
  unfolding ca.settled_def at_rest_def by (force simp: ca_gauges_def ca_steps_def)

lemma ca_last_round:
  assumes inv: "ca_inv view ad r inst req c0 s" and serves: "serves_common view (r_cr r)"
  shows "\<exists>s1 s'. rounds 53 (ca_Reconcile r req) s = Some (Done, s') \<and> ca_inv view ad r inst req c0 s1 \<and>
    at_rest view (ca_gauges r inst) (fst s1) \<and> ca_Reconcile r req s1 = (Done, s')"
proof -
  have "ca.total r inst view s < 53" using ca_total_bound[OF inv] by linarith
  then show ?thesis using ca.rounds_last[OF ca_round[OF _ serves] inv] ca_settled_rest by blast
qed

lemma ca_done_reports:
  assumes inv: "ca_inv view ad r inst req c0 s" and serves: "serves_common view (r_cr r)"
    and lists: "lists_pods view pods r" and keeps: "keeps_common_status view pods (r_cr r)"
    and rest: "at_rest view (ca_gauges r inst) (fst s)" and quiet: "ca_Reconcile r req s = (Done, s')"
  shows "ca_reports view pods inst (fst s')"
proof -
  obtain w g where s: "s = (w, g)" by (cases s)
  note inv = inv[unfolded s]
  obtain b v w0 where entry: "ca_Reconcile r req (w, g) = ca_run r b (w0, g)" and b: "same_common inst b"
    and w0: "objects (view w0) = objects (view w)" "ca_inv view ad r inst req c0 (w0, g)"
    and fetched: "ca_fetched r req w b v" "view w0 = view v"
    using ca_fetch[OF inv serves] .
  have "at_rest view (map fst (ca_parts r inst)) w0"
    using rest[unfolded s] w0(1) by (simp add: at_rest_def ca_gauges_def)
  moreover have H: "lawful view ad r" "values_ok inst" "usable_aliases inst" "built g"
    "steps_wf view (map fst (ca_parts r inst)) w0"
    using w0(2) by (simp_all add: ca_inv_def ca_gauges_def)
  ultimately obtain w1 g1 where run: "run_reconcilers (map snd (ca_parts r inst)) (w0, g) = (Done, (w1, g1))"
      "view w1 = view w0" "built g1"
    using quiet_run[of "ca_parts r inst" view built "(w0, g)", OF ca_parts_measured[OF H(1-3)]] by auto
  have inv1: "ca_inv view ad r inst req c0 (w1, g1)" using ca_inv_view[OF w0(2) run(2)] run(3) by (simp add: ca_inv_def)
  have "ca_Status b = ca_Status a"
    if "find (\<lambda>a. meta_key (ca_Meta a) = req) (commons (view w1)) = Some a" for a
    using ca_fetched_status[OF fetched(1) keeps serves inv] that run(2) fetched(2) by simp
  from ca_status_reports[OF inv1 serves b lists keeps this] obtain w2 where
    w2: "ca_updateStatus r b w1 = (Done, w2)" "ca_reports view pods inst w2" by blast
  have steps: "map snd (ca_steps r inst) = map snd (ca_parts r inst)" by (simp add: ca_steps_def comp_def split_def)
  let ?w3 = "ca_updateEvent r b msg_deployed EventTypeNormal ''Deployed'' w2"
  have "run_reconcilers (ca_reconcilers r b) (w0, g) = (Done, (w2, g1))"
    using run_and_finish[OF ca_reconcilers_flat, of r b "(w0, g)" Done "(w1, g1)" "(w2, g1)"] run(1) w2(1)
    by (simp add: ca_run_same[OF b] steps lift_world_def stops_def)
  then have "s' = (?w3, g1)" using entry quiet by (simp add: s ca_run_def stops_def)
  moreover have "view ?w3 = view w2" "pods ?w3 = pods w2"
    using serves_common_rest(3)[OF serves] lists by (simp_all add: ca_updateEvent_def lists_pods_def)
  ultimately show ?thesis using w2(2) by (simp add: ca_reports_def)
qed

subsection \<open>AuditLogging\<close>

text \<open>Its status names the pods of the daemon set and those of the policy controller.\<close>

definition al_pods ::
    "('w \<Rightarrow> string \<Rightarrow> labels \<Rightarrow> pod list) \<Rightarrow> AuditLogging \<Rightarrow> string \<Rightarrow> 'w \<Rightarrow> pod list" where
  "al_pods pods inst ns w = pods w ns (LabelsForSelector FluentdName (al_Name inst)) @
     pods w ns (LabelsForSelector AuditPolicyControllerDeploy (al_Name inst))"

definition al_reports ::
    "('w \<Rightarrow> cluster) \<Rightarrow> ('w \<Rightarrow> string \<Rightarrow> labels \<Rightarrow> pod list) \<Rightarrow> AuditLogging \<Rightarrow> string \<Rightarrow> 'w \<Rightarrow> bool" where
  "al_reports view pods inst ns w \<longleftrightarrow>
     (\<exists>a. find (\<lambda>a. meta_key (al_Meta a) = meta_key (al_Meta inst)) (audits (view w)) = Some a \<and> same_audit inst a \<and>
        names_pods (al_Nodes (al_Status a)) (al_pods pods inst ns w) \<and>
        Reconciled (al_Versions (al_Status a)) = opversion)"

lemma al_stored_key:
  assumes "al_inv view ad r inst req ns c0 s"
  shows "meta_key (al_Meta inst) = req"
    "\<exists>a. find (\<lambda>a. meta_key (al_Meta a) = req) (audits (view (fst s))) = Some a \<and> same_audit inst a"
  using assms by (auto simp: al_inv_def al_alone_def same_audit_def find_Some_iff)

lemma al_fetched_status:
  assumes fetched: "al_fetched r req w b v" and keeps: "keeps_audit_status view pods (r_cr r)"
    and serves: "serves_audit view (r_cr r)" and inv: "al_inv view ad r inst req ns c0 (w, g)"
    and a: "find (\<lambda>a. meta_key (al_Meta a) = req) (audits (view v)) = Some a"
  shows "al_Status b = al_Status a"
proof -
  obtain b1 w1 where b1: "cr_get_audit (r_cr r) req w = (Inr b1, w1)"
    and cases: "if length (elems (al_Nodes (al_Status b1))) = 0
         then cr_status_audit (r_cr r) (al_default_status b1) w1 = (Inr b, v) \<and> same_audit b1 b
         else b = b1 \<and> v = w1"
    using fetched unfolding al_fetched_def by blast
  obtain a0 where a0: "find (\<lambda>a. meta_key (al_Meta a) = req) (audits (view w)) = Some a0" "same_audit inst a0"
    using al_stored_key(2)[OF inv] by auto
  have w1: "same_audit a0 b1" "view w1 = view w"
    using serves_audit_get[OF serves a0(1)] b1 by (metis Pair_inject sum.inject(2))+
  show ?thesis
  proof (cases "length (elems (al_Nodes (al_Status b1))) = 0")
    case True
    then have sent: "cr_status_audit (r_cr r) (al_default_status b1) w1 = (Inr b, v)" using cases by simp
    have key: "meta_key (al_Meta (al_default_status b1)) = req"
      using w1(1) a0 by (auto simp: same_audit_def al_default_status_def find_Some_iff)
    have "a0 \<in> set (audits (view w1))" "same_audit a0 (al_default_status b1)"
      using a0(1) w1 by (auto simp: find_Some_iff same_audit_def al_default_status_def)
    then have "al_Status b = al_Status (al_default_status b1)"
      using serves_audit_status[OF serves] sent by (metis Pair_inject sum.inject(2))
    moreover have "al_Status a = al_Status (al_default_status b1)"
      using keeps sent a unfolding keeps_audit_status_def key[symmetric] by blast
    ultimately show ?thesis by simp
  next
    case False
    then show ?thesis
      using cases a w1(2) b1 keeps unfolding keeps_audit_status_def by metis
  qed
qed

lemma al_status_reports:
  assumes inv: "al_inv view ad r inst req ns c0 (w, g)" and serves: "serves_audit view (r_cr r)"
    and same: "same_audit inst b" and lists: "lists_pods view pods r" and keeps: "keeps_audit_status view pods (r_cr r)"
    and current: "\<And>a. find (\<lambda>a. meta_key (al_Meta a) = req) (audits (view w)) = Some a \<Longrightarrow> al_Status b = al_Status a"
  shows "\<exists>w'. al_updateStatus r b ns w = (Done, w') \<and> al_reports view pods inst ns w'"
proof -
  let ?ps = "al_pods pods inst ns w"
  let ?x = "b\<lparr>al_Status := \<lparr>al_Nodes = status_nodes ?ps, al_Versions = \<lparr>Reconciled = opversion\<rparr>\<rparr>\<rparr>"
  have name: "al_Name b = al_Name inst" using same by (simp add: same_audit_def meta_key_def)
  have list: "\<exists>w'. cl_list_pods (r_client r) ns sel v = (Inr (pods v ns sel), w') \<and> view w' = view v \<and> pods w' = pods v"
    for sel v using lists unfolding lists_pods_def by blast
  obtain w0 where w0: "cl_list_pods (r_client r) ns (LabelsForSelector FluentdName (al_Name b)) w =
      (Inr (pods w ns (LabelsForSelector FluentdName (al_Name inst))), w0)" "view w0 = view w" "pods w0 = pods w"
    using list unfolding name by blast
  obtain w1 where w1': "cl_list_pods (r_client r) ns (LabelsForSelector AuditPolicyControllerDeploy (al_Name b)) w0 =
      (Inr (pods w ns (LabelsForSelector AuditPolicyControllerDeploy (al_Name inst))), w1)" "view w1 = view w0" "pods w1 = pods w0"
    using list[of _ w0] unfolding name w0(3) by blast
  have w1: "view w1 = view w" "pods w1 = pods w" using w0 w1' by simp_all
  note inv1 = al_inv_view[OF inv w1(1)]
  have x: "same_audit inst ?x" using same by (simp add: same_audit_def)
  show ?thesis
  proof (cases "status_nodes ?ps \<noteq> al_Nodes (al_Status b) \<or> opversion \<noteq> Reconciled (al_Versions (al_Status b))")
    case True
    from al_status_request[OF inv1 serves x] obtain b2 w2 where
      w2: "cr_status_audit (r_cr r) ?x w1 = (Inr b2, w2)" "al_inv view ad r inst req ns c0 (w2, g)" .
    obtain a where a: "find (\<lambda>a. meta_key (al_Meta a) = req) (audits (view w2)) = Some a" "same_audit inst a"
      using al_stored_key(2)[OF w2(2)] by auto
    have "meta_key (al_Meta ?x) = req" using al_stored_key(1)[OF inv] x by (simp add: same_audit_def)
    then have "al_Status a = al_Status ?x" "pods w2 = pods w"
      using keeps w2(1) a(1) w1(2) unfolding keeps_audit_status_def by metis+
    then have "al_reports view pods inst ns w2"
      using a status_nodes_names[of ?ps] al_stored_key(1)[OF inv] by (simp add: al_reports_def al_pods_def)
    moreover have "al_updateStatus r b ns w = (Done, w2)"
      using True w0(1) w1'(1) w2(1) by (simp add: al_updateStatus_def al_pods_def)
    ultimately show ?thesis by blast
  next
    case False
    obtain a where a: "find (\<lambda>a. meta_key (al_Meta a) = req) (audits (view w)) = Some a" "same_audit inst a"
      using al_stored_key(2)[OF inv] by auto
    then have "al_reports view pods inst ns w1"
      using current[OF a(1)] False status_nodes_names[of ?ps] w1 al_stored_key(1)[OF inv] by (simp add: al_reports_def al_pods_def)
    moreover have "al_updateStatus r b ns w = (Done, w1)"
      using False w0(1) w1'(1) by (simp add: al_updateStatus_def al_pods_def Let_def)
    ultimately show ?thesis by blast
  qed
qed

lemma al_settled_rest: "al.settled r inst ns view s \<Longrightarrow> at_rest view (al_gauges r inst ns) (fst s)"
  using steps_rank_gauge[OF al_keys_distinct, of _ r inst ns view s]
  unfolding al.settled_def at_rest_def by (force simp: al_gauges_def al_steps_def)

lemma al_last_round:
  assumes inv: "al_inv view ad r inst req ns c0 s" and serves: "serves_audit view (r_cr r)" and decided: "al_decided inst"
  shows "\<exists>s1 s'. rounds 25 (al_Reconcile r req) s = Some (Done, s') \<and> al_inv view ad r inst req ns c0 s1 \<and>
    at_rest view (al_gauges r inst ns) (fst s1) \<and> al_Reconcile r req s1 = (Done, s')"
proof -
  have "al.total r inst ns view s < 25" using al_total_bound[of r inst ns view s] by linarith
  then show ?thesis using al.rounds_last[OF al_round[OF _ serves decided] inv] al_settled_rest by blast
qed

lemma al_done_reports:
  assumes inv: "al_inv view ad r inst req ns c0 s" and serves: "serves_audit view (r_cr r)" and decided: "al_decided inst"
    and lists: "lists_pods view pods r" and keeps: "keeps_audit_status view pods (r_cr r)"
    and rest: "at_rest view (al_gauges r inst ns) (fst s)" and quiet: "al_Reconcile r req s = (Done, s')"
  shows "al_reports view pods inst ns (fst s')"
proof -
  obtain w g where s: "s = (w, g)" by (cases s)
  note inv = inv[unfolded s]
  obtain b v w0 where entry: "al_Reconcile r req (w, g) = al_run r b ns (w0, g)" and b: "same_audit inst b"
    and w0: "objects (view w0) = objects (view w)" "al_inv view ad r inst req ns c0 (w0, g)"
    and fetched: "al_fetched r req w b v" "view w0 = view v"
    using al_fetch[OF inv serves decided] .
  have "at_rest view (map fst (al_parts r inst ns)) w0"
    using rest[unfolded s] w0(1) by (simp add: at_rest_def al_gauges_def)
  moreover have H: "lawful view ad r" "m_Namespace (al_Meta inst) = []" "built g"
    "steps_wf view (map fst (al_parts r inst ns)) w0"
    using w0(2) by (simp_all add: al_inv_def al_gauges_def)
  ultimately obtain w1 g1 where run: "run_reconcilers (map snd (al_parts r inst ns)) (w0, g) = (Done, (w1, g1))"
      "view w1 = view w0" "built g1"
    using quiet_run[of "al_parts r inst ns" view built "(w0, g)", OF al_parts_measured[OF H(1,2), where ns = ns]] by auto
  have inv1: "al_inv view ad r inst req ns c0 (w1, g1)" using al_inv_view[OF w0(2) run(2)] run(3) by (simp add: al_inv_def)
  have "al_Status b = al_Status a"
    if "find (\<lambda>a. meta_key (al_Meta a) = req) (audits (view w1)) = Some a" for a
    using al_fetched_status[OF fetched(1) keeps serves inv] that run(2) fetched(2) by simp
  from al_status_reports[OF inv1 serves b lists keeps this] obtain w2 where
    w2: "al_updateStatus r b ns w1 = (Done, w2)" "al_reports view pods inst ns w2" by blast
  have steps: "map snd (al_steps r inst ns) = map snd (al_parts r inst ns)" by (simp add: al_steps_def comp_def split_def)
  let ?w3 = "al_updateEvent r b msg_deployed EventTypeNormal ''Deployed'' w2"
  have "run_reconcilers (al_reconcilers r b ns) (w0, g) = (Done, (w2, g1))"
    using run_and_finish[OF al_reconcilers_flat, of r b ns "(w0, g)" Done "(w1, g1)" "(w2, g1)"] run(1) w2(1)
    by (simp add: al_run_same[OF b] steps lift_world_def stops_def)
  then have "s' = (?w3, g1)" using entry quiet by (simp add: s al_run_def stops_def)
  moreover have "view ?w3 = view w2" "pods ?w3 = pods w2"
    using serves_audit_rest(3)[OF serves] lists by (simp_all add: al_updateEvent_def lists_pods_def)
  ultimately show ?thesis using w2(2) by (simp add: al_reports_def al_pods_def)
qed

subsection \<open>Properties\<close>

text \<open>C36: Once the controller of CommonAudit has come to rest, after the rounds in which it converges, the status of
  the stored resource tells what is there: its nodes are the names of the fluentd pods of the resource that exist
  then, every pod once and sorted, or \<open>none\<close> when there is no pod, and its version is that of the operator; the spec
  is the one that was served. The server reads and stores the status of a resource as it is.\<close>

theorem common_audit_reports:
  assumes "lawful view ad r" "serves_common view (r_cr r)"
    and "lists_pods view pods r" "keeps_common_status view pods (r_cr r)"
    and "values_ok inst" "usable_aliases inst" "ca_admitted r inst req (view w)"
    and "steps_wf view (ca_gauges r inst) w" "built g"
  shows "\<exists>w' g'. rounds 53 (ca_Reconcile r req) (w, g) = Some (Done, (w', g')) \<and> ca_reports view pods inst w'"
proof -
  have inv: "ca_inv view ad r inst req (view w) (w, g)"
    using assms by (simp add: ca_inv_def others_kept_def)
  from ca_last_round[OF this assms(2)] obtain s1 w' g' where last:
    "rounds 53 (ca_Reconcile r req) (w, g) = Some (Done, (w', g'))" "ca_inv view ad r inst req (view w) s1"
    "at_rest view (ca_gauges r inst) (fst s1)" "ca_Reconcile r req s1 = (Done, (w', g'))" by auto
  from ca_done_reports[OF last(2) assms(2-4) last(3,4)] show ?thesis using last(1) by simp
qed

text \<open>A server with two pods.\<close>

definition sample_pods :: "pod list" where
  "sample_pods = map (\<lambda>name. \<lparr>pod_Meta = zero_meta\<lparr>m_Name := name\<rparr>\<rparr>) [''fluentd-b'', ''fluentd-a'']"

definition podded :: "cluster reconciler \<Rightarrow> cluster reconciler" where
  "podded r = r\<lparr>r_client := (r_client r)\<lparr>cl_list_pods := (\<lambda>ns sel c. (Inr sample_pods, c))\<rparr>\<rparr>"

lemma podded_simps [simp]: "r_cr (podded r) = r_cr r"
  by (simp add: podded_def)

lemma podded_laws:
  "lawful stored memory_admission (podded (memory_reconciler ns))"
  "lists_pods stored (\<lambda>w ns sel. sample_pods) (podded (memory_reconciler ns))"
  "keeps_common_status stored (\<lambda>w ns sel. sample_pods) (r_cr (memory_reconciler ns))"
  "keeps_audit_status stored (\<lambda>w ns sel. sample_pods) (r_cr (memory_reconciler ns))"
proof -
  show "lawful stored memory_admission (podded (memory_reconciler ns))"
    using memory_lawful[of ns] by (simp add: lawful_def podded_def stores_objects_def)
  show "lists_pods stored (\<lambda>w ns sel. sample_pods) (podded (memory_reconciler ns))"
    by (simp add: lists_pods_def podded_def)
  have find_map: "find P (map f xs) = map_option f (find P xs)" if "\<And>x. P (f x) = P x"
    for P and f :: "'x \<Rightarrow> 'x" and xs by (induction xs) (simp_all add: that)
  have set_status: "a = a\<lparr>ca_Status := t\<rparr> \<Longrightarrow> ca_Status a = t" "b = b\<lparr>al_Status := u\<rparr> \<Longrightarrow> al_Status b = u" for a b t u
    by (drule arg_cong[of _ _ ca_Status], simp) (drule arg_cong[of _ _ al_Status], simp)
  have found: "P x" if "find P xs = Some x" for P and x :: 'x and xs using that by (auto simp: find_Some_iff)
  show "keeps_common_status stored (\<lambda>w ns sel. sample_pods) (r_cr (memory_reconciler ns))"
    by (auto simp: keeps_common_status_def memory_reconciler_def memory_cr_client_def memory_common_status_def
        find_map dest: found set_status(1) split: option.splits)
  show "keeps_audit_status stored (\<lambda>w ns sel. sample_pods) (r_cr (memory_reconciler ns))"
    by (auto simp: keeps_audit_status_def memory_reconciler_def memory_cr_client_def memory_audit_status_def
        find_map dest: found set_status(2) split: option.splits)
qed

text \<open>The laws on the convergence examples of CommonAuditConverges and AuditLoggingConverges, with pods.\<close>

lemma podded_common:
  "ca_admitted (podded (memory_reconciler ns)) = ca_admitted (memory_reconciler ns)"
  "ca_gauges (podded (memory_reconciler ns)) = ca_gauges (memory_reconciler ns)"
  "al_admitted (podded (memory_reconciler ns)) = al_admitted (memory_reconciler ns)"
  "al_gauges (podded (memory_reconciler ns)) = al_gauges (memory_reconciler ns)"
  by (intro ext, simp add: podded_def ca_admitted_def al_admitted_def al_alone_def ca_gauges_def ca_parts_def al_gauges_def al_parts_def
      expected_config_def al_expected_config_def fluentd_gauge_def expected_fluentd_def policy_gauge_def
      expected_policy_def daemonset_gauge_def expected_daemonset_def Let_def cong: if_cong)+

lemma common_audit_reports_witness:
  "\<exists>c g a. rounds 53 (ca_Reconcile (podded (memory_reconciler ''cs'')) (NamespacedName ''ns'' ''ca''))
      (sample_cluster, init_globals) = Some (Done, (c, g)) \<and>
    find (\<lambda>a. meta_key (ca_Meta a) = NamespacedName ''ns'' ''ca'') (commons (stored c)) = Some a \<and>
    ca_Nodes (ca_Status a) = Some [''fluentd-a'', ''fluentd-b''] \<and> Reconciled (ca_Versions (ca_Status a)) = opversion"
proof -
  have key: "meta_key (ca_Meta sample_common) = NamespacedName ''ns'' ''ca''"
    by (simp add: sample_common_def new_common_def Let_def meta_key_def)
  have "\<exists>c g. rounds 53 (ca_Reconcile (podded (memory_reconciler ''cs'')) (NamespacedName ''ns'' ''ca''))
      (sample_cluster, init_globals) = Some (Done, (c, g)) \<and> ca_reports stored (\<lambda>w ns sel. sample_pods) sample_common c"
    by (rule common_audit_reports[OF podded_laws(1) _ podded_laws(2) _ sample_usable])
      (use memory_serves podded_laws sample_admitted sample_readable built.init in \<open>simp_all add: podded_common\<close>)
  moreover have "ns = [''fluentd-a'', ''fluentd-b'']" if "sorted ns" "mset ns = {#''fluentd-b'', ''fluentd-a''#}" for ns
    using properties_for_sort[of ns "[''fluentd-b'', ''fluentd-a'']"] that by simp
  ultimately show ?thesis
    unfolding ca_reports_def key by (fastforce simp: names_pods_def sample_pods_def)
qed

text \<open>C37: The same of AuditLogging: once its controller has come to rest, the status of the stored resource names the
  pods of the daemon set and of the policy controller that exist then, every pod once and sorted, or \<open>none\<close> when there
  is no pod, and its version is that of the operator.\<close>

theorem audit_logging_reports:
  assumes "lawful view ad r" "serves_audit view (r_cr r)"
    and "lists_pods view pods r" "keeps_audit_status view pods (r_cr r)"
    and "m_Namespace (al_Meta inst) = []" "al_admitted r inst req ns (view w)"
    and "steps_wf view (al_gauges r inst ns) w" "built g"
  shows "\<exists>w' g'. rounds 25 (al_Reconcile r req) (w, g) = Some (Done, (w', g')) \<and> al_reports view pods inst ns w'"
proof -
  have inv: "al_inv view ad r inst req ns (view w) (w, g)"
    using assms by (simp add: al_inv_def al_admitted_def others_kept_def)
  have decided: "al_decided inst" using assms(6) by (simp add: al_admitted_def)
  from al_last_round[OF inv assms(2) decided] obtain s1 w' g' where last:
    "rounds 25 (al_Reconcile r req) (w, g) = Some (Done, (w', g'))" "al_inv view ad r inst req ns (view w) s1"
    "at_rest view (al_gauges r inst ns) (fst s1)" "al_Reconcile r req s1 = (Done, (w', g'))" by auto
  from al_done_reports[OF last(2) assms(2) decided assms(3,4) last(3,4)] show ?thesis using last(1) by simp
qed

lemma audit_logging_reports_witness:
  "\<exists>c g. rounds 25 (al_Reconcile (podded (memory_reconciler ''cs'')) (NamespacedName [] ''al''))
      (sample_audit_cluster, init_globals) = Some (Done, (c, g)) \<and>
    al_reports stored (\<lambda>w ns sel. sample_pods) sample_audit ''cs'' c"
  by (rule audit_logging_reports[OF podded_laws(1) _ podded_laws(2) _ sample_cluster_scoped])
    (use memory_serves podded_laws sample_audit_admitted sample_audit_readable built.init in \<open>simp_all add: podded_common\<close>)

end
