(* ===== verification/GoMemory.thy ===== *)
theory GoMemory
  imports Prelude
begin

text \<open>
  Go's memory, as far as a deep copy needs it: allocated blocks, each an array of values of one type, slices as
  windows on a block, pointers as places in a block. The locale \<open>deep_copying\<close> is the contract of a deep copy;
  the lemmas after it show the contract for a struct, a slice and a pointer from that of its parts.
\<close>

subsection \<open>Blocks\<close>

text \<open>Addresses from \<open>next_addr\<close> on have not been allocated.\<close>

record 'c memory =
  cells :: "nat \<Rightarrow> 'c option"
  next_addr :: nat

definition alloc :: "'c \<Rightarrow> 'c memory \<Rightarrow> nat \<times> 'c memory" where
  "alloc c m = (next_addr m, \<lparr>cells = (cells m)(next_addr m \<mapsto> c), next_addr = Suc (next_addr m)\<rparr>)"

definition store_at :: "nat \<Rightarrow> 'c \<Rightarrow> 'c memory \<Rightarrow> 'c memory" where
  "store_at a c m = m\<lparr>cells := (cells m)(a \<mapsto> c)\<rparr>"

text \<open>The blocks of one element type among all blocks.\<close>

record ('v, 'c) block_kind =
  bk_make :: "'v list \<Rightarrow> 'c"
  bk_get :: "'c \<Rightarrow> 'v list option"

definition block :: "('v, 'c) block_kind \<Rightarrow> 'c memory \<Rightarrow> nat \<Rightarrow> 'v list" where
  "block K m a = (case Option.bind (cells m a) (bk_get K) of None \<Rightarrow> [] | Some xs \<Rightarrow> xs)"

definition write_elem :: "('v, 'c) block_kind \<Rightarrow> nat \<Rightarrow> nat \<Rightarrow> 'v \<Rightarrow> 'c memory \<Rightarrow> 'c memory" where
  "write_elem K a i v m = store_at a (bk_make K ((block K m a)[i := v])) m"

lemma block_alloc [simp]:
  "bk_get K (bk_make K xs) = Some xs \<Longrightarrow>
   block K \<lparr>cells = (cells m)(b \<mapsto> bk_make K xs), next_addr = n\<rparr> a = (if a = b then xs else block K m a)"
  by (simp add: block_def)

lemma write_elem_simps [simp]:
  "next_addr (write_elem K a i v m) = next_addr m"
  "b \<noteq> a \<Longrightarrow> cells (write_elem K a i v m) b = cells m b"
  "(\<And>xs. bk_get K (bk_make K xs) = Some xs) \<Longrightarrow> block K (write_elem K a i v m) a = (block K m a)[i := v]"
  by (simp_all add: write_elem_def store_at_def block_def)

lemma block_cong: "cells m' a = cells m a \<Longrightarrow> block K m' a = block K m a"
  by (simp add: block_def)

text \<open>A later memory in which nothing has been overwritten.\<close>

definition extends :: "'c memory \<Rightarrow> 'c memory \<Rightarrow> bool" where
  "extends m m' \<longleftrightarrow> next_addr m \<le> next_addr m' \<and> (\<forall>a < next_addr m. cells m' a = cells m a)"

lemma extends_refl [simp]: "extends m m"
  by (simp add: extends_def)

lemma extends_trans [trans]: "extends m m' \<Longrightarrow> extends m' m'' \<Longrightarrow> extends m m''"
  by (simp add: extends_def)

subsection \<open>The contract of a deep copy\<close>

text \<open>
  \<open>val\<close> is the value that a representation \<open>v\<close> stands for, \<open>refs\<close> the blocks it is spread over, \<open>ok\<close> says that
  these are allocated. A deep copy stands for the same value, its blocks are new, and nothing is overwritten.
\<close>

locale deep_copying =
  fixes ok :: "'c memory \<Rightarrow> 'v \<Rightarrow> bool"
    and val :: "'c memory \<Rightarrow> 'v \<Rightarrow> 'x"
    and refs :: "'c memory \<Rightarrow> 'v \<Rightarrow> nat set"
    and dc :: "'v \<Rightarrow> 'c memory \<Rightarrow> 'v \<times> 'c memory"
  assumes allocated: "ok m v \<Longrightarrow> refs m v \<subseteq> {..<next_addr m}"
    and reads: "ok m v \<Longrightarrow> next_addr m \<le> next_addr m' \<Longrightarrow> (\<And>a. a \<in> refs m v \<Longrightarrow> cells m' a = cells m a) \<Longrightarrow>
      ok m' v \<and> val m' v = val m v \<and> refs m' v = refs m v"
    and copies: "ok m v \<Longrightarrow> dc v m = (v', m') \<Longrightarrow> extends m m' \<and> ok m' v' \<and> val m' v' = val m v \<and>
      refs m' v' \<subseteq> {next_addr m..<next_addr m'}"
begin

lemma kept:
  assumes "ok m v" "extends m m'"
  shows "ok m' v" "val m' v = val m v" "refs m' v = refs m v"
  using reads[OF assms(1), of m'] allocated[OF assms(1)] assms(2) by (auto simp: extends_def)

text \<open>Whoever writes to the blocks of the copy, or to new ones, does not change the original, and vice versa.\<close>

lemma original_safe:
  assumes v: "ok m v" and copy: "dc v m = (v', m')"
    and later: "next_addr m' \<le> next_addr m''" "\<And>a. a < next_addr m' \<Longrightarrow> a \<notin> refs m' v' \<Longrightarrow> cells m'' a = cells m' a"
  shows "ok m'' v" "val m'' v = val m v"
proof -
  note c = copies[OF v copy]
  have "cells m'' a = cells m a" if "a \<in> refs m v" for a
  proof -
    have "a < next_addr m" using allocated[OF v] that by auto
    then show ?thesis using c later(2)[of a] by (fastforce simp: extends_def)
  qed
  then show "ok m'' v" "val m'' v = val m v"
    using reads[OF v, of m''] c later(1) by (simp_all add: extends_def)
qed

lemma copy_safe:
  assumes v: "ok m v" and copy: "dc v m = (v', m')"
    and later: "next_addr m' \<le> next_addr m''" "\<And>a. a < next_addr m' \<Longrightarrow> a \<notin> refs m v \<Longrightarrow> cells m'' a = cells m' a"
  shows "ok m'' v'" "val m'' v' = val m v"
proof -
  note c = copies[OF v copy]
  have "cells m'' a = cells m' a" if "a \<in> refs m' v'" for a
    using that c allocated[OF v] later(2)[of a] by fastforce
  then show "ok m'' v'" "val m'' v' = val m v"
    using reads[of m' v' m''] c later(1) by simp_all
qed

end

subsection \<open>Values without references, pairs, structs\<close>

text \<open>\<open>*out = *in\<close> is all there is to do.\<close>

lemma plain_copying: "deep_copying (\<lambda>m v. True) (\<lambda>m v. v) (\<lambda>m v. {}) Pair"
  by unfold_locales auto

definition both :: "('c memory \<Rightarrow> 'v \<Rightarrow> bool) \<Rightarrow> ('c memory \<Rightarrow> 'w \<Rightarrow> bool) \<Rightarrow> 'c memory \<Rightarrow> 'v \<times> 'w \<Rightarrow> bool" where
  "both P Q m p \<longleftrightarrow> P m (fst p) \<and> Q m (snd p)"

definition copy_both ::
    "('v \<Rightarrow> 'c memory \<Rightarrow> 'v \<times> 'c memory) \<Rightarrow> ('w \<Rightarrow> 'c memory \<Rightarrow> 'w \<times> 'c memory) \<Rightarrow>
     'v \<times> 'w \<Rightarrow> 'c memory \<Rightarrow> ('v \<times> 'w) \<times> 'c memory" where
  "copy_both f g p m = (case f (fst p) m of (v, m1) \<Rightarrow> (case g (snd p) m1 of (w, m2) \<Rightarrow> ((v, w), m2)))"

lemma pair_copying:
  assumes "deep_copying ok1 val1 refs1 dc1" "deep_copying ok2 val2 refs2 dc2"
  shows "deep_copying (both ok1 ok2) (\<lambda>m p. (val1 m (fst p), val2 m (snd p)))
    (\<lambda>m p. refs1 m (fst p) \<union> refs2 m (snd p)) (copy_both dc1 dc2)"
proof
  fix m :: "'a memory" and p
  assume ok: "both ok1 ok2 m p"
  then show "refs1 m (fst p) \<union> refs2 m (snd p) \<subseteq> {..<next_addr m}"
    using assms[THEN deep_copying.allocated, of m] unfolding both_def by blast
  fix m' :: "'a memory"
  assume m': "next_addr m \<le> next_addr m'"
    "\<And>a. a \<in> refs1 m (fst p) \<union> refs2 m (snd p) \<Longrightarrow> cells m' a = cells m a"
  show "both ok1 ok2 m' p \<and> (val1 m' (fst p), val2 m' (snd p)) = (val1 m (fst p), val2 m (snd p)) \<and>
      refs1 m' (fst p) \<union> refs2 m' (snd p) = refs1 m (fst p) \<union> refs2 m (snd p)"
    using ok m' deep_copying.reads[OF assms(1), of m "fst p" m'] deep_copying.reads[OF assms(2), of m "snd p" m']
    by (simp add: both_def)
next
  fix m :: "'a memory" and p p' m'
  assume ok: "both ok1 ok2 m p" and copy: "copy_both dc1 dc2 p m = (p', m')"
  obtain v m1 where v: "dc1 (fst p) m = (v, m1)" by (cases "dc1 (fst p) m")
  obtain w m2 where w: "dc2 (snd p) m1 = (w, m2)" by (cases "dc2 (snd p) m1")
  have p': "p' = (v, w)" "m' = m2" using copy v w by (simp_all add: copy_both_def)
  have c1: "extends m m1 \<and> ok1 m1 v \<and> val1 m1 v = val1 m (fst p) \<and> refs1 m1 v \<subseteq> {next_addr m..<next_addr m1}"
    by (rule deep_copying.copies[OF assms(1) _ v]) (use ok in \<open>simp add: both_def\<close>)
  have snd_kept: "ok2 m1 (snd p)" "val2 m1 (snd p) = val2 m (snd p)"
    using deep_copying.kept[OF assms(2), of m "snd p" m1] ok c1 by (simp_all add: both_def)
  have c2: "extends m1 m2 \<and> ok2 m2 w \<and> val2 m2 w = val2 m1 (snd p) \<and> refs2 m2 w \<subseteq> {next_addr m1..<next_addr m2}"
    by (rule deep_copying.copies[OF assms(2) snd_kept(1) w])
  have fst_kept: "ok1 m2 v" "val1 m2 v = val1 m1 v" "refs1 m2 v = refs1 m1 v"
    using deep_copying.kept[OF assms(1), of m1 v m2] c1 c2 by simp_all
  show "extends m m' \<and> both ok1 ok2 m' p' \<and>
      (val1 m' (fst p'), val2 m' (snd p')) = (val1 m (fst p), val2 m (snd p)) \<and>
      refs1 m' (fst p') \<union> refs2 m' (snd p') \<subseteq> {next_addr m..<next_addr m'}"
    using c1 c2 snd_kept fst_kept extends_trans[of m m1 m2] by (auto simp: p' both_def extends_def)
qed

text \<open>
  A struct: \<open>out\<close> begins as \<open>in\<close>, and the fields that hold references, \<open>get s\<close>, are then replaced by their copies.
\<close>

lemma struct_copying:
  assumes part: "deep_copying ok val refs dc"
    and lens: "\<And>s p. get (put p s) = p" "\<And>s p x. mk (put p s) x = mk s x"
    and into: "\<And>s m. into s m = (case dc (get s) m of (p, m') \<Rightarrow> (put p s, m'))"
  shows "deep_copying (\<lambda>m s. ok m (get s)) (\<lambda>m s. mk s (val m (get s))) (\<lambda>m s. refs m (get s)) into"
proof
  fix m s assume ok: "ok m (get s)"
  then show "refs m (get s) \<subseteq> {..<next_addr m}" by (rule deep_copying.allocated[OF part])
  fix m' :: "'a memory"
  assume "next_addr m \<le> next_addr m'" "\<And>a. a \<in> refs m (get s) \<Longrightarrow> cells m' a = cells m a"
  then show "ok m' (get s) \<and> mk s (val m' (get s)) = mk s (val m (get s)) \<and> refs m' (get s) = refs m (get s)"
    using deep_copying.reads[OF part ok, of m'] by simp
next
  fix m s s' m' assume ok: "ok m (get s)" and copy: "into s m = (s', m')"
  obtain p where p: "dc (get s) m = (p, m')" "s' = put p s"
    using copy unfolding into by (cases "dc (get s) m") simp
  then show "extends m m' \<and> ok m' (get s') \<and> mk s' (val m' (get s')) = mk s (val m (get s)) \<and>
      refs m' (get s') \<subseteq> {next_addr m..<next_addr m'}"
    using deep_copying.copies[OF part ok p(1)] by (simp add: lens)
qed

subsection \<open>Slices\<close>

text \<open>A window on a block; its capacity plays no part here. \<open>None\<close> is the nil slice.\<close>

record window =
  w_Array :: nat
  w_From :: nat
  w_Len :: nat

type_synonym go_slice = "window option"

definition window_elems :: "('v, 'c) block_kind \<Rightarrow> 'c memory \<Rightarrow> window \<Rightarrow> 'v list" where
  "window_elems K m w = take (w_Len w) (drop (w_From w) (block K m (w_Array w)))"

definition slice_ok ::
    "('v, 'c) block_kind \<Rightarrow> ('c memory \<Rightarrow> 'v \<Rightarrow> bool) \<Rightarrow> 'c memory \<Rightarrow> go_slice \<Rightarrow> bool" where
  "slice_ok K ok m s \<longleftrightarrow> (case s of None \<Rightarrow> True
     | Some w \<Rightarrow> w_Array w < next_addr m \<and> w_From w + w_Len w \<le> length (block K m (w_Array w)) \<and>
         (\<forall>v \<in> set (window_elems K m w). ok m v))"

definition slice_val ::
    "('v, 'c) block_kind \<Rightarrow> ('c memory \<Rightarrow> 'v \<Rightarrow> 'x) \<Rightarrow> 'c memory \<Rightarrow> go_slice \<Rightarrow> 'x slice" where
  "slice_val K val m s = map_option (\<lambda>w. map (val m) (window_elems K m w)) s"

definition slice_refs ::
    "('v, 'c) block_kind \<Rightarrow> ('c memory \<Rightarrow> 'v \<Rightarrow> nat set) \<Rightarrow> 'c memory \<Rightarrow> go_slice \<Rightarrow> nat set" where
  "slice_refs K refs m s = (case s of None \<Rightarrow> {}
     | Some w \<Rightarrow> insert (w_Array w) (\<Union>v \<in> set (window_elems K m w). refs m v))"

text \<open>
  \<open>if in != nil { out = make(len(in)); for i := range in { in[i].DeepCopyInto(&out[i]) } }\<close>: the loop from \<open>i\<close> on,
  \<open>k\<close> elements to go, into the block \<open>b\<close>.
\<close>

fun copy_loop ::
    "('v, 'c) block_kind \<Rightarrow> ('v \<Rightarrow> 'c memory \<Rightarrow> 'v \<times> 'c memory) \<Rightarrow> window \<Rightarrow> nat \<Rightarrow> nat \<Rightarrow> nat \<Rightarrow>
     'c memory \<Rightarrow> 'c memory" where
  "copy_loop K dc w b i 0 m = m"
| "copy_loop K dc w b i (Suc k) m =
     (case dc (block K m (w_Array w) ! (w_From w + i)) m of
        (v, m1) \<Rightarrow> copy_loop K dc w b (Suc i) k (write_elem K b i v m1))"

definition copy_slice ::
    "('v, 'c) block_kind \<Rightarrow> 'v \<Rightarrow> ('v \<Rightarrow> 'c memory \<Rightarrow> 'v \<times> 'c memory) \<Rightarrow> go_slice \<Rightarrow> 'c memory \<Rightarrow>
     go_slice \<times> 'c memory" where
  "copy_slice K zero dc s m =
     (case s of
        None \<Rightarrow> (None, m)
      | Some w \<Rightarrow>
          (case alloc (bk_make K (replicate (w_Len w) zero)) m of
             (b, m1) \<Rightarrow> (Some \<lparr>w_Array = b, w_From = 0, w_Len = w_Len w\<rparr>, copy_loop K dc w b 0 (w_Len w) m1)))"

context deep_copying begin

text \<open>After \<open>i\<close> elements: \<open>m0\<close> is the memory before the allocation of the block \<open>b\<close>.\<close>

definition copied_upto :: "('v, 'c) block_kind \<Rightarrow> window \<Rightarrow> 'c memory \<Rightarrow> nat \<Rightarrow> 'c memory \<Rightarrow> bool" where
  "copied_upto K w m0 i m \<longleftrightarrow> extends m0 m \<and> next_addr m0 < next_addr m \<and>
     length (block K m (next_addr m0)) = w_Len w \<and>
     (\<forall>j < i. let v = block K m (next_addr m0) ! j
        in ok m v \<and> val m v = val m0 (window_elems K m0 w ! j) \<and> refs m v \<subseteq> {Suc (next_addr m0)..<next_addr m})"

lemma copy_step:
  assumes kind: "\<And>xs. bk_get K (bk_make K xs) = Some xs" and s: "slice_ok K ok m0 (Some w)"
    and inv: "copied_upto K w m0 i m" and i: "i < w_Len w"
    and dc: "dc (block K m (w_Array w) ! (w_From w + i)) m = (v, m1)"
  shows "copied_upto K w m0 (Suc i) (write_elem K (next_addr m0) i v m1)"
proof -
  let ?b = "next_addr m0" and ?in = "window_elems K m0 w ! i" and ?m2 = "write_elem K (next_addr m0) i v m1"
  have w: "w_Array w < ?b" "w_From w + w_Len w \<le> length (block K m0 (w_Array w))"
    "\<forall>v \<in> set (window_elems K m0 w). ok m0 v" using s by (simp_all add: slice_ok_def)
  have m: "extends m0 m" "?b < next_addr m" "length (block K m ?b) = w_Len w" using inv by (simp_all add: copied_upto_def)
  have len: "length (window_elems K m0 w) = w_Len w" using w(2) by (simp add: window_elems_def)
  have "block K m (w_Array w) = block K m0 (w_Array w)" using m(1) w(1) by (intro block_cong) (simp add: extends_def)
  then have elem: "block K m (w_Array w) ! (w_From w + i) = ?in"
    using i w(2) by (simp add: window_elems_def)
  have "ok m0 ?in" using w(3) i len by simp
  note old = kept[OF this m(1)]
  note c = copies[OF old(1) dc[unfolded elem]]
  have b1: "cells m1 ?b = cells m ?b" "?b < next_addr m1" using c m(2) by (simp_all add: extends_def)
  have block1: "block K m1 ?b = block K m ?b" using b1(1) by (rule block_cong)
  have ext: "extends m0 ?m2"
    using m(1) c by (auto simp: extends_def)
  have stays: "ok ?m2 x \<and> val ?m2 x = val m1 x \<and> refs ?m2 x = refs m1 x" if "ok m1 x" "?b \<notin> refs m1 x" for x
    by (rule reads[OF that(1)]) (use that(2) in \<open>auto intro!: write_elem_simps(2)\<close>)
  have new: "ok ?m2 v \<and> val ?m2 v = val m0 ?in \<and> refs ?m2 v \<subseteq> {Suc ?b..<next_addr m1}"
    using stays[of v] c old m(2) by fastforce
  have earlier: "ok ?m2 x \<and> val ?m2 x = val m0 (window_elems K m0 w ! j) \<and> refs ?m2 x \<subseteq> {Suc ?b..<next_addr m1}"
    if "j < i" "x = block K m ?b ! j" for j x
  proof -
    have x: "ok m x" "val m x = val m0 (window_elems K m0 w ! j)" "refs m x \<subseteq> {Suc ?b..<next_addr m}"
      using inv that by (simp_all add: copied_upto_def Let_def)
    have "extends m m1" using c by simp
    note k = kept[OF x(1) this]
    show ?thesis using stays[OF k(1)] k x c by (fastforce simp: extends_def)
  qed
  have "block K ?m2 ?b = (block K m ?b)[i := v]" using kind block1 by simp
  moreover have "let x = (block K m ?b)[i := v] ! j
      in ok ?m2 x \<and> val ?m2 x = val m0 (window_elems K m0 w ! j) \<and> refs ?m2 x \<subseteq> {Suc ?b..<next_addr m1}"
    if "j < Suc i" for j
    using that new earlier[of j] m(3) i by (cases "j = i") (auto simp: Let_def)
  ultimately show ?thesis
    using ext b1(2) m(3) unfolding copied_upto_def by (simp add: Let_def)
qed

lemma copy_loop_copied:
  assumes "\<And>xs. bk_get K (bk_make K xs) = Some xs" "slice_ok K ok m0 (Some w)"
    and "copied_upto K w m0 i m" "i + k = w_Len w"
  shows "copied_upto K w m0 (w_Len w) (copy_loop K dc w (next_addr m0) i k m)"
  using assms(3,4)
proof (induction k arbitrary: i m)
  case (Suc k)
  obtain v m1 where dc: "dc (block K m (w_Array w) ! (w_From w + i)) m = (v, m1)"
    by (cases "dc (block K m (w_Array w) ! (w_From w + i)) m")
  have "i < w_Len w" using Suc.prems(2) by simp
  from copy_step[OF assms(1,2) Suc.prems(1) this dc]
  show ?case using Suc.IH[of "Suc i"] Suc.prems(2) by (simp add: dc)
qed simp

end

lemma slice_copying:
  assumes part: "deep_copying ok val refs dc" and kind: "\<And>xs. bk_get K (bk_make K xs) = Some xs"
  shows "deep_copying (slice_ok K ok) (slice_val K val) (slice_refs K refs) (copy_slice K zero dc)"
proof
  fix m s assume s: "slice_ok K ok m s"
  then show "slice_refs K refs m s \<subseteq> {..<next_addr m}"
    using deep_copying.allocated[OF part, of m] by (fastforce simp: slice_ok_def slice_refs_def split: option.splits)
  fix m' :: "'a memory"
  assume m': "next_addr m \<le> next_addr m'" "\<And>a. a \<in> slice_refs K refs m s \<Longrightarrow> cells m' a = cells m a"
  show "slice_ok K ok m' s \<and> slice_val K val m' s = slice_val K val m s \<and> slice_refs K refs m' s = slice_refs K refs m s"
  proof (cases s)
    case (Some w)
    have block: "block K m' (w_Array w) = block K m (w_Array w)"
      using m'(2)[of "w_Array w"] by (intro block_cong) (simp add: slice_refs_def Some)
    have "ok m' v \<and> val m' v = val m v \<and> refs m' v = refs m v" if "v \<in> set (window_elems K m w)" for v
      by (rule deep_copying.reads[OF part _ m'(1)]) (use s m'(2) that in \<open>auto simp: slice_ok_def slice_refs_def Some\<close>)
    then show ?thesis
      using s m'(1) block by (auto simp: slice_ok_def slice_val_def slice_refs_def window_elems_def Some)
  qed (simp add: slice_ok_def slice_val_def slice_refs_def)
next
  fix m s s' m' assume s: "slice_ok K ok m s" and copy: "copy_slice K zero dc s m = (s', m')"
  show "extends m m' \<and> slice_ok K ok m' s' \<and> slice_val K val m' s' = slice_val K val m s \<and>
      slice_refs K refs m' s' \<subseteq> {next_addr m..<next_addr m'}"
  proof (cases s)
    case None
    then show ?thesis using copy by (simp add: copy_slice_def slice_ok_def slice_val_def slice_refs_def)
  next
    case (Some w)
    let ?b = "next_addr m" and ?m1 = "snd (alloc (bk_make K (replicate (w_Len w) zero)) m)"
    have m': "m' = copy_loop K dc w ?b 0 (w_Len w) ?m1"
      and s': "s' = Some \<lparr>w_Array = ?b, w_From = 0, w_Len = w_Len w\<rparr>"
      using copy by (simp_all add: copy_slice_def Some alloc_def)
    have "deep_copying.copied_upto ok val refs K w m 0 ?m1"
      by (simp add: deep_copying.copied_upto_def[OF part] alloc_def extends_def kind)
    from deep_copying.copy_loop_copied[OF part kind s[unfolded Some] this, of "w_Len w"]
    have "deep_copying.copied_upto ok val refs K w m (w_Len w) m'" by (simp add: m')
    then have c: "extends m m'" "?b < next_addr m'" "length (block K m' ?b) = w_Len w"
      "\<And>j. j < w_Len w \<Longrightarrow> ok m' (block K m' ?b ! j) \<and> val m' (block K m' ?b ! j) = val m (window_elems K m w ! j) \<and>
         refs m' (block K m' ?b ! j) \<subseteq> {Suc ?b..<next_addr m'}"
      by (simp_all add: deep_copying.copied_upto_def[OF part] Let_def)
    have elems: "window_elems K m' \<lparr>w_Array = ?b, w_From = 0, w_Len = w_Len w\<rparr> = block K m' ?b"
      using c(3) by (simp add: window_elems_def)
    have "length (window_elems K m w) = w_Len w" using s by (auto simp: slice_ok_def window_elems_def Some)
    then have "map (val m') (block K m' ?b) = map (val m) (window_elems K m w)"
      using c(3,4) by (intro nth_equalityI) simp_all
    moreover have "ok m' v \<and> refs m' v \<subseteq> {next_addr m..<next_addr m'}" if "v \<in> set (block K m' ?b)" for v
      using that c(3,4) by (fastforce simp: in_set_conv_nth)
    ultimately show ?thesis
      using c(1-3) by (auto simp: s' Some slice_ok_def slice_val_def slice_refs_def elems)
  qed
qed

text \<open>
  Elements without references: \<open>out = make(len(in)); copy(out, in)\<close>. Go's \<open>copy\<close> writes as many elements as both
  slices have.
\<close>

definition copy_into :: "'v list \<Rightarrow> 'v list \<Rightarrow> 'v list" where
  "copy_into dst src = take (length dst) src @ drop (length src) dst"

definition copy_plain :: "('v, 'c) block_kind \<Rightarrow> 'v \<Rightarrow> go_slice \<Rightarrow> 'c memory \<Rightarrow> go_slice \<times> 'c memory" where
  "copy_plain K zero s m =
     (case s of
        None \<Rightarrow> (None, m)
      | Some w \<Rightarrow>
          (case alloc (bk_make K (replicate (w_Len w) zero)) m of
             (b, m1) \<Rightarrow> (Some \<lparr>w_Array = b, w_From = 0, w_Len = w_Len w\<rparr>,
                         store_at b (bk_make K (copy_into (block K m1 b) (window_elems K m1 w))) m1)))"

lemma plain_slice_copying:
  assumes kind: "\<And>xs. bk_get K (bk_make K xs) = Some xs"
  shows "deep_copying (slice_ok K (\<lambda>m v. True)) (slice_val K (\<lambda>m v. v)) (slice_refs K (\<lambda>m v. {})) (copy_plain K zero)"
proof
  fix m s assume s: "slice_ok K (\<lambda>m v. True) m s"
  note slices = deep_copying.allocated[OF slice_copying[OF plain_copying kind]]
    deep_copying.reads[OF slice_copying[OF plain_copying kind]]
  show "slice_refs K (\<lambda>m v. {}) m s \<subseteq> {..<next_addr m}" by (rule slices(1)[OF s])
  fix m' :: "'b memory"
  assume m': "next_addr m \<le> next_addr m'" "\<And>a. a \<in> slice_refs K (\<lambda>m v. {}) m s \<Longrightarrow> cells m' a = cells m a"
  show "slice_ok K (\<lambda>m v. True) m' s \<and> slice_val K (\<lambda>m v. v) m' s = slice_val K (\<lambda>m v. v) m s \<and>
      slice_refs K (\<lambda>m v. {}) m' s = slice_refs K (\<lambda>m v. {}) m s"
    using slices(2)[OF s m'] .
next
  fix m s s' m' assume s: "slice_ok K (\<lambda>m v. True) m s" and copy: "copy_plain K zero s m = (s', m')"
  show "extends m m' \<and> slice_ok K (\<lambda>m v. True) m' s' \<and> slice_val K (\<lambda>m v. v) m' s' = slice_val K (\<lambda>m v. v) m s \<and>
      slice_refs K (\<lambda>m v. {}) m' s' \<subseteq> {next_addr m..<next_addr m'}"
  proof (cases s)
    case None
    then show ?thesis using copy by (simp add: copy_plain_def slice_ok_def slice_val_def slice_refs_def)
  next
    case (Some w)
    let ?m1 = "snd (alloc (bk_make K (replicate (w_Len w) zero)) m)"
    have w: "w_Array w < next_addr m" "w_From w + w_Len w \<le> length (block K m (w_Array w))"
      using s by (simp_all add: slice_ok_def Some)
    have "window_elems K ?m1 w = window_elems K m w" "block K ?m1 (next_addr m) = replicate (w_Len w) zero"
      using w(1) kind by (simp_all add: window_elems_def alloc_def)
    moreover have "length (window_elems K m w) = w_Len w" using w(2) by (simp add: window_elems_def)
    ultimately have "copy_into (block K ?m1 (next_addr m)) (window_elems K ?m1 w) = window_elems K m w"
      by (simp add: copy_into_def)
    then have m': "m' = store_at (next_addr m) (bk_make K (window_elems K m w)) ?m1"
      and s': "s' = Some \<lparr>w_Array = next_addr m, w_From = 0, w_Len = w_Len w\<rparr>"
      using copy by (simp_all add: copy_plain_def Some alloc_def)
    have "block K m' (next_addr m) = window_elems K m w" using kind by (simp add: m' store_at_def block_def)
    moreover have "extends m m'" "next_addr m' = Suc (next_addr m)"
      by (simp_all add: m' store_at_def alloc_def extends_def)
    ultimately show ?thesis
      using \<open>length (window_elems K m w) = w_Len w\<close>
      by (simp add: s' Some slice_ok_def slice_val_def slice_refs_def) (simp add: window_elems_def)
  qed
qed

subsection \<open>Pointers\<close>

text \<open>A pointer to an element of a block; \<open>None\<close> is nil.\<close>

record place =
  p_Block :: nat
  p_Index :: nat

type_synonym go_ptr = "place option"

definition points_to :: "('v, 'c) block_kind \<Rightarrow> 'c memory \<Rightarrow> place \<Rightarrow> 'v" where
  "points_to K m q = block K m (p_Block q) ! p_Index q"

definition ptr_ok :: "('v, 'c) block_kind \<Rightarrow> ('c memory \<Rightarrow> 'v \<Rightarrow> bool) \<Rightarrow> 'c memory \<Rightarrow> go_ptr \<Rightarrow> bool" where
  "ptr_ok K ok m p \<longleftrightarrow> (case p of None \<Rightarrow> True
     | Some q \<Rightarrow> p_Block q < next_addr m \<and> p_Index q < length (block K m (p_Block q)) \<and> ok m (points_to K m q))"

definition ptr_val :: "('v, 'c) block_kind \<Rightarrow> ('c memory \<Rightarrow> 'v \<Rightarrow> 'x) \<Rightarrow> 'c memory \<Rightarrow> go_ptr \<Rightarrow> 'x option" where
  "ptr_val K val m p = map_option (\<lambda>q. val m (points_to K m q)) p"

definition ptr_refs :: "('v, 'c) block_kind \<Rightarrow> ('c memory \<Rightarrow> 'v \<Rightarrow> nat set) \<Rightarrow> 'c memory \<Rightarrow> go_ptr \<Rightarrow> nat set" where
  "ptr_refs K refs m p = (case p of None \<Rightarrow> {} | Some q \<Rightarrow> insert (p_Block q) (refs m (points_to K m q)))"

text \<open>\<open>if in == nil { return nil }; out := new(T); in.DeepCopyInto(out); return out\<close>\<close>

definition copy_new ::
    "('v, 'c) block_kind \<Rightarrow> 'v \<Rightarrow> ('v \<Rightarrow> 'c memory \<Rightarrow> 'v \<times> 'c memory) \<Rightarrow> go_ptr \<Rightarrow> 'c memory \<Rightarrow> go_ptr \<times> 'c memory" where
  "copy_new K zero dc p m =
     (case p of
        None \<Rightarrow> (None, m)
      | Some q \<Rightarrow>
          (case alloc (bk_make K [zero]) m of
             (b, m1) \<Rightarrow>
               (case dc (points_to K m1 q) m1 of
                  (v, m2) \<Rightarrow> (Some \<lparr>p_Block = b, p_Index = 0\<rparr>, write_elem K b 0 v m2))))"

text \<open>A pointer is a window of one element.\<close>

definition ptr_window :: "go_ptr \<Rightarrow> go_slice" where
  "ptr_window = map_option (\<lambda>q. \<lparr>w_Array = p_Block q, w_From = p_Index q, w_Len = 1\<rparr>)"

lemma window_of_one:
  "n < length (block K m a) \<Longrightarrow>
   window_elems K m \<lparr>w_Array = a, w_From = n, w_Len = Suc 0\<rparr> = [points_to K m \<lparr>p_Block = a, p_Index = n\<rparr>]"
  by (simp add: window_elems_def points_to_def take_Suc hd_drop_conv_nth)

lemma ptr_as_slice:
  assumes "\<And>q. p = Some q \<Longrightarrow> p_Index q < length (block K m (p_Block q))"
  shows "slice_ok K ok m (ptr_window p) = ptr_ok K ok m p"
    "slice_val K val m (ptr_window p) = map_option (\<lambda>x. [x]) (ptr_val K val m p)"
    "slice_refs K refs m (ptr_window p) = ptr_refs K refs m p"
  using assms
  by (cases p; force simp: slice_ok_def slice_val_def slice_refs_def ptr_ok_def ptr_val_def ptr_refs_def ptr_window_def
      window_of_one points_to_def)+

lemma copy_new_as_slice:
  "copy_slice K zero dc (ptr_window p) m = (ptr_window (fst (copy_new K zero dc p m)), snd (copy_new K zero dc p m))"
  by (cases p) (auto simp: copy_slice_def copy_new_def ptr_window_def points_to_def alloc_def split: prod.splits)

lemma ptr_copying:
  assumes part: "deep_copying ok val refs dc" and kind: "\<And>xs. bk_get K (bk_make K xs) = Some xs"
  shows "deep_copying (ptr_ok K ok) (ptr_val K val) (ptr_refs K refs) (copy_new K zero dc)"
proof
  note slices = slice_copying[OF part kind]
  fix m p assume p: "ptr_ok K ok m p"
  then have len: "p_Index q < length (block K m (p_Block q))" if "p = Some q" for q using that by (simp add: ptr_ok_def)
  note w = ptr_as_slice[where p = p and K = K and m = m, OF len]
  have s: "slice_ok K ok m (ptr_window p)" using p w(1) by simp
  show "ptr_refs K refs m p \<subseteq> {..<next_addr m}" using deep_copying.allocated[OF slices s] w(3) by simp
  fix m' :: "'a memory"
  assume m': "next_addr m \<le> next_addr m'" "\<And>a. a \<in> ptr_refs K refs m p \<Longrightarrow> cells m' a = cells m a"
  have "p_Index q < length (block K m' (p_Block q))" if "p = Some q" for q
    using len[OF that] m'(2)[of "p_Block q"] that by (simp add: block_def ptr_refs_def)
  note w' = ptr_as_slice[where p = p and K = K and m = m', OF this]
  have "map_option (\<lambda>x. [x]) a = map_option (\<lambda>x. [x]) b \<Longrightarrow> a = b" for a b :: "'c option"
    by (cases a; cases b) simp_all
  then show "ptr_ok K ok m' p \<and> ptr_val K val m' p = ptr_val K val m p \<and> ptr_refs K refs m' p = ptr_refs K refs m p"
    using deep_copying.reads[OF slices s m'(1)] m'(2) w w' by metis
next
  note slices = slice_copying[OF part kind]
  fix m p p' m' assume p: "ptr_ok K ok m p" and copy: "copy_new K zero dc p m = (p', m')"
  have "p_Index q < length (block K m (p_Block q))" if "p = Some q" for q using that p by (simp add: ptr_ok_def)
  note w = ptr_as_slice[where p = p and K = K and m = m, OF this]
  have c: "extends m m' \<and> slice_ok K ok m' (ptr_window p') \<and>
      slice_val K val m' (ptr_window p') = slice_val K val m (ptr_window p) \<and>
      slice_refs K refs m' (ptr_window p') \<subseteq> {next_addr m..<next_addr m'}"
    by (rule deep_copying.copies[OF slices]) (use p w(1) copy copy_new_as_slice[of K zero dc p m] in simp_all)
  have "p_Index q < length (block K m' (p_Block q))" if "p' = Some q" for q
    using c that by (simp add: slice_ok_def ptr_window_def)
  note w' = ptr_as_slice[where p = p' and K = K and m = m', OF this]
  have "map_option (\<lambda>x. [x]) a = map_option (\<lambda>x. [x]) b \<Longrightarrow> a = b" for a b :: "'c option"
    by (cases a; cases b) simp_all
  then show "extends m m' \<and> ptr_ok K ok m' p' \<and> ptr_val K val m' p' = ptr_val K val m p \<and>
      ptr_refs K refs m' p' \<subseteq> {next_addr m..<next_addr m'}"
    using c w w' by metis
qed

subsection \<open>Readings\<close>

text \<open>The three functions that say how a representation is read, together, and the readings of composed types.\<close>

record ('c, 'v, 'x) reading =
  rd_ok :: "'c memory \<Rightarrow> 'v \<Rightarrow> bool"
  rd_val :: "'c memory \<Rightarrow> 'v \<Rightarrow> 'x"
  rd_refs :: "'c memory \<Rightarrow> 'v \<Rightarrow> nat set"

definition deep_copies :: "('c, 'v, 'x) reading \<Rightarrow> ('v \<Rightarrow> 'c memory \<Rightarrow> 'v \<times> 'c memory) \<Rightarrow> bool" where
  "deep_copies R dc \<longleftrightarrow> deep_copying (rd_ok R) (rd_val R) (rd_refs R) dc"

definition plain_reading :: "('c, 'v, 'v) reading" where
  "plain_reading = \<lparr>rd_ok = (\<lambda>m v. True), rd_val = (\<lambda>m v. v), rd_refs = (\<lambda>m v. {})\<rparr>"

definition pair_reading :: "('c, 'v, 'x) reading \<Rightarrow> ('c, 'w, 'y) reading \<Rightarrow> ('c, 'v \<times> 'w, 'x \<times> 'y) reading" where
  "pair_reading R S =
     \<lparr>rd_ok = both (rd_ok R) (rd_ok S), rd_val = (\<lambda>m p. (rd_val R m (fst p), rd_val S m (snd p))),
      rd_refs = (\<lambda>m p. rd_refs R m (fst p) \<union> rd_refs S m (snd p))\<rparr>"

definition struct_reading ::
    "('s \<Rightarrow> 'v) \<Rightarrow> ('s \<Rightarrow> 'x \<Rightarrow> 'y) \<Rightarrow> ('c, 'v, 'x) reading \<Rightarrow> ('c, 's, 'y) reading" where
  "struct_reading get mk R =
     \<lparr>rd_ok = (\<lambda>m s. rd_ok R m (get s)), rd_val = (\<lambda>m s. mk s (rd_val R m (get s))),
      rd_refs = (\<lambda>m s. rd_refs R m (get s))\<rparr>"

definition slice_reading :: "('v, 'c) block_kind \<Rightarrow> ('c, 'v, 'x) reading \<Rightarrow> ('c, go_slice, 'x slice) reading" where
  "slice_reading K R =
     \<lparr>rd_ok = slice_ok K (rd_ok R), rd_val = slice_val K (rd_val R), rd_refs = slice_refs K (rd_refs R)\<rparr>"

definition ptr_reading :: "('v, 'c) block_kind \<Rightarrow> ('c, 'v, 'x) reading \<Rightarrow> ('c, go_ptr, 'x option) reading" where
  "ptr_reading K R = \<lparr>rd_ok = ptr_ok K (rd_ok R), rd_val = ptr_val K (rd_val R), rd_refs = ptr_refs K (rd_refs R)\<rparr>"

lemma copies_pair: "deep_copies R f \<Longrightarrow> deep_copies S g \<Longrightarrow> deep_copies (pair_reading R S) (copy_both f g)"
  using pair_copying by (simp add: deep_copies_def pair_reading_def)

lemma copies_struct:
  "deep_copies R dc \<Longrightarrow> (\<And>s p. get (put p s) = p) \<Longrightarrow> (\<And>s p x. mk (put p s) x = mk s x) \<Longrightarrow>
   (\<And>s m. into s m = (case dc (get s) m of (p, m') \<Rightarrow> (put p s, m'))) \<Longrightarrow>
   deep_copies (struct_reading get mk R) into"
  unfolding deep_copies_def struct_reading_def reading.simps by (rule struct_copying)

lemma copies_slice:
  "deep_copies R dc \<Longrightarrow> (\<And>xs. bk_get K (bk_make K xs) = Some xs) \<Longrightarrow>
   deep_copies (slice_reading K R) (copy_slice K zero dc)"
  unfolding deep_copies_def slice_reading_def reading.simps by (rule slice_copying)

lemma copies_plain_slice:
  "(\<And>xs. bk_get K (bk_make K xs) = Some xs) \<Longrightarrow> deep_copies (slice_reading K plain_reading) (copy_plain K zero)"
  unfolding deep_copies_def slice_reading_def plain_reading_def reading.simps by (rule plain_slice_copying)

lemma copies_ptr:
  "deep_copies R dc \<Longrightarrow> (\<And>xs. bk_get K (bk_make K xs) = Some xs) \<Longrightarrow>
   deep_copies (ptr_reading K R) (copy_new K zero dc)"
  unfolding deep_copies_def ptr_reading_def reading.simps by (rule ptr_copying)

text \<open>What a caller relies on. From \<open>m'\<close> to \<open>m''\<close> only the blocks in \<open>A\<close> and new ones have been written.\<close>

definition written_only :: "nat set \<Rightarrow> 'c memory \<Rightarrow> 'c memory \<Rightarrow> bool" where
  "written_only A m' m'' \<longleftrightarrow> next_addr m' \<le> next_addr m'' \<and>
     (\<forall>a. a \<in> {..<next_addr m'} - A \<longrightarrow> cells m'' a = cells m' a)"

definition independent_copy :: "('c, 'v, 'x) reading \<Rightarrow> 'c memory \<Rightarrow> 'v \<Rightarrow> 'c memory \<Rightarrow> 'v \<Rightarrow> bool" where
  "independent_copy R m v m' v' \<longleftrightarrow>
     rd_ok R m' v' \<and> rd_val R m' v' = rd_val R m v \<and> rd_val R m' v = rd_val R m v \<and>
     rd_refs R m v \<inter> rd_refs R m' v' = {} \<and>
     (\<forall>m''. written_only (rd_refs R m' v') m' m'' \<longrightarrow> rd_val R m'' v = rd_val R m v) \<and>
     (\<forall>m''. written_only (rd_refs R m v) m' m'' \<longrightarrow> rd_val R m'' v' = rd_val R m v)"

lemma copies_independent:
  assumes dc: "deep_copies R dc" and ok: "rd_ok R m v" and copy: "dc v m = (v', m')"
  shows "independent_copy R m v m' v'"
proof -
  note law = dc[unfolded deep_copies_def]
  have c: "extends m m' \<and> rd_ok R m' v' \<and> rd_val R m' v' = rd_val R m v"
    "rd_refs R m' v' \<subseteq> {next_addr m..<next_addr m'}"
    using deep_copying.copies[OF law ok copy] by blast+
  moreover have "rd_refs R m v \<inter> rd_refs R m' v' = {}"
    using c(2) deep_copying.allocated[OF law ok] by fastforce
  moreover have "rd_val R m' v = rd_val R m v" using deep_copying.kept(2)[OF law ok] c by blast
  ultimately show ?thesis
    using deep_copying.original_safe(2)[OF law ok copy] deep_copying.copy_safe(2)[OF law ok copy]
    by (auto simp: independent_copy_def written_only_def)
qed

end
