(* ===== verification/DeepCopies.thy ===== *)
theory DeepCopies
  imports GoMemory ApiTypes
begin

text \<open>
  The generated files \<open>api/v1/zz_generated.deepcopy.go\<close> and \<open>api/v1alpha1/zz_generated.deepcopy.go\<close>: one definition
  for each method \<open>DeepCopyInto\<close>, \<open>DeepCopy\<close> and \<open>DeepCopyObject\<close>. A struct is a record whose slices are windows
  on blocks. \<open>DeepCopyInto\<close> takes the struct \<open>*in\<close> and returns what it leaves in \<open>*out\<close>; its receiver is not nil.

  The deep copies of the Kubernetes types \<open>ObjectMeta\<close>, \<open>ListMeta\<close> and \<open>ResourceRequirements\<close> are not part of the
  repository: they are the parameter \<open>k8s_copies\<close>, over their representations \<open>'m\<close>, \<open>'l\<close>, \<open>'r\<close> and blocks \<open>'e\<close>.
\<close>

subsection \<open>The structs in memory\<close>

record type_meta =
  tm_Kind :: string
  tm_APIVersion :: string

record host_aliases_ram =
  hr_HostIP :: string
  hr_Hostnames :: go_slice

record outputs_ram =
  ou_Splunk :: CommonAuditSpecSplunk
  ou_Syslog :: CommonAuditSpecSyslog
  ou_HostAliases :: go_slice

record 'r fluentd_ram =
  fr_ImageRegistry :: string
  fr_PullPolicy :: string
  fr_Resources :: 'r

record 'r spec_ram =
  sr_EnableAuditLoggingForwarding :: bool
  sr_ClusterIssuer :: string
  sr_Issuer :: string
  sr_Replicas :: int32
  sr_Fluentd :: "'r fluentd_ram"
  sr_Outputs :: outputs_ram

text \<open>Both packages have a status of that shape, and lists of that shape.\<close>

record status_ram =
  tr_Nodes :: go_slice
  tr_Versions :: StatusVersion

record ('m, 'r) common_ram =
  co_Type :: type_meta
  co_Meta :: 'm
  co_Spec :: "'r spec_ram"
  co_Status :: status_ram

record 'l list_ram =
  li_Type :: type_meta
  li_Meta :: 'l
  li_Items :: go_slice

record 'r al_fluentd_ram =
  ar_EnableAuditLoggingForwarding :: bool
  ar_ImageRegistry :: string
  ar_ImageTag :: string
  ar_PullPolicy :: string
  ar_ClusterIssuer :: string
  ar_Issuer :: string
  ar_Resources :: 'r

record 'r al_spec_ram =
  as_Fluentd :: "'r al_fluentd_ram"
  as_PolicyController :: AuditLoggingSpecPolicyController

record ('m, 'r) audit_ram =
  au_Type :: type_meta
  au_Meta :: 'm
  au_Spec :: "'r al_spec_ram"
  au_Status :: status_ram

text \<open>A block holds values of one type.\<close>

datatype ('e, 'm, 'l, 'r) cell =
    External 'e
  | Strings "string list"
  | HostAliasBlock "host_aliases_ram list"
  | SplunkBlock "CommonAuditSpecSplunk list"
  | SyslogBlock "CommonAuditSpecSyslog list"
  | OutputsBlock "outputs_ram list"
  | FluentdBlock "'r fluentd_ram list"
  | SpecBlock "'r spec_ram list"
  | StatusBlock "status_ram list"
  | VersionBlock "StatusVersion list"
  | CommonBlock "('m, 'r) common_ram list"
  | CommonListBlock "'l list_ram list"
  | AuditFluentdBlock "'r al_fluentd_ram list"
  | PolicyBlock "AuditLoggingSpecPolicyController list"
  | AuditSpecBlock "'r al_spec_ram list"
  | AuditStatusBlock "status_ram list"
  | AuditVersionBlock "StatusVersion list"
  | AuditBlock "('m, 'r) audit_ram list"
  | AuditListBlock "'l list_ram list"

type_synonym ('e, 'm, 'l, 'r) ram = "('e, 'm, 'l, 'r) cell memory"

text \<open>The deep copies of the Kubernetes types, and their zero values.\<close>

record ('e, 'm, 'l, 'r) k8s_copies =
  kc_meta :: "'m \<Rightarrow> ('e, 'm, 'l, 'r) ram \<Rightarrow> 'm \<times> ('e, 'm, 'l, 'r) ram"
  kc_list :: "'l \<Rightarrow> ('e, 'm, 'l, 'r) ram \<Rightarrow> 'l \<times> ('e, 'm, 'l, 'r) ram"
  kc_resources :: "'r \<Rightarrow> ('e, 'm, 'l, 'r) ram \<Rightarrow> 'r \<times> ('e, 'm, 'l, 'r) ram"
  kz_meta :: 'm
  kz_list :: 'l
  kz_resources :: 'r

text \<open>The blocks of each type.\<close>

definition strings_kind :: "(string, ('e, 'm, 'l, 'r) cell) block_kind" where
  "strings_kind = \<lparr>bk_make = Strings, bk_get = (\<lambda>c. case c of Strings xs \<Rightarrow> Some xs | _ \<Rightarrow> None)\<rparr>"

definition alias_kind :: "(host_aliases_ram, ('e, 'm, 'l, 'r) cell) block_kind" where
  "alias_kind = \<lparr>bk_make = HostAliasBlock, bk_get = (\<lambda>c. case c of HostAliasBlock xs \<Rightarrow> Some xs | _ \<Rightarrow> None)\<rparr>"

definition splunk_kind :: "(CommonAuditSpecSplunk, ('e, 'm, 'l, 'r) cell) block_kind" where
  "splunk_kind = \<lparr>bk_make = SplunkBlock, bk_get = (\<lambda>c. case c of SplunkBlock xs \<Rightarrow> Some xs | _ \<Rightarrow> None)\<rparr>"

definition syslog_kind :: "(CommonAuditSpecSyslog, ('e, 'm, 'l, 'r) cell) block_kind" where
  "syslog_kind = \<lparr>bk_make = SyslogBlock, bk_get = (\<lambda>c. case c of SyslogBlock xs \<Rightarrow> Some xs | _ \<Rightarrow> None)\<rparr>"

definition outputs_kind :: "(outputs_ram, ('e, 'm, 'l, 'r) cell) block_kind" where
  "outputs_kind = \<lparr>bk_make = OutputsBlock, bk_get = (\<lambda>c. case c of OutputsBlock xs \<Rightarrow> Some xs | _ \<Rightarrow> None)\<rparr>"

definition fluentd_kind :: "('r fluentd_ram, ('e, 'm, 'l, 'r) cell) block_kind" where
  "fluentd_kind = \<lparr>bk_make = FluentdBlock, bk_get = (\<lambda>c. case c of FluentdBlock xs \<Rightarrow> Some xs | _ \<Rightarrow> None)\<rparr>"

definition spec_kind :: "('r spec_ram, ('e, 'm, 'l, 'r) cell) block_kind" where
  "spec_kind = \<lparr>bk_make = SpecBlock, bk_get = (\<lambda>c. case c of SpecBlock xs \<Rightarrow> Some xs | _ \<Rightarrow> None)\<rparr>"

definition status_kind :: "(status_ram, ('e, 'm, 'l, 'r) cell) block_kind" where
  "status_kind = \<lparr>bk_make = StatusBlock, bk_get = (\<lambda>c. case c of StatusBlock xs \<Rightarrow> Some xs | _ \<Rightarrow> None)\<rparr>"

definition version_kind :: "(StatusVersion, ('e, 'm, 'l, 'r) cell) block_kind" where
  "version_kind = \<lparr>bk_make = VersionBlock, bk_get = (\<lambda>c. case c of VersionBlock xs \<Rightarrow> Some xs | _ \<Rightarrow> None)\<rparr>"

definition common_kind :: "(('m, 'r) common_ram, ('e, 'm, 'l, 'r) cell) block_kind" where
  "common_kind = \<lparr>bk_make = CommonBlock, bk_get = (\<lambda>c. case c of CommonBlock xs \<Rightarrow> Some xs | _ \<Rightarrow> None)\<rparr>"

definition common_list_kind :: "('l list_ram, ('e, 'm, 'l, 'r) cell) block_kind" where
  "common_list_kind = \<lparr>bk_make = CommonListBlock, bk_get = (\<lambda>c. case c of CommonListBlock xs \<Rightarrow> Some xs | _ \<Rightarrow> None)\<rparr>"

definition al_fluentd_kind :: "('r al_fluentd_ram, ('e, 'm, 'l, 'r) cell) block_kind" where
  "al_fluentd_kind = \<lparr>bk_make = AuditFluentdBlock, bk_get = (\<lambda>c. case c of AuditFluentdBlock xs \<Rightarrow> Some xs | _ \<Rightarrow> None)\<rparr>"

definition policy_kind :: "(AuditLoggingSpecPolicyController, ('e, 'm, 'l, 'r) cell) block_kind" where
  "policy_kind = \<lparr>bk_make = PolicyBlock, bk_get = (\<lambda>c. case c of PolicyBlock xs \<Rightarrow> Some xs | _ \<Rightarrow> None)\<rparr>"

definition al_spec_kind :: "('r al_spec_ram, ('e, 'm, 'l, 'r) cell) block_kind" where
  "al_spec_kind = \<lparr>bk_make = AuditSpecBlock, bk_get = (\<lambda>c. case c of AuditSpecBlock xs \<Rightarrow> Some xs | _ \<Rightarrow> None)\<rparr>"

definition al_status_kind :: "(status_ram, ('e, 'm, 'l, 'r) cell) block_kind" where
  "al_status_kind = \<lparr>bk_make = AuditStatusBlock, bk_get = (\<lambda>c. case c of AuditStatusBlock xs \<Rightarrow> Some xs | _ \<Rightarrow> None)\<rparr>"

definition al_version_kind :: "(StatusVersion, ('e, 'm, 'l, 'r) cell) block_kind" where
  "al_version_kind = \<lparr>bk_make = AuditVersionBlock, bk_get = (\<lambda>c. case c of AuditVersionBlock xs \<Rightarrow> Some xs | _ \<Rightarrow> None)\<rparr>"

definition audit_kind :: "(('m, 'r) audit_ram, ('e, 'm, 'l, 'r) cell) block_kind" where
  "audit_kind = \<lparr>bk_make = AuditBlock, bk_get = (\<lambda>c. case c of AuditBlock xs \<Rightarrow> Some xs | _ \<Rightarrow> None)\<rparr>"

definition audit_list_kind :: "('l list_ram, ('e, 'm, 'l, 'r) cell) block_kind" where
  "audit_list_kind = \<lparr>bk_make = AuditListBlock, bk_get = (\<lambda>c. case c of AuditListBlock xs \<Rightarrow> Some xs | _ \<Rightarrow> None)\<rparr>"

lemmas kind_defs =
  strings_kind_def alias_kind_def splunk_kind_def syslog_kind_def outputs_kind_def fluentd_kind_def
  spec_kind_def status_kind_def version_kind_def common_kind_def common_list_kind_def al_fluentd_kind_def
  policy_kind_def al_spec_kind_def al_status_kind_def al_version_kind_def audit_kind_def audit_list_kind_def

lemma kinds [simp]:
  "bk_get strings_kind (bk_make strings_kind xs0) = Some xs0"
  "bk_get alias_kind (bk_make alias_kind xs1) = Some xs1"
  "bk_get splunk_kind (bk_make splunk_kind xs2) = Some xs2"
  "bk_get syslog_kind (bk_make syslog_kind xs3) = Some xs3"
  "bk_get outputs_kind (bk_make outputs_kind xs4) = Some xs4"
  "bk_get fluentd_kind (bk_make fluentd_kind xs5) = Some xs5"
  "bk_get spec_kind (bk_make spec_kind xs6) = Some xs6"
  "bk_get status_kind (bk_make status_kind xs7) = Some xs7"
  "bk_get version_kind (bk_make version_kind xs8) = Some xs8"
  "bk_get common_kind (bk_make common_kind xs9) = Some xs9"
  "bk_get common_list_kind (bk_make common_list_kind xs10) = Some xs10"
  "bk_get al_fluentd_kind (bk_make al_fluentd_kind xs11) = Some xs11"
  "bk_get policy_kind (bk_make policy_kind xs12) = Some xs12"
  "bk_get al_spec_kind (bk_make al_spec_kind xs13) = Some xs13"
  "bk_get al_status_kind (bk_make al_status_kind xs14) = Some xs14"
  "bk_get al_version_kind (bk_make al_version_kind xs15) = Some xs15"
  "bk_get audit_kind (bk_make audit_kind xs16) = Some xs16"
  "bk_get audit_list_kind (bk_make audit_list_kind xs17) = Some xs17"
  by (simp_all add: kind_defs)

text \<open>The zero values, which \<open>make\<close> and \<open>new\<close> write.\<close>

definition zero_version :: StatusVersion where
  "zero_version = \<lparr>Reconciled = []\<rparr>"
definition zero_alias_ram :: host_aliases_ram where
  "zero_alias_ram = \<lparr>hr_HostIP = [], hr_Hostnames = None\<rparr>"
definition zero_outputs_ram :: outputs_ram where
  "zero_outputs_ram = \<lparr>ou_Splunk = zero_splunk, ou_Syslog = zero_syslog, ou_HostAliases = None\<rparr>"
definition zero_status_ram :: status_ram where
  "zero_status_ram = \<lparr>tr_Nodes = None, tr_Versions = zero_version\<rparr>"
definition zero_type :: type_meta where
  "zero_type = \<lparr>tm_Kind = [], tm_APIVersion = []\<rparr>"
definition zero_policy :: AuditLoggingSpecPolicyController where
  "zero_policy = \<lparr>EnableAuditPolicy = [], pc_ImageRegistry = [], pc_ImageTag = [], pc_PullPolicy = [],
  Verbosity = [], Frequency = []\<rparr>"

definition zero_fluentd_ram :: "('e, 'm, 'l, 'r) k8s_copies \<Rightarrow> 'r fluentd_ram" where
  "zero_fluentd_ram k = \<lparr>fr_ImageRegistry = [], fr_PullPolicy = [], fr_Resources = kz_resources k\<rparr>"

definition zero_spec_ram :: "('e, 'm, 'l, 'r) k8s_copies \<Rightarrow> 'r spec_ram" where
  "zero_spec_ram k = \<lparr>sr_EnableAuditLoggingForwarding = False, sr_ClusterIssuer = [], sr_Issuer = [],
     sr_Replicas = 0, sr_Fluentd = zero_fluentd_ram k, sr_Outputs = zero_outputs_ram\<rparr>"

definition zero_common_ram :: "('e, 'm, 'l, 'r) k8s_copies \<Rightarrow> ('m, 'r) common_ram" where
  "zero_common_ram k = \<lparr>co_Type = zero_type, co_Meta = kz_meta k, co_Spec = zero_spec_ram k,
     co_Status = zero_status_ram\<rparr>"

definition zero_list_ram :: "('e, 'm, 'l, 'r) k8s_copies \<Rightarrow> 'l list_ram" where
  "zero_list_ram k = \<lparr>li_Type = zero_type, li_Meta = kz_list k, li_Items = None\<rparr>"

definition zero_al_fluentd_ram :: "('e, 'm, 'l, 'r) k8s_copies \<Rightarrow> 'r al_fluentd_ram" where
  "zero_al_fluentd_ram k = \<lparr>ar_EnableAuditLoggingForwarding = False, ar_ImageRegistry = [], ar_ImageTag = [],
     ar_PullPolicy = [], ar_ClusterIssuer = [], ar_Issuer = [], ar_Resources = kz_resources k\<rparr>"

definition zero_al_spec_ram :: "('e, 'm, 'l, 'r) k8s_copies \<Rightarrow> 'r al_spec_ram" where
  "zero_al_spec_ram k = \<lparr>as_Fluentd = zero_al_fluentd_ram k, as_PolicyController = zero_policy\<rparr>"

definition zero_audit_ram :: "('e, 'm, 'l, 'r) k8s_copies \<Rightarrow> ('m, 'r) audit_ram" where
  "zero_audit_ram k = \<lparr>au_Type = zero_type, au_Meta = kz_meta k, au_Spec = zero_al_spec_ram k,
     au_Status = zero_status_ram\<rparr>"

subsection \<open>Package v1\<close>

text \<open>Structs without references: \<open>*out = *in\<close>.\<close>

definition Version_DeepCopyInto :: "StatusVersion \<Rightarrow> 'c memory \<Rightarrow> StatusVersion \<times> 'c memory" where
  "Version_DeepCopyInto v m = (v, m)"

definition Splunk_DeepCopyInto :: "CommonAuditSpecSplunk \<Rightarrow> 'c memory \<Rightarrow> CommonAuditSpecSplunk \<times> 'c memory" where
  "Splunk_DeepCopyInto s m = (s, m)"

definition Syslog_DeepCopyInto :: "CommonAuditSpecSyslog \<Rightarrow> 'c memory \<Rightarrow> CommonAuditSpecSyslog \<times> 'c memory" where
  "Syslog_DeepCopyInto s m = (s, m)"

text \<open>The others: \<open>out\<close> begins as \<open>*in\<close>, and each field that holds references is replaced.\<close>

definition HostAliases_DeepCopyInto ::
    "host_aliases_ram \<Rightarrow> ('e, 'm, 'l, 'r) ram \<Rightarrow> host_aliases_ram \<times> ('e, 'm, 'l, 'r) ram" where
  "HostAliases_DeepCopyInto s m =
     (case copy_plain strings_kind [] (hr_Hostnames s) m of (names, m) \<Rightarrow> (s\<lparr>hr_Hostnames := names\<rparr>, m))"

definition Outputs_DeepCopyInto ::
    "outputs_ram \<Rightarrow> ('e, 'm, 'l, 'r) ram \<Rightarrow> outputs_ram \<times> ('e, 'm, 'l, 'r) ram" where
  "Outputs_DeepCopyInto s m =
     (let out = s\<lparr>ou_Splunk := ou_Splunk s, ou_Syslog := ou_Syslog s\<rparr>
      in case copy_slice alias_kind zero_alias_ram HostAliases_DeepCopyInto (ou_HostAliases s) m of
           (aliases, m) \<Rightarrow> (out\<lparr>ou_HostAliases := aliases\<rparr>, m))"

definition Fluentd_DeepCopyInto ::
    "('e, 'm, 'l, 'r) k8s_copies \<Rightarrow> 'r fluentd_ram \<Rightarrow> ('e, 'm, 'l, 'r) ram \<Rightarrow>
     'r fluentd_ram \<times> ('e, 'm, 'l, 'r) ram" where
  "Fluentd_DeepCopyInto k s m =
     (case kc_resources k (fr_Resources s) m of (res, m) \<Rightarrow> (s\<lparr>fr_Resources := res\<rparr>, m))"

definition Spec_DeepCopyInto ::
    "('e, 'm, 'l, 'r) k8s_copies \<Rightarrow> 'r spec_ram \<Rightarrow> ('e, 'm, 'l, 'r) ram \<Rightarrow> 'r spec_ram \<times> ('e, 'm, 'l, 'r) ram" where
  "Spec_DeepCopyInto k s m =
     (case Fluentd_DeepCopyInto k (sr_Fluentd s) m of
        (fluentd, m) \<Rightarrow>
          (case Outputs_DeepCopyInto (sr_Outputs s) m of
             (outputs, m) \<Rightarrow> (s\<lparr>sr_Fluentd := fluentd, sr_Outputs := outputs\<rparr>, m)))"

definition Status_DeepCopyInto ::
    "status_ram \<Rightarrow> ('e, 'm, 'l, 'r) ram \<Rightarrow> status_ram \<times> ('e, 'm, 'l, 'r) ram" where
  "Status_DeepCopyInto s m =
     (case copy_plain strings_kind [] (tr_Nodes s) m of
        (nodes, m) \<Rightarrow> (s\<lparr>tr_Nodes := nodes, tr_Versions := tr_Versions s\<rparr>, m))"

definition CommonAudit_DeepCopyInto ::
    "('e, 'm, 'l, 'r) k8s_copies \<Rightarrow> ('m, 'r) common_ram \<Rightarrow> ('e, 'm, 'l, 'r) ram \<Rightarrow>
     ('m, 'r) common_ram \<times> ('e, 'm, 'l, 'r) ram" where
  "CommonAudit_DeepCopyInto k s m =
     (let out = s\<lparr>co_Type := co_Type s\<rparr>
      in case kc_meta k (co_Meta s) m of
           (meta, m) \<Rightarrow>
             (case Spec_DeepCopyInto k (co_Spec s) m of
                (spec, m) \<Rightarrow>
                  (case Status_DeepCopyInto (co_Status s) m of
                     (status, m) \<Rightarrow> (out\<lparr>co_Meta := meta, co_Spec := spec, co_Status := status\<rparr>, m))))"

definition CommonAuditList_DeepCopyInto ::
    "('e, 'm, 'l, 'r) k8s_copies \<Rightarrow> 'l list_ram \<Rightarrow> ('e, 'm, 'l, 'r) ram \<Rightarrow> 'l list_ram \<times> ('e, 'm, 'l, 'r) ram" where
  "CommonAuditList_DeepCopyInto k s m =
     (let out = s\<lparr>li_Type := li_Type s\<rparr>
      in case kc_list k (li_Meta s) m of
           (meta, m) \<Rightarrow>
             (case copy_slice common_kind (zero_common_ram k) (CommonAudit_DeepCopyInto k) (li_Items s) m of
                (items, m) \<Rightarrow> (out\<lparr>li_Meta := meta, li_Items := items\<rparr>, m)))"

text \<open>The methods \<open>DeepCopy\<close>, on pointers.\<close>

definition Version_DeepCopy :: "go_ptr \<Rightarrow> ('e, 'm, 'l, 'r) ram \<Rightarrow> go_ptr \<times> ('e, 'm, 'l, 'r) ram" where
  "Version_DeepCopy p m = copy_new version_kind zero_version Version_DeepCopyInto p m"

definition Splunk_DeepCopy :: "go_ptr \<Rightarrow> ('e, 'm, 'l, 'r) ram \<Rightarrow> go_ptr \<times> ('e, 'm, 'l, 'r) ram" where
  "Splunk_DeepCopy p m = copy_new splunk_kind zero_splunk Splunk_DeepCopyInto p m"

definition Syslog_DeepCopy :: "go_ptr \<Rightarrow> ('e, 'm, 'l, 'r) ram \<Rightarrow> go_ptr \<times> ('e, 'm, 'l, 'r) ram" where
  "Syslog_DeepCopy p m = copy_new syslog_kind zero_syslog Syslog_DeepCopyInto p m"

definition HostAliases_DeepCopy :: "go_ptr \<Rightarrow> ('e, 'm, 'l, 'r) ram \<Rightarrow> go_ptr \<times> ('e, 'm, 'l, 'r) ram" where
  "HostAliases_DeepCopy p m = copy_new alias_kind zero_alias_ram HostAliases_DeepCopyInto p m"

definition Outputs_DeepCopy :: "go_ptr \<Rightarrow> ('e, 'm, 'l, 'r) ram \<Rightarrow> go_ptr \<times> ('e, 'm, 'l, 'r) ram" where
  "Outputs_DeepCopy p m = copy_new outputs_kind zero_outputs_ram Outputs_DeepCopyInto p m"

definition Fluentd_DeepCopy :: "('e, 'm, 'l, 'r) k8s_copies \<Rightarrow> go_ptr \<Rightarrow> ('e, 'm, 'l, 'r) ram \<Rightarrow> go_ptr \<times> ('e, 'm, 'l, 'r) ram" where
  "Fluentd_DeepCopy k p m = copy_new fluentd_kind (zero_fluentd_ram k) (Fluentd_DeepCopyInto k) p m"

definition Spec_DeepCopy :: "('e, 'm, 'l, 'r) k8s_copies \<Rightarrow> go_ptr \<Rightarrow> ('e, 'm, 'l, 'r) ram \<Rightarrow> go_ptr \<times> ('e, 'm, 'l, 'r) ram" where
  "Spec_DeepCopy k p m = copy_new spec_kind (zero_spec_ram k) (Spec_DeepCopyInto k) p m"

definition Status_DeepCopy :: "go_ptr \<Rightarrow> ('e, 'm, 'l, 'r) ram \<Rightarrow> go_ptr \<times> ('e, 'm, 'l, 'r) ram" where
  "Status_DeepCopy p m = copy_new status_kind zero_status_ram Status_DeepCopyInto p m"

definition CommonAudit_DeepCopy :: "('e, 'm, 'l, 'r) k8s_copies \<Rightarrow> go_ptr \<Rightarrow> ('e, 'm, 'l, 'r) ram \<Rightarrow> go_ptr \<times> ('e, 'm, 'l, 'r) ram" where
  "CommonAudit_DeepCopy k p m = copy_new common_kind (zero_common_ram k) (CommonAudit_DeepCopyInto k) p m"

definition CommonAuditList_DeepCopy :: "('e, 'm, 'l, 'r) k8s_copies \<Rightarrow> go_ptr \<Rightarrow> ('e, 'm, 'l, 'r) ram \<Rightarrow> go_ptr \<times> ('e, 'm, 'l, 'r) ram" where
  "CommonAuditList_DeepCopy k p m = copy_new common_list_kind (zero_list_ram k) (CommonAuditList_DeepCopyInto k) p m"

text \<open>
  A \<open>runtime.Object\<close> is an interface: nil, or a pointer with its type. An interface that holds a nil pointer is not
  itself nil, so \<open>DeepCopyObject\<close> tells the cases apart.
\<close>

datatype runtime_object = NilObject | ObjectOf string go_ptr

definition deep_copy_object ::
    "string \<Rightarrow> (go_ptr \<Rightarrow> 'c memory \<Rightarrow> go_ptr \<times> 'c memory) \<Rightarrow> go_ptr \<Rightarrow> 'c memory \<Rightarrow> runtime_object \<times> 'c memory" where
  "deep_copy_object T copy p m =
     (case copy p m of (c, m') \<Rightarrow> if c \<noteq> None then (ObjectOf T c, m') else (NilObject, m'))"

definition CommonAudit_DeepCopyObject ::
    "('e, 'm, 'l, 'r) k8s_copies \<Rightarrow> go_ptr \<Rightarrow> ('e, 'm, 'l, 'r) ram \<Rightarrow> runtime_object \<times> ('e, 'm, 'l, 'r) ram" where
  "CommonAudit_DeepCopyObject k = deep_copy_object ''CommonAudit'' (CommonAudit_DeepCopy k)"

definition CommonAuditList_DeepCopyObject ::
    "('e, 'm, 'l, 'r) k8s_copies \<Rightarrow> go_ptr \<Rightarrow> ('e, 'm, 'l, 'r) ram \<Rightarrow> runtime_object \<times> ('e, 'm, 'l, 'r) ram" where
  "CommonAuditList_DeepCopyObject k = deep_copy_object ''CommonAuditList'' (CommonAuditList_DeepCopy k)"

subsection \<open>Package v1alpha1\<close>

definition AuditVersion_DeepCopyInto :: "StatusVersion \<Rightarrow> 'c memory \<Rightarrow> StatusVersion \<times> 'c memory" where
  "AuditVersion_DeepCopyInto v m = (v, m)"

definition PolicyController_DeepCopyInto ::
    "AuditLoggingSpecPolicyController \<Rightarrow> 'c memory \<Rightarrow> AuditLoggingSpecPolicyController \<times> 'c memory" where
  "PolicyController_DeepCopyInto s m = (s, m)"

definition AuditFluentd_DeepCopyInto ::
    "('e, 'm, 'l, 'r) k8s_copies \<Rightarrow> 'r al_fluentd_ram \<Rightarrow> ('e, 'm, 'l, 'r) ram \<Rightarrow>
     'r al_fluentd_ram \<times> ('e, 'm, 'l, 'r) ram" where
  "AuditFluentd_DeepCopyInto k s m =
     (case kc_resources k (ar_Resources s) m of (res, m) \<Rightarrow> (s\<lparr>ar_Resources := res\<rparr>, m))"

definition AuditSpec_DeepCopyInto ::
    "('e, 'm, 'l, 'r) k8s_copies \<Rightarrow> 'r al_spec_ram \<Rightarrow> ('e, 'm, 'l, 'r) ram \<Rightarrow>
     'r al_spec_ram \<times> ('e, 'm, 'l, 'r) ram" where
  "AuditSpec_DeepCopyInto k s m =
     (case AuditFluentd_DeepCopyInto k (as_Fluentd s) m of
        (fluentd, m) \<Rightarrow> (s\<lparr>as_Fluentd := fluentd, as_PolicyController := as_PolicyController s\<rparr>, m))"

definition AuditStatus_DeepCopyInto ::
    "status_ram \<Rightarrow> ('e, 'm, 'l, 'r) ram \<Rightarrow> status_ram \<times> ('e, 'm, 'l, 'r) ram" where
  "AuditStatus_DeepCopyInto s m =
     (case copy_plain strings_kind [] (tr_Nodes s) m of
        (nodes, m) \<Rightarrow> (s\<lparr>tr_Nodes := nodes, tr_Versions := tr_Versions s\<rparr>, m))"

definition AuditLogging_DeepCopyInto ::
    "('e, 'm, 'l, 'r) k8s_copies \<Rightarrow> ('m, 'r) audit_ram \<Rightarrow> ('e, 'm, 'l, 'r) ram \<Rightarrow>
     ('m, 'r) audit_ram \<times> ('e, 'm, 'l, 'r) ram" where
  "AuditLogging_DeepCopyInto k s m =
     (let out = s\<lparr>au_Type := au_Type s\<rparr>
      in case kc_meta k (au_Meta s) m of
           (meta, m) \<Rightarrow>
             (case AuditSpec_DeepCopyInto k (au_Spec s) m of
                (spec, m) \<Rightarrow>
                  (case AuditStatus_DeepCopyInto (au_Status s) m of
                     (status, m) \<Rightarrow> (out\<lparr>au_Meta := meta, au_Spec := spec, au_Status := status\<rparr>, m))))"

definition AuditLoggingList_DeepCopyInto ::
    "('e, 'm, 'l, 'r) k8s_copies \<Rightarrow> 'l list_ram \<Rightarrow> ('e, 'm, 'l, 'r) ram \<Rightarrow> 'l list_ram \<times> ('e, 'm, 'l, 'r) ram" where
  "AuditLoggingList_DeepCopyInto k s m =
     (let out = s\<lparr>li_Type := li_Type s\<rparr>
      in case kc_list k (li_Meta s) m of
           (meta, m) \<Rightarrow>
             (case copy_slice audit_kind (zero_audit_ram k) (AuditLogging_DeepCopyInto k) (li_Items s) m of
                (items, m) \<Rightarrow> (out\<lparr>li_Meta := meta, li_Items := items\<rparr>, m)))"

definition AuditVersion_DeepCopy :: "go_ptr \<Rightarrow> ('e, 'm, 'l, 'r) ram \<Rightarrow> go_ptr \<times> ('e, 'm, 'l, 'r) ram" where
  "AuditVersion_DeepCopy p m = copy_new al_version_kind zero_version AuditVersion_DeepCopyInto p m"

definition PolicyController_DeepCopy :: "go_ptr \<Rightarrow> ('e, 'm, 'l, 'r) ram \<Rightarrow> go_ptr \<times> ('e, 'm, 'l, 'r) ram" where
  "PolicyController_DeepCopy p m = copy_new policy_kind zero_policy PolicyController_DeepCopyInto p m"

definition AuditFluentd_DeepCopy :: "('e, 'm, 'l, 'r) k8s_copies \<Rightarrow> go_ptr \<Rightarrow> ('e, 'm, 'l, 'r) ram \<Rightarrow> go_ptr \<times> ('e, 'm, 'l, 'r) ram" where
  "AuditFluentd_DeepCopy k p m = copy_new al_fluentd_kind (zero_al_fluentd_ram k) (AuditFluentd_DeepCopyInto k) p m"

definition AuditSpec_DeepCopy :: "('e, 'm, 'l, 'r) k8s_copies \<Rightarrow> go_ptr \<Rightarrow> ('e, 'm, 'l, 'r) ram \<Rightarrow> go_ptr \<times> ('e, 'm, 'l, 'r) ram" where
  "AuditSpec_DeepCopy k p m = copy_new al_spec_kind (zero_al_spec_ram k) (AuditSpec_DeepCopyInto k) p m"

definition AuditStatus_DeepCopy :: "go_ptr \<Rightarrow> ('e, 'm, 'l, 'r) ram \<Rightarrow> go_ptr \<times> ('e, 'm, 'l, 'r) ram" where
  "AuditStatus_DeepCopy p m = copy_new al_status_kind zero_status_ram AuditStatus_DeepCopyInto p m"

definition AuditLogging_DeepCopy :: "('e, 'm, 'l, 'r) k8s_copies \<Rightarrow> go_ptr \<Rightarrow> ('e, 'm, 'l, 'r) ram \<Rightarrow> go_ptr \<times> ('e, 'm, 'l, 'r) ram" where
  "AuditLogging_DeepCopy k p m = copy_new audit_kind (zero_audit_ram k) (AuditLogging_DeepCopyInto k) p m"

definition AuditLoggingList_DeepCopy :: "('e, 'm, 'l, 'r) k8s_copies \<Rightarrow> go_ptr \<Rightarrow> ('e, 'm, 'l, 'r) ram \<Rightarrow> go_ptr \<times> ('e, 'm, 'l, 'r) ram" where
  "AuditLoggingList_DeepCopy k p m = copy_new audit_list_kind (zero_list_ram k) (AuditLoggingList_DeepCopyInto k) p m"

definition AuditLogging_DeepCopyObject ::
    "('e, 'm, 'l, 'r) k8s_copies \<Rightarrow> go_ptr \<Rightarrow> ('e, 'm, 'l, 'r) ram \<Rightarrow> runtime_object \<times> ('e, 'm, 'l, 'r) ram" where
  "AuditLogging_DeepCopyObject k = deep_copy_object ''AuditLogging'' (AuditLogging_DeepCopy k)"

definition AuditLoggingList_DeepCopyObject ::
    "('e, 'm, 'l, 'r) k8s_copies \<Rightarrow> go_ptr \<Rightarrow> ('e, 'm, 'l, 'r) ram \<Rightarrow> runtime_object \<times> ('e, 'm, 'l, 'r) ram" where
  "AuditLoggingList_DeepCopyObject k = deep_copy_object ''AuditLoggingList'' (AuditLoggingList_DeepCopy k)"

end
