(* ===== verification/DeepCopyLaws.thy ===== *)
theory DeepCopyLaws
  imports DeepCopies
begin

text \<open>
  The generated deep copies are deep copies: for every type, how its representation is read as the value of
  \<open>ApiTypes\<close>, and the contract \<open>deep_copying\<close> of its \<open>DeepCopyInto\<close>, from the contracts of its fields. The types of
  Kubernetes come with readings of their own, and the law that their deep copies are deep copies.
\<close>

subsection \<open>Readings\<close>

record ('e, 'm, 'l, 'r, 'x) k8s_readings =
  kr_meta :: "(('e, 'm, 'l, 'r) cell, 'm, objmeta) reading"
  kr_list :: "(('e, 'm, 'l, 'r) cell, 'l, 'x) reading"
  kr_resources :: "(('e, 'm, 'l, 'r) cell, 'r, resource_requirements) reading"

definition copies_k8s :: "('e, 'm, 'l, 'r) k8s_copies \<Rightarrow> ('e, 'm, 'l, 'r, 'x) k8s_readings \<Rightarrow> bool" where
  "copies_k8s k R \<longleftrightarrow> deep_copies (kr_meta R) (kc_meta k) \<and> deep_copies (kr_list R) (kc_list k) \<and>
     deep_copies (kr_resources R) (kc_resources k)"

definition alias_reading :: "(('e, 'm, 'l, 'r) cell, host_aliases_ram, CommonAuditSpecHostAliases) reading" where
  "alias_reading = struct_reading hr_Hostnames (\<lambda>s names. \<lparr>HostIP = hr_HostIP s, Hostnames = names\<rparr>)
     (slice_reading strings_kind plain_reading)"

definition outputs_reading :: "(('e, 'm, 'l, 'r) cell, outputs_ram, CommonAuditSpecOutputs) reading" where
  "outputs_reading = struct_reading ou_HostAliases
     (\<lambda>s aliases. \<lparr>Splunk = ou_Splunk s, Syslog = ou_Syslog s, HostAliases = aliases\<rparr>)
     (slice_reading alias_kind alias_reading)"

definition fluentd_reading ::
    "('e, 'm, 'l, 'r, 'x) k8s_readings \<Rightarrow> (('e, 'm, 'l, 'r) cell, 'r fluentd_ram, CommonAuditSpecFluentd) reading" where
  "fluentd_reading R = struct_reading fr_Resources
     (\<lambda>s res. \<lparr>caf_ImageRegistry = fr_ImageRegistry s, caf_PullPolicy = fr_PullPolicy s, caf_Resources = res\<rparr>)
     (kr_resources R)"

definition spec_reading ::
    "('e, 'm, 'l, 'r, 'x) k8s_readings \<Rightarrow> (('e, 'm, 'l, 'r) cell, 'r spec_ram, CommonAuditSpec) reading" where
  "spec_reading R = struct_reading (\<lambda>s. (sr_Fluentd s, sr_Outputs s))
     (\<lambda>s (fluentd, outputs).
        \<lparr>ca_EnableAuditLoggingForwarding = sr_EnableAuditLoggingForwarding s, ca_ClusterIssuer = sr_ClusterIssuer s,
         ca_Issuer = sr_Issuer s, ca_Replicas = sr_Replicas s, ca_Fluentd = fluentd, ca_Outputs = outputs\<rparr>)
     (pair_reading (fluentd_reading R) outputs_reading)"

definition status_reading :: "(('e, 'm, 'l, 'r) cell, status_ram, CommonAuditStatus) reading" where
  "status_reading = struct_reading tr_Nodes (\<lambda>s nodes. \<lparr>ca_Nodes = nodes, ca_Versions = tr_Versions s\<rparr>)
     (slice_reading strings_kind plain_reading)"

definition common_reading ::
    "('e, 'm, 'l, 'r, 'x) k8s_readings \<Rightarrow> (('e, 'm, 'l, 'r) cell, ('m, 'r) common_ram, type_meta \<times> CommonAudit) reading" where
  "common_reading R = struct_reading (\<lambda>s. (co_Meta s, co_Spec s, co_Status s))
     (\<lambda>s (meta, spec, status). (co_Type s, \<lparr>ca_Meta = meta, ca_Spec = spec, ca_Status = status\<rparr>))
     (pair_reading (kr_meta R) (pair_reading (spec_reading R) status_reading))"

text \<open>A list of \<open>CommonAudit\<close> or of \<open>AuditLogging\<close>, by the kind and the reading of its items.\<close>

definition list_reading ::
    "('e, 'm, 'l, 'r, 'x) k8s_readings \<Rightarrow> ('v, ('e, 'm, 'l, 'r) cell) block_kind \<Rightarrow>
     (('e, 'm, 'l, 'r) cell, 'v, 'y) reading \<Rightarrow>
     (('e, 'm, 'l, 'r) cell, 'l list_ram, type_meta \<times> 'x \<times> 'y slice) reading" where
  "list_reading R K item = struct_reading (\<lambda>s. (li_Meta s, li_Items s)) (\<lambda>s (meta, items). (li_Type s, meta, items))
     (pair_reading (kr_list R) (slice_reading K item))"

definition al_fluentd_reading ::
    "('e, 'm, 'l, 'r, 'x) k8s_readings \<Rightarrow>
     (('e, 'm, 'l, 'r) cell, 'r al_fluentd_ram, AuditLoggingSpecFluentd) reading" where
  "al_fluentd_reading R = struct_reading ar_Resources
     (\<lambda>s res. \<lparr>alf_EnableAuditLoggingForwarding = ar_EnableAuditLoggingForwarding s,
        alf_ImageRegistry = ar_ImageRegistry s, alf_ImageTag = ar_ImageTag s, alf_PullPolicy = ar_PullPolicy s,
        alf_ClusterIssuer = ar_ClusterIssuer s, alf_Issuer = ar_Issuer s, alf_Resources = res\<rparr>)
     (kr_resources R)"

definition al_spec_reading ::
    "('e, 'm, 'l, 'r, 'x) k8s_readings \<Rightarrow> (('e, 'm, 'l, 'r) cell, 'r al_spec_ram, AuditLoggingSpec) reading" where
  "al_spec_reading R = struct_reading as_Fluentd
     (\<lambda>s fluentd. \<lparr>al_Fluentd = fluentd, al_PolicyController = as_PolicyController s\<rparr>) (al_fluentd_reading R)"

definition al_status_reading :: "(('e, 'm, 'l, 'r) cell, status_ram, AuditLoggingStatus) reading" where
  "al_status_reading = struct_reading tr_Nodes (\<lambda>s nodes. \<lparr>al_Nodes = nodes, al_Versions = tr_Versions s\<rparr>)
     (slice_reading strings_kind plain_reading)"

definition audit_reading ::
    "('e, 'm, 'l, 'r, 'x) k8s_readings \<Rightarrow> (('e, 'm, 'l, 'r) cell, ('m, 'r) audit_ram, type_meta \<times> AuditLogging) reading" where
  "audit_reading R = struct_reading (\<lambda>s. (au_Meta s, au_Spec s, au_Status s))
     (\<lambda>s (meta, spec, status). (au_Type s, \<lparr>al_Meta = meta, al_Spec = spec, al_Status = status\<rparr>))
     (pair_reading (kr_meta R) (pair_reading (al_spec_reading R) al_status_reading))"

subsection \<open>The contract of every \<open>DeepCopyInto\<close>\<close>

named_theorems deep_copy_laws \<open>contracts of the generated DeepCopyInto methods\<close>

lemma plain_copies [deep_copy_laws]:
  "deep_copies plain_reading Version_DeepCopyInto" "deep_copies plain_reading Splunk_DeepCopyInto"
  "deep_copies plain_reading Syslog_DeepCopyInto" "deep_copies plain_reading AuditVersion_DeepCopyInto"
  "deep_copies plain_reading PolicyController_DeepCopyInto"
  using plain_copying
  by (simp_all add: deep_copies_def plain_reading_def Version_DeepCopyInto_def[abs_def] Splunk_DeepCopyInto_def[abs_def]
      Syslog_DeepCopyInto_def[abs_def] AuditVersion_DeepCopyInto_def[abs_def] PolicyController_DeepCopyInto_def[abs_def])

lemma host_aliases_copies [deep_copy_laws]: "deep_copies alias_reading HostAliases_DeepCopyInto"
  unfolding alias_reading_def
  by (rule copies_struct[where put = "\<lambda>names s. s\<lparr>hr_Hostnames := names\<rparr>", OF copies_plain_slice])
    (simp_all add: HostAliases_DeepCopyInto_def)

lemma outputs_copies [deep_copy_laws]: "deep_copies outputs_reading Outputs_DeepCopyInto"
  unfolding outputs_reading_def
  by (rule copies_struct[where put = "\<lambda>aliases s. s\<lparr>ou_HostAliases := aliases\<rparr>",
        OF copies_slice[OF host_aliases_copies]])
    (simp_all add: Outputs_DeepCopyInto_def)

lemma status_copies [deep_copy_laws]:
  "deep_copies status_reading Status_DeepCopyInto" "deep_copies al_status_reading AuditStatus_DeepCopyInto"
  unfolding status_reading_def al_status_reading_def
  by (rule copies_struct[where put = "\<lambda>nodes s. s\<lparr>tr_Nodes := nodes\<rparr>", OF copies_plain_slice],
      simp_all add: Status_DeepCopyInto_def AuditStatus_DeepCopyInto_def)+

lemma fluentd_copies [deep_copy_laws]:
  "copies_k8s k R \<Longrightarrow> deep_copies (fluentd_reading R) (Fluentd_DeepCopyInto k)"
  unfolding fluentd_reading_def
  by (rule copies_struct[where put = "\<lambda>res s. s\<lparr>fr_Resources := res\<rparr>" and dc = "kc_resources k"])
    (simp_all add: Fluentd_DeepCopyInto_def copies_k8s_def)

lemma spec_copies [deep_copy_laws]: "copies_k8s k R \<Longrightarrow> deep_copies (spec_reading R) (Spec_DeepCopyInto k)"
  unfolding spec_reading_def
  by (rule copies_struct[where put = "\<lambda>p s. s\<lparr>sr_Fluentd := fst p, sr_Outputs := snd p\<rparr>",
        OF copies_pair[OF fluentd_copies outputs_copies]])
    (auto simp: Spec_DeepCopyInto_def copy_both_def split: prod.splits)

lemma common_copies [deep_copy_laws]: "copies_k8s k R \<Longrightarrow> deep_copies (common_reading R) (CommonAudit_DeepCopyInto k)"
  unfolding common_reading_def
  by (rule copies_struct[where put = "\<lambda>p s. s\<lparr>co_Meta := fst p, co_Spec := fst (snd p), co_Status := snd (snd p)\<rparr>",
        OF copies_pair[where f = "kc_meta k", OF _ copies_pair[OF spec_copies status_copies(1)]]])
    (auto simp: CommonAudit_DeepCopyInto_def copy_both_def copies_k8s_def split: prod.splits)

lemma common_list_copies [deep_copy_laws]:
  "copies_k8s k R \<Longrightarrow> deep_copies (list_reading R common_kind (common_reading R)) (CommonAuditList_DeepCopyInto k)"
  unfolding list_reading_def
  by (rule copies_struct[where put = "\<lambda>p s. s\<lparr>li_Meta := fst p, li_Items := snd p\<rparr>",
        OF copies_pair[where f = "kc_list k", OF _ copies_slice[where zero = "zero_common_ram k", OF common_copies]]])
    (auto simp: CommonAuditList_DeepCopyInto_def copy_both_def copies_k8s_def split: prod.splits)

lemma al_fluentd_copies [deep_copy_laws]:
  "copies_k8s k R \<Longrightarrow> deep_copies (al_fluentd_reading R) (AuditFluentd_DeepCopyInto k)"
  unfolding al_fluentd_reading_def
  by (rule copies_struct[where put = "\<lambda>res s. s\<lparr>ar_Resources := res\<rparr>" and dc = "kc_resources k"])
    (simp_all add: AuditFluentd_DeepCopyInto_def copies_k8s_def)

lemma al_spec_copies [deep_copy_laws]: "copies_k8s k R \<Longrightarrow> deep_copies (al_spec_reading R) (AuditSpec_DeepCopyInto k)"
  unfolding al_spec_reading_def
  by (rule copies_struct[where put = "\<lambda>p s. s\<lparr>as_Fluentd := p\<rparr>", OF al_fluentd_copies])
    (auto simp: AuditSpec_DeepCopyInto_def split: prod.splits)

lemma audit_copies [deep_copy_laws]: "copies_k8s k R \<Longrightarrow> deep_copies (audit_reading R) (AuditLogging_DeepCopyInto k)"
  unfolding audit_reading_def
  by (rule copies_struct[where put = "\<lambda>p s. s\<lparr>au_Meta := fst p, au_Spec := fst (snd p), au_Status := snd (snd p)\<rparr>",
        OF copies_pair[where f = "kc_meta k", OF _ copies_pair[OF al_spec_copies status_copies(2)]]])
    (auto simp: AuditLogging_DeepCopyInto_def copy_both_def copies_k8s_def split: prod.splits)

lemma audit_list_copies [deep_copy_laws]:
  "copies_k8s k R \<Longrightarrow> deep_copies (list_reading R audit_kind (audit_reading R)) (AuditLoggingList_DeepCopyInto k)"
  unfolding list_reading_def
  by (rule copies_struct[where put = "\<lambda>p s. s\<lparr>li_Meta := fst p, li_Items := snd p\<rparr>",
        OF copies_pair[where f = "kc_list k", OF _ copies_slice[where zero = "zero_audit_ram k", OF audit_copies]]])
    (auto simp: AuditLoggingList_DeepCopyInto_def copy_both_def copies_k8s_def split: prod.splits)

text \<open>The contract on the types that hold no type of Kubernetes.\<close>

interpretation alias_copies:
  deep_copying "rd_ok alias_reading" "rd_val alias_reading" "rd_refs alias_reading" HostAliases_DeepCopyInto
  using host_aliases_copies by (simp add: deep_copies_def)

interpretation output_copies:
  deep_copying "rd_ok outputs_reading" "rd_val outputs_reading" "rd_refs outputs_reading" Outputs_DeepCopyInto
  using outputs_copies by (simp add: deep_copies_def)

interpretation node_copies:
  deep_copying "rd_ok status_reading" "rd_val status_reading" "rd_refs status_reading" Status_DeepCopyInto
  using status_copies(1) by (simp add: deep_copies_def)

interpretation al_node_copies:
  deep_copying "rd_ok al_status_reading" "rd_val al_status_reading" "rd_refs al_status_reading" AuditStatus_DeepCopyInto
  using status_copies(2) by (simp add: deep_copies_def)

end
