(* ===== verification/DeepCopyProps.thy ===== *)
theory DeepCopyProps
  imports DeepCopyLaws
begin

text \<open>
  What a client of \<open>DeepCopyObject\<close> relies on, for the objects and the lists of both packages, and an instance with
  objects in memory.
\<close>

subsection \<open>Copies of objects\<close>

text \<open>
  Of a nil pointer the copy is the nil interface. Of an object it is an independent copy: it lies in new memory,
  stands for the same value, and from then on no write to one of the two shows in the other.
\<close>

definition copies_object ::
    "string \<Rightarrow> ('c, go_ptr, 'x) reading \<Rightarrow> (go_ptr \<Rightarrow> 'c memory \<Rightarrow> runtime_object \<times> 'c memory) \<Rightarrow> bool" where
  "copies_object T R dco \<longleftrightarrow> (\<forall>m p. rd_ok R m p \<longrightarrow>
     (case dco p m of (obj, m') \<Rightarrow>
        (case p of
           None \<Rightarrow> obj = NilObject \<and> m' = m
         | Some q \<Rightarrow> \<exists>c. obj = ObjectOf T (Some c) \<and> next_addr m \<le> p_Block c \<and> independent_copy R m p m' (Some c))))"

lemma copy_new_pointers:
  "copy_new K zero dc None m = (None, m)"
  "copy_new K zero dc (Some q) m = (c, m') \<Longrightarrow> c = Some \<lparr>p_Block = next_addr m, p_Index = 0\<rparr>"
  by (auto simp: copy_new_def alloc_def split: prod.splits)

lemma object_copied:
  assumes dc: "deep_copies R dc" and kind: "\<And>xs. bk_get K (bk_make K xs) = Some xs"
  shows "copies_object T (ptr_reading K R) (deep_copy_object T (copy_new K zero dc))"
proof -
  note law = copies_ptr[where K = K and zero = zero, OF dc kind]
  have "case deep_copy_object T (copy_new K zero dc) p m of (obj, m') \<Rightarrow>
      (case p of None \<Rightarrow> obj = NilObject \<and> m' = m
       | Some q \<Rightarrow> \<exists>c. obj = ObjectOf T (Some c) \<and> next_addr m \<le> p_Block c \<and>
           independent_copy (ptr_reading K R) m p m' (Some c))"
    if ok: "rd_ok (ptr_reading K R) m p" for m p
  proof (cases p)
    case None
    then show ?thesis by (simp add: deep_copy_object_def copy_new_pointers(1))
  next
    case (Some q)
    obtain c m' where copy: "copy_new K zero dc p m = (c, m')" by (cases "copy_new K zero dc p m")
    then have "c = Some \<lparr>p_Block = next_addr m, p_Index = 0\<rparr>" by (simp add: Some copy_new_pointers(2))
    then show ?thesis using copies_independent[OF law ok copy] Some copy by (simp add: deep_copy_object_def)
  qed
  then show ?thesis by (auto simp: copies_object_def)
qed

lemma CommonAudit_objects:
  assumes "copies_k8s k R"
  shows "copies_object ''CommonAudit'' (ptr_reading common_kind (common_reading R)) (CommonAudit_DeepCopyObject k)"
    "copies_object ''CommonAuditList'' (ptr_reading common_list_kind (list_reading R common_kind (common_reading R)))
       (CommonAuditList_DeepCopyObject k)"
  using object_copied[OF common_copies[OF assms], of common_kind "''CommonAudit''" "zero_common_ram k"]
    object_copied[OF common_list_copies[OF assms], of common_list_kind "''CommonAuditList''" "zero_list_ram k"]
  by (simp_all add: CommonAudit_DeepCopyObject_def CommonAuditList_DeepCopyObject_def CommonAudit_DeepCopy_def[abs_def]
      CommonAuditList_DeepCopy_def[abs_def])

lemma AuditLogging_objects:
  assumes "copies_k8s k R"
  shows "copies_object ''AuditLogging'' (ptr_reading audit_kind (audit_reading R)) (AuditLogging_DeepCopyObject k)"
    "copies_object ''AuditLoggingList'' (ptr_reading audit_list_kind (list_reading R audit_kind (audit_reading R)))
       (AuditLoggingList_DeepCopyObject k)"
  using object_copied[OF audit_copies[OF assms], of audit_kind "''AuditLogging''" "zero_audit_ram k"]
    object_copied[OF audit_list_copies[OF assms], of audit_list_kind "''AuditLoggingList''" "zero_list_ram k"]
  by (simp_all add: AuditLogging_DeepCopyObject_def AuditLoggingList_DeepCopyObject_def AuditLogging_DeepCopy_def[abs_def]
      AuditLoggingList_DeepCopy_def[abs_def])

subsection \<open>An instance\<close>

text \<open>The metadata and the resources as addresses of blocks of their own, which their deep copies duplicate.\<close>

type_synonym sample_ram = "(objmeta + resource_requirements, nat, string, nat) ram"

definition duplicate :: "nat \<Rightarrow> 'c memory \<Rightarrow> nat \<times> 'c memory" where
  "duplicate a m = (case cells m a of None \<Rightarrow> (a, m) | Some c \<Rightarrow> alloc c m)"

definition held_at :: "('c \<Rightarrow> 'x option) \<Rightarrow> 'x \<Rightarrow> ('c, nat, 'x) reading" where
  "held_at f d = \<lparr>rd_ok = (\<lambda>m a. a < next_addr m \<and> Option.bind (cells m a) f \<noteq> None),
     rd_val = (\<lambda>m a. case Option.bind (cells m a) f of None \<Rightarrow> d | Some x \<Rightarrow> x), rd_refs = (\<lambda>m a. {a})\<rparr>"

definition external_meta :: "(objmeta + resource_requirements, 'm, 'l, 'r) cell \<Rightarrow> objmeta option" where
  "external_meta c = (case c of External (Inl x) \<Rightarrow> Some x | _ \<Rightarrow> None)"

definition external_resources :: "(objmeta + resource_requirements, 'm, 'l, 'r) cell \<Rightarrow> resource_requirements option" where
  "external_resources c = (case c of External (Inr x) \<Rightarrow> Some x | _ \<Rightarrow> None)"

definition no_resources :: resource_requirements where
  "no_resources = \<lparr>rr_Limits = None, rr_Requests = None\<rparr>"

definition sample_copies :: "(objmeta + resource_requirements, nat, string, nat) k8s_copies" where
  "sample_copies = \<lparr>kc_meta = duplicate, kc_list = Pair, kc_resources = duplicate,
     kz_meta = 0, kz_list = [], kz_resources = 0\<rparr>"

definition sample_readings :: "(objmeta + resource_requirements, nat, string, nat, string) k8s_readings" where
  "sample_readings = \<lparr>kr_meta = held_at external_meta zero_meta, kr_list = plain_reading,
     kr_resources = held_at external_resources no_resources\<rparr>"

lemma duplicate_copies: "deep_copies (held_at f d) duplicate"
  unfolding deep_copies_def held_at_def reading.simps
  by unfold_locales
    (auto simp: duplicate_def alloc_def extends_def split: option.splits bind_split_asm)

lemma plain_copies_Pair: "deep_copies plain_reading Pair"
  using plain_copying by (simp add: deep_copies_def plain_reading_def)

lemma sample_k8s: "copies_k8s sample_copies sample_readings"
  by (simp add: copies_k8s_def sample_copies_def sample_readings_def duplicate_copies plain_copies_Pair)

definition ram_status :: status_ram where
  "ram_status = \<lparr>tr_Nodes = Some \<lparr>w_Array = 4, w_From = 1, w_Len = 1\<rparr>, tr_Versions = zero_version\<rparr>"

definition ram_common :: "(nat, nat) common_ram" where
  "ram_common = (zero_common_ram sample_copies)\<lparr>co_Type := \<lparr>tm_Kind = ''CommonAudit'', tm_APIVersion = ''v1''\<rparr>,
     co_Spec := (zero_spec_ram sample_copies)\<lparr>
       sr_Fluentd := \<lparr>fr_ImageRegistry = ''r'', fr_PullPolicy = [], fr_Resources = 1\<rparr>,
       sr_Outputs := zero_outputs_ram\<lparr>ou_HostAliases := Some \<lparr>w_Array = 3, w_From = 0, w_Len = 2\<rparr>\<rparr>\<rparr>,
     co_Status := ram_status\<rparr>"

definition ram_audit :: "(nat, nat) audit_ram" where
  "ram_audit = (zero_audit_ram sample_copies)\<lparr>
     au_Spec := (zero_al_spec_ram sample_copies)\<lparr>as_Fluentd := (zero_al_fluentd_ram sample_copies)\<lparr>ar_Resources := 1\<rparr>\<rparr>,
     au_Status := ram_status\<rparr>"

text \<open>Both aliases name their hosts by windows on the same block.\<close>

definition sample_memory :: sample_ram where
  "sample_memory = \<lparr>cells = [0 \<mapsto> External (Inl (zero_meta\<lparr>m_Name := ''audit''\<rparr>)), 1 \<mapsto> External (Inr no_resources),
     2 \<mapsto> Strings [''a'', ''b''],
     3 \<mapsto> HostAliasBlock [\<lparr>hr_HostIP = ''10.0.0.1'', hr_Hostnames = Some \<lparr>w_Array = 2, w_From = 0, w_Len = 2\<rparr>\<rparr>,
       \<lparr>hr_HostIP = ''10.0.0.2'', hr_Hostnames = Some \<lparr>w_Array = 2, w_From = 1, w_Len = 1\<rparr>\<rparr>],
     4 \<mapsto> Strings [''n0'', ''n1''], 5 \<mapsto> CommonBlock [ram_common], 6 \<mapsto> AuditBlock [ram_audit],
     7 \<mapsto> CommonListBlock [\<lparr>li_Type = zero_type, li_Meta = ''list'',
       li_Items = Some \<lparr>w_Array = 5, w_From = 0, w_Len = 1\<rparr>\<rparr>],
     8 \<mapsto> AuditListBlock [\<lparr>li_Type = zero_type, li_Meta = ''list'',
       li_Items = Some \<lparr>w_Array = 6, w_From = 0, w_Len = 1\<rparr>\<rparr>]],
     next_addr = 9\<rparr>"

lemmas sample_defs = sample_memory_def ram_common_def ram_audit_def ram_status_def sample_copies_def
  sample_readings_def kind_defs

lemmas readings = ptr_reading_def common_reading_def audit_reading_def list_reading_def spec_reading_def
  fluentd_reading_def outputs_reading_def alias_reading_def status_reading_def al_status_reading_def al_spec_reading_def
  al_fluentd_reading_def pair_reading_def slice_reading_def struct_reading_def plain_reading_def

lemmas reads = ptr_ok_def ptr_val_def both_def slice_ok_def slice_val_def window_elems_def points_to_def block_def
  held_at_def external_meta_def external_resources_def

lemma ram_common_allocated:
  "rd_ok (common_reading sample_readings) sample_memory ram_common"
  by (simp add: readings reads sample_defs zero_common_ram_def zero_spec_ram_def zero_outputs_ram_def)

lemma ram_common_ok:
  "rd_ok (ptr_reading common_kind (common_reading sample_readings)) sample_memory (Some \<lparr>p_Block = 5, p_Index = 0\<rparr>)"
  using ram_common_allocated
  by (simp add: ptr_reading_def ptr_ok_def points_to_def block_def sample_memory_def common_kind_def)

lemma ram_audit_ok:
  "rd_ok (ptr_reading audit_kind (audit_reading sample_readings)) sample_memory (Some \<lparr>p_Block = 6, p_Index = 0\<rparr>)"
  by (simp add: readings reads sample_defs zero_audit_ram_def zero_al_spec_ram_def zero_al_fluentd_ram_def)

lemma nil_ok: "rd_ok (ptr_reading K R) m None"
  by (simp add: ptr_reading_def ptr_ok_def)

lemma sample_next [simp]: "next_addr sample_memory = 9"
  by (simp add: sample_memory_def)

subsection \<open>Properties\<close>

text \<open>C38: \<open>DeepCopyObject\<close> of \<open>CommonAudit\<close>, \<open>CommonAuditList\<close>, \<open>AuditLogging\<close> and \<open>AuditLoggingList\<close>: of a nil
  pointer it returns the nil interface and leaves the memory alone. Of an object it returns a pointer to a new one that
  stands for the same metadata, settings, host aliases and status (and, of a list, the same items), shares no block
  with the original, and does not change it: writing to one of the two afterwards, through any pointer or slice in it,
  leaves the value of the other. This rests on the same contract for the deep copies of Kubernetes' \<open>ObjectMeta\<close>,
  \<open>ListMeta\<close> and \<open>ResourceRequirements\<close>.\<close>

theorem custom_resource_copies:
  assumes "copies_k8s k R"
  shows "copies_object ''CommonAudit'' (ptr_reading common_kind (common_reading R)) (CommonAudit_DeepCopyObject k) \<and>
    copies_object ''CommonAuditList'' (ptr_reading common_list_kind (list_reading R common_kind (common_reading R)))
      (CommonAuditList_DeepCopyObject k) \<and>
    copies_object ''AuditLogging'' (ptr_reading audit_kind (audit_reading R)) (AuditLogging_DeepCopyObject k) \<and>
    copies_object ''AuditLoggingList'' (ptr_reading audit_list_kind (list_reading R audit_kind (audit_reading R)))
      (AuditLoggingList_DeepCopyObject k)"
  using CommonAudit_objects[OF assms] AuditLogging_objects[OF assms] by blast

lemma custom_resource_copies_witness:
  "copies_k8s sample_copies sample_readings \<and>
   (case CommonAudit_DeepCopyObject sample_copies (Some \<lparr>p_Block = 5, p_Index = 0\<rparr>) sample_memory of
      (obj, m') \<Rightarrow> \<exists>c. obj = ObjectOf ''CommonAudit'' (Some c) \<and> 9 \<le> p_Block c \<and>
        independent_copy (ptr_reading common_kind (common_reading sample_readings)) sample_memory
          (Some \<lparr>p_Block = 5, p_Index = 0\<rparr>) m' (Some c)) \<and>
   (case AuditLogging_DeepCopyObject sample_copies (Some \<lparr>p_Block = 6, p_Index = 0\<rparr>) sample_memory of
      (obj, m') \<Rightarrow> \<exists>c. obj = ObjectOf ''AuditLogging'' (Some c) \<and> 9 \<le> p_Block c \<and>
        independent_copy (ptr_reading audit_kind (audit_reading sample_readings)) sample_memory
          (Some \<lparr>p_Block = 6, p_Index = 0\<rparr>) m' (Some c)) \<and>
   CommonAuditList_DeepCopyObject sample_copies None sample_memory = (NilObject, sample_memory)"
proof -
  note all = custom_resource_copies[OF sample_k8s, unfolded copies_object_def]
  show ?thesis
    using sample_k8s all[THEN conjunct1, rule_format, OF ram_common_ok]
      all[THEN conjunct2, THEN conjunct2, THEN conjunct1, rule_format, OF ram_audit_ok]
      all[THEN conjunct2, THEN conjunct1, THEN spec, of sample_memory, THEN spec, of None, THEN mp, OF nil_ok]
    by (auto split: prod.splits)
qed

end
