(* ===== verification/SchemeRegistration.thy ===== *)
theory SchemeRegistration
  imports Manager
begin

text \<open>
  The scheme of the manager: the files \<open>groupversion_info.go\<close> and the \<open>init\<close> functions of the two API packages,
  and \<open>init\<close> of main.go. Schemes are a type \<open>'s\<close> of apimachinery and their builders a type \<open>'b\<close> of controller-runtime; what
  these do, and the packages that add the types of Kubernetes and of cert-manager, are the parameter \<open>scheme_pkg\<close>.
\<close>

subsection \<open>The packages' types\<close>

datatype GroupVersion = GroupVersion string string

definition v1_GroupVersion :: GroupVersion where
  "v1_GroupVersion = GroupVersion ''operator.ibm.com'' ''v1''"

definition v1alpha1_GroupVersion :: GroupVersion where
  "v1alpha1_GroupVersion = GroupVersion ''operator.ibm.com'' ''v1alpha1''"

text \<open>Adding types may fail, for instance when a kind is already known with another Go type.\<close>

record ('b, 's) scheme_pkg =
  sp_NewScheme :: 's
  sp_clientgo :: "'s \<Rightarrow> string option \<times> 's"
  sp_certmgr :: "'s \<Rightarrow> string option \<times> 's"
  sp_Builder :: "GroupVersion \<Rightarrow> 'b"             \<comment> \<open>\<open>&scheme.Builder{GroupVersion: gv}\<close>\<close>
  sp_Register :: "string list \<Rightarrow> 'b \<Rightarrow> 'b"
  sp_AddToScheme :: "'b \<Rightarrow> 's \<Rightarrow> string option \<times> 's"
  sp_Recognizes :: "'s \<Rightarrow> GroupVersionKind \<Rightarrow> bool"

text \<open>The variable \<open>SchemeBuilder\<close> of each package after its \<open>init\<close>, which runs before that of main.go.\<close>

definition v1_SchemeBuilder :: "('b, 's) scheme_pkg \<Rightarrow> 'b" where
  "v1_SchemeBuilder p = sp_Builder p v1_GroupVersion"

definition v1_init :: "('b, 's) scheme_pkg \<Rightarrow> 'b \<Rightarrow> 'b" where
  "v1_init p b = sp_Register p [''CommonAudit'', ''CommonAuditList''] b"

definition v1alpha1_SchemeBuilder :: "('b, 's) scheme_pkg \<Rightarrow> 'b" where
  "v1alpha1_SchemeBuilder p = sp_Builder p v1alpha1_GroupVersion"

definition v1alpha1_init :: "('b, 's) scheme_pkg \<Rightarrow> 'b \<Rightarrow> 'b" where
  "v1alpha1_init p b = sp_Register p [''AuditLogging'', ''AuditLoggingList''] b"

text \<open>\<open>AddToScheme\<close> is the method of the variable's builder, a pointer: it sees what \<open>init\<close> has registered.\<close>

definition v1_AddToScheme :: "('b, 's) scheme_pkg \<Rightarrow> 's \<Rightarrow> string option \<times> 's" where
  "v1_AddToScheme p = sp_AddToScheme p (v1_init p (v1_SchemeBuilder p))"

definition v1alpha1_AddToScheme :: "('b, 's) scheme_pkg \<Rightarrow> 's \<Rightarrow> string option \<times> 's" where
  "v1alpha1_AddToScheme p = sp_AddToScheme p (v1alpha1_init p (v1alpha1_SchemeBuilder p))"

subsection \<open>The scheme of the manager\<close>

text \<open>\<open>utilruntime.Must\<close> panics on an error.\<close>

fun Must :: "string option \<times> 's \<Rightarrow> string + 's" where
  "Must (Some err, s) = Inl err"
| "Must (None, s) = Inr s"

definition main_init :: "('b, 's) scheme_pkg \<Rightarrow> string + 's" where
  "main_init p =
     (case Must (sp_clientgo p (sp_NewScheme p)) of
        Inl err \<Rightarrow> Inl err
      | Inr s \<Rightarrow>
          (case Must (v1_AddToScheme p s) of
             Inl err \<Rightarrow> Inl err
           | Inr s \<Rightarrow>
               (case Must (v1alpha1_AddToScheme p s) of
                  Inl err \<Rightarrow> Inl err
                | Inr s \<Rightarrow> Must (sp_certmgr p s))))"

subsection \<open>Which kinds it knows\<close>

fun kind_of :: "GroupVersion \<Rightarrow> string \<Rightarrow> GroupVersionKind" where
  "kind_of (GroupVersion g v) k = GVK g v k"

text \<open>
  What controller-runtime and apimachinery say of a builder and of a scheme: the types registered with a new builder
  are known under its group and version, and no known kind is removed.
\<close>

definition lawful_scheme :: "('b, 's) scheme_pkg \<Rightarrow> bool" where
  "lawful_scheme p \<longleftrightarrow>
     (\<forall>gv ts s s' g. sp_AddToScheme p (sp_Register p ts (sp_Builder p gv)) s = (None, s') \<longrightarrow>
        sp_Recognizes p s g \<or> g \<in> kind_of gv ` set ts \<longrightarrow> sp_Recognizes p s' g) \<and>
     (\<forall>s s' g. sp_certmgr p s = (None, s') \<longrightarrow> sp_Recognizes p s g \<longrightarrow> sp_Recognizes p s' g)"

lemma lawful_schemeD:
  assumes "lawful_scheme p"
  shows "sp_AddToScheme p (sp_Register p ts (sp_Builder p gv)) s = (None, s') \<Longrightarrow>
      sp_Recognizes p s g \<or> g \<in> kind_of gv ` set ts \<Longrightarrow> sp_Recognizes p s' g"
    "sp_certmgr p s = (None, s') \<Longrightarrow> sp_Recognizes p s g \<Longrightarrow> sp_Recognizes p s' g"
  using assms unfolding lawful_scheme_def by blast+

lemma Must_Inr [simp]: "Must r = Inr s \<longleftrightarrow> r = (None, s)"
  by (cases r; cases "fst r") auto

lemma main_init_stages:
  assumes "main_init p = Inr s"
  obtains s1 s2 s3 where "sp_clientgo p (sp_NewScheme p) = (None, s1)" "v1_AddToScheme p s1 = (None, s2)"
    "v1alpha1_AddToScheme p s2 = (None, s3)" "sp_certmgr p s3 = (None, s)"
  using assms by (auto simp: main_init_def split: sum.splits)

lemma package_kinds:
  assumes law: "lawful_scheme p" and init: "main_init p = Inr s"
    and g: "g \<in> kind_of v1_GroupVersion ` {''CommonAudit'', ''CommonAuditList''} \<union>
      kind_of v1alpha1_GroupVersion ` {''AuditLogging'', ''AuditLoggingList''}"
  shows "sp_Recognizes p s g"
proof (rule main_init_stages[OF init])
  fix s1 s2 s3
  assume v1: "v1_AddToScheme p s1 = (None, s2)" and v1alpha1: "v1alpha1_AddToScheme p s2 = (None, s3)"
    and certmgr: "sp_certmgr p s3 = (None, s)"
  note adds = v1[unfolded v1_AddToScheme_def v1_init_def v1_SchemeBuilder_def]
    v1alpha1[unfolded v1alpha1_AddToScheme_def v1alpha1_init_def v1alpha1_SchemeBuilder_def]
  have "sp_Recognizes p s3 g"
  proof (rule lawful_schemeD(1)[OF law adds(2)])
    show "sp_Recognizes p s2 g \<or> g \<in> kind_of v1alpha1_GroupVersion ` set [''AuditLogging'', ''AuditLoggingList'']"
      using g lawful_schemeD(1)[OF law adds(1), of g] by auto
  qed
  then show ?thesis by (rule lawful_schemeD(2)[OF law certmgr])
qed

text \<open>A known kind and its list.\<close>

definition knows_resource :: "('b, 's) scheme_pkg \<Rightarrow> 's \<Rightarrow> string \<Rightarrow> string \<Rightarrow> bool" where
  "knows_resource p s version kind \<longleftrightarrow>
     sp_Recognizes p s (GVK ''operator.ibm.com'' version kind) \<and>
     sp_Recognizes p s (GVK ''operator.ibm.com'' version (kind @ ''List''))"

text \<open>When \<open>init\<close> of main.go does not panic, the scheme of the manager knows the kind that each controller is for,
  and the kind of its lists, in the version of its package. This rests on what a scheme builder promises of the types registered with it.\<close>

theorem watched_kinds_registered:
  assumes law: "lawful_scheme p" and init: "main_init p = Inr s"
  shows "knows_resource p s ''v1'' (wt_For ca_watches) \<and> knows_resource p s ''v1alpha1'' (wt_For al_watches)"
  using package_kinds[OF law init]
  by (simp add: knows_resource_def ca_watches_def al_watches_def v1_GroupVersion_def v1alpha1_GroupVersion_def)

text \<open>A scheme as the list of its kinds, a builder with the types registered so far.\<close>

definition sample_scheme :: "(GroupVersion \<times> string list, GroupVersionKind list) scheme_pkg" where
  "sample_scheme =
     \<lparr>sp_NewScheme = [], sp_clientgo = (\<lambda>s. (None, GVK [] ''v1'' ''Pod'' # s)),
      sp_certmgr = (\<lambda>s. (None, GVK ''certmanager.k8s.io'' ''v1alpha1'' ''Issuer'' # s)),
      sp_Builder = (\<lambda>gv. (gv, [])), sp_Register = (\<lambda>ts (gv, us). (gv, us @ ts)),
      sp_AddToScheme = (\<lambda>(gv, ts) s. (None, map (kind_of gv) ts @ s)),
      sp_Recognizes = (\<lambda>s g. g \<in> set s)\<rparr>"

lemma sample_scheme_lawful: "lawful_scheme sample_scheme"
  by (auto simp: lawful_scheme_def sample_scheme_def)

lemma watched_kinds_registered_witness:
  "lawful_scheme sample_scheme \<and>
   (case main_init sample_scheme of
      Inl err \<Rightarrow> False
    | Inr s \<Rightarrow> knows_resource sample_scheme s ''v1'' ''CommonAudit'' \<and>
        knows_resource sample_scheme s ''v1alpha1'' ''AuditLogging'')"
proof (cases "main_init sample_scheme")
  case (Inl err)
  then show ?thesis
    by (simp add: main_init_def v1_AddToScheme_def v1alpha1_AddToScheme_def sample_scheme_def v1_init_def
        v1alpha1_init_def v1_SchemeBuilder_def v1alpha1_SchemeBuilder_def)
next
  case (Inr s)
  then show ?thesis
    using sample_scheme_lawful watched_kinds_registered[OF sample_scheme_lawful Inr]
    by (simp add: ca_watches_def al_watches_def)
qed

end
