(* ===== verification/Spec2Isabelle.thy ===== *)
theory Spec2Isabelle
  imports SiemSettings CacheSpec Operands ControllerGuards ConfigRepairs Interleaving HostAddresses
    Comparisons OperatorQueue StatusReports DeepCopyProps SchemeRegistration
begin

text \<open>
  A model of the IBM audit logging operator (Go, a Kubernetes operator) and the theorems about it.

  The program. \<open>main.go\<close> starts a manager of controller-runtime with a cache (\<open>controllers/k8sutil/cache.go\<close>)
  and two controllers: one for the namespaced resource \<open>CommonAudit\<close> (\<open>controllers/commonaudit_controller.go\<close>,
  \<open>controllers/reconcile_commonaudit.go\<close>), one for the cluster-scoped \<open>AuditLogging\<close>
  (\<open>controllers/auditlogging_controller.go\<close>, \<open>controllers/reconcile_auditlogging.go\<close>). A controller is called
  with the name of a resource, reads it, checks whether it may run, and goes through a list of methods, each of
  which compares one object of the cluster with the one it builds (\<open>controllers/resources\<close>) and creates, updates or
  deletes it; after any such change it asks to be called again. The types of the resources are in \<open>api\<close>, names and
  helpers in \<open>controllers/constant\<close> and \<open>controllers/util\<close>.

  The theories, and the code each of them follows:
    \<^item> Prelude: Go's slices and maps that can be nil, strings, and the library functions on them.
    \<^item> KubeTypes: the Kubernetes types as records, with the fields the operator reads or writes.
    \<^item> ApiTypes: \<open>api/v1/commonaudit_types.go\<close>, \<open>api/v1alpha1/auditlogging_types.go\<close>.
    \<^item> GoMemory, DeepCopies: the generated \<open>DeepCopy\<close> methods of both API packages, on a memory of blocks.
    \<^item> Util: \<open>constant/constants.go\<close>, \<open>util/utils.go\<close>, \<open>version/version.go\<close>.
    \<^item> Regexp, NetIP: \<open>regexp\<close> and \<open>net.ParseIP\<close> of Go's library, as far as the operator uses them.
    \<^item> ConfigTemplates, ConfigMapsV1alpha1, ConfigMapsV1: \<open>resources/configmaps_v1alpha1.go\<close> and
      \<open>resources/configmaps_v1.go\<close>.
    \<^item> Containers, Workloads, Resources: \<open>resources/containers.go\<close>; \<open>deployments.go\<close> and \<open>job.go\<close>;
      \<open>certificates.go\<close>, \<open>issuers.go\<close>, \<open>secret.go\<close>, \<open>service.go\<close>, \<open>rbac.go\<close>.
    \<^item> Client, CommonAuditReconciler, AuditLoggingReconciler: the two controllers, over a client of the API server
      that is a parameter; Client holds the shapes that their methods share.
    \<^item> FilteredCache, Manager: \<open>k8sutil/cache.go\<close>, \<open>main.go\<close>, and what the controllers watch.
    \<^item> SchemeRegistration: \<open>groupversion_info.go\<close> and \<open>init\<close> of both API packages, \<open>init\<close> of \<open>main.go\<close>.

  State. The world outside is a type variable that every request takes and returns. The package variables that the
  container builders write are the record \<open>globals\<close>, threaded beside the world. Every error return and every panic
  of the code is a value: a sum, an option, or the outcomes \<open>Failed\<close> and \<open>Panicked\<close> of a reconcile method.

  What the lemmas show:
    \<^item> SiemSettings, SiemProps, FreshConfig: the locale \<open>setting_keys\<close>, the contract between the code that edits
      a line \<open>key value\<close> and the texts; writing and reading back, what a new file holds, that no other line changes.
    \<^item> OutputPlugins: how the settings of an output plugin are carried over into a new version of its file.
    \<^item> WorkloadProps, Comparisons: the builders do not depend on what was built before, what each
      comparison reads, that an update satisfies the next comparison. HostAddresses: the host aliases and the
      replicas of a resource reach the deployment that is stored.
    \<^item> ApiServer, Gauges, Settling, LawfulServer: the laws of the API server, and the locales \<open>ranked\<close>,
      \<open>settling\<close> and \<open>resilient\<close> of a list of methods each with a rank, its distance from being settled.
      CommonAuditSettles, CommonAuditOperands, CommonAuditRounds, CommonAuditConverges, and their AuditLogging
      counterparts, interpret \<open>settling\<close> on the methods of the controllers and show that \<open>Reconcile\<close> converges.
    \<^item> Faults, CommonAuditFaults, AuditLoggingFaults: the same on a server whose requests fail, before or after they
      are carried out; they interpret \<open>resilient\<close>.
    \<^item> OperatorRequests, OperatorRounds, OperatorQueue: the operator as a whole, with any number of resources. The
      work queues of the controllers as a set of requests, a step relation of their rounds, and an inductive history
      with failing requests, restarts and changes by others; what is not queued is in place, and left alone the
      operator comes to rest.
    \<^item> Stability: what is in place is not touched again. StatusReports: the status that a resource has after the
      last round. ControllerGuards: when a resource is refused.
      ConfigRepairs: what a repair of a ConfigMap keeps, and inputs from which the code does not recover.
    \<^item> Operands: which names of the operands are answered by operands of the same resource, and exactly which lead
      outside; manager and cache see every operand.
    \<^item> Interleaving: the two controllers build containers at the same time, as interleavings of assignments; which
      build has written the fields that are copied, for every schedule.
    \<^item> DeepCopyLaws, DeepCopyProps: the contract \<open>deep_copying\<close> of each generated method from that of its fields, and
      that a copied object and its original are independent of each other. SchemeRegistration: the scheme knows the
      kinds that the controllers are for.
    \<^item> CacheProps, CacheSpec: keys of the index, lists by field, the cache as a refinement of a map of objects.

  Bounds. \<open>rounds\<close> and \<open>retries\<close> take the number of calls of \<open>Reconcile\<close> as fuel. 53 calls are enough for
  \<open>CommonAudit\<close>: it has 13 operands of rank at most 4 (a SIEM file is repaired, found incomplete, deleted and created),
  and each call that asks for another one takes at least 1 from the sum of the ranks. \<open>AuditLogging\<close> has 12 operands
  of rank at most 2, hence 25. With faults, each fault costs at most one call more. In OperatorQueue an \<open>AuditLogging\<close> counts
  49: the 24 of its operands, and 25 more as long as its policy is not set, for setting it can add to what is left to do.

  Parameters and laws. Code outside the repository is a parameter: the API server (laws \<open>lawful\<close>,
  \<open>serves_common\<close>, \<open>serves_audit\<close>, \<open>updates_audit\<close>, \<open>lists_pods\<close>), the YAML decoder (\<open>yaml_literal\<close>), \<open>resource.Quantity\<close>, the informers and
  the fallback cache, the manager, schemes (\<open>lawful_scheme\<close>), the deep copies of the Kubernetes types (\<open>copies_k8s\<close>). MemoryServer and
  the examples beside the laws give an instance of each, at which the theorems are evaluated. The laws of the server
  say that it stores what it is sent up to parts that the operator's comparisons do not read. Two of the laws are
  idealisations: every update of an existing object succeeds, although a server refuses changes of immutable
  fields; and an informer's index lists objects in the order of its store, which client-go does not promise.

  Concurrency. In OperatorQueue a round of a controller is one step, and the rounds of different requests come in any
  order. Histories are limited to clusters that stay \<open>orderly\<close>, and the watches are taken to queue every resource
  whose operands others change; \<open>Owns\<close> does so for operands that the operator has created, and it never
  adopts one that it finds. The two controllers share nothing but the cluster, in which their operands are different objects, and the
  record \<open>globals\<close>; what can happen to the latter when builders overlap is the subject of Interleaving,
  where each assignment and the copy of the container are atomic, which Go does not promise of racing accesses.

  Not modelled: logging, and the pause after a successful round; the parsing of the command line; JSON tags and
  kubebuilder markers; default file modes of volumes; how client-go runs an informer; the functions of the tests
  under \<open>controllers/testutil\<close>. An object that the client fills in is a value here; sharing of memory between an
  object and its copy is the subject of the theories on deep copies only.
\<close>

end
